(* ===== verification/PID_Prelude.thy ===== *)
theory PID_Prelude
  imports Main
begin

text \<open>
  Shared vocabulary of the departure-board model (src/app.js): the JavaScript value
  types the server manipulates, named as type synonyms; the error values that stand for
  a rejected promise or a thrown TypeError; JavaScript array indexing, which yields
  \<open>undefined\<close> out of range instead of raising; a bind on results; and the generic list
  lemmas the component theories share, collected in \<open>pid_simps\<close>.
\<close>

named_theorems pid_simps "generic rewriting facts shared by the component theories"

type_synonym stop_id = int      \<comment> \<open>PTV \<open>stop_id\<close>, a JS number\<close>
type_synonym run_ref = string   \<comment> \<open>PTV \<open>run_ref\<close>, a JS string\<close>
type_synonym route_id = int     \<comment> \<open>PTV \<open>route_id\<close>, keys parsed with \<open>parseInt\<close>\<close>
type_synonym route_type = int   \<comment> \<open>0 = metropolitan train, otherwise V/Line etc.\<close>
type_synonym millis = int       \<comment> \<open>\<open>Date.getTime()\<close>, milliseconds since the epoch\<close>
type_synonym platform = string  \<comment> \<open>\<open>platform_number\<close>, used as an object key\<close>

text \<open>
  Failures of the server's asynchronous work. \<open>FetchFailed\<close> is a rejected
  \<open>axios.get\<close> (network error, 4xx or 5xx); \<open>TypeError\<close> is the exception JavaScript
  raises when a property of \<open>undefined\<close> is read; its argument names the expression.
\<close>

datatype error = FetchFailed | TypeError string

type_synonym 'a result = "error + 'a"

definition res_bind :: "'a result \<Rightarrow> ('a \<Rightarrow> 'b result) \<Rightarrow> 'b result" where
  "res_bind r f = (case r of Inl e \<Rightarrow> Inl e | Inr x \<Rightarrow> f x)"

subsection \<open>JavaScript array reads\<close>

text \<open>
  \<open>xs[i]\<close> in JavaScript reads \<open>undefined\<close> when \<open>i\<close> is negative or not below the
  length; reading a property of that \<open>undefined\<close> then throws. \<open>js_at\<close> returns
  \<open>None\<close> for \<open>undefined\<close>, so that every model states what happens there.
\<close>

definition js_at :: "'a list \<Rightarrow> int \<Rightarrow> 'a option" where
  "js_at xs i = (if 0 \<le> i \<and> i < int (length xs) then Some (xs ! nat i) else None)"

text \<open>\<open>starts_with p s\<close>: \<open>p\<close> is a prefix of \<open>s\<close>.\<close>

fun starts_with :: "'a list \<Rightarrow> 'a list \<Rightarrow> bool" where
  "starts_with [] s = True"
| "starts_with (p # ps) [] = False"
| "starts_with (p # ps) (c # cs) = (p = c \<and> starts_with ps cs)"

text \<open>A platform queue is in time order when the key it is sorted by never decreases.\<close>

definition sorted_by :: "('a \<Rightarrow> int) \<Rightarrow> 'a list \<Rightarrow> bool" where
  "sorted_by f xs = sorted (map f xs)"

text \<open>
  Running one fallible operation on every element, in order: \<open>Promise.all\<close> of the
  results, which rejects when one of them does (the error of the first, in list order).
\<close>

fun res_map :: "('a \<Rightarrow> 'b result) \<Rightarrow> 'a list \<Rightarrow> 'b list result" where
  "res_map f [] = Inr []"
| "res_map f (x # xs) = res_bind (f x) (\<lambda>y. res_bind (res_map f xs) (\<lambda>ys. Inr (y # ys)))"

subsection \<open>Lemmas\<close>

lemma res_bind_Inl [simp]: "res_bind (Inl e) f = Inl e"
  and res_bind_Inr [simp]: "res_bind (Inr x) f = f x"
  by (simp_all add: res_bind_def)

lemma res_bind_eq_Inr [pid_simps]:
  "res_bind r f = Inr y \<longleftrightarrow> (\<exists>x. r = Inr x \<and> f x = Inr y)"
  by (cases r) simp_all

lemma res_bind_eq_Inl [pid_simps]:
  "res_bind r f = Inl e \<longleftrightarrow> r = Inl e \<or> (\<exists>x. r = Inr x \<and> f x = Inl e)"
  by (cases r) simp_all

lemma js_at_Some_iff [pid_simps]:
  "js_at xs i = Some x \<longleftrightarrow> 0 \<le> i \<and> i < int (length xs) \<and> xs ! nat i = x"
  by (auto simp: js_at_def)

lemma js_at_None_iff [pid_simps]:
  "js_at xs i = None \<longleftrightarrow> i < 0 \<or> int (length xs) \<le> i"
  by (auto simp: js_at_def)

lemma js_at_nat [simp]: "js_at xs (int n) = (if n < length xs then Some (xs ! n) else None)"
  by (simp add: js_at_def)

lemma js_at_Nil [simp]: "js_at [] i = None"
  by (simp add: js_at_def)

lemma js_at_0_Cons [simp]: "js_at (x # xs) 0 = Some x"
  by (simp add: js_at_def)

lemma js_at_append_left [pid_simps]:
  "i < int (length xs) \<Longrightarrow> js_at (xs @ ys) i = js_at xs i"
  by (auto simp: js_at_def nth_append)

lemma js_at_in_set: "js_at xs i = Some x \<Longrightarrow> x \<in> set xs"
  by (auto simp: js_at_def split: if_splits)

lemma js_at_last [pid_simps]:
  assumes "xs \<noteq> []"
  shows "js_at xs (int (length xs) - 1) = Some (last xs)"
proof -
  from assms have "nat (int (length xs) - 1) = length xs - 1" and "0 < length xs"
    by auto
  with assms show ?thesis by (simp add: js_at_def last_conv_nth)
qed

lemma starts_with_iff [pid_simps]: "starts_with p s \<longleftrightarrow> (\<exists>t. s = p @ t)"
  by (induction p s rule: starts_with.induct) auto

lemma starts_with_length: "starts_with p s \<Longrightarrow> length p \<le> length s"
  by (auto simp: starts_with_iff)

lemma starts_with_append [simp]: "starts_with p (p @ t)"
  by (simp add: starts_with_iff)

lemma find_append [pid_simps]:
  "find P (xs @ ys) = (case find P xs of None \<Rightarrow> find P ys | Some x \<Rightarrow> Some x)"
  by (induction xs) auto

lemma sorted_by_Nil [simp]: "sorted_by f []"
  and sorted_by_Cons [simp]: "sorted_by f (x # xs) \<longleftrightarrow> (\<forall>y \<in> set xs. f x \<le> f y) \<and> sorted_by f xs"
  by (simp_all add: sorted_by_def)

lemma sorted_by_tl [pid_simps]: "sorted_by f xs \<Longrightarrow> sorted_by f (tl xs)"
  by (cases xs) simp_all

lemma sorted_by_filter [pid_simps]: "sorted_by f xs \<Longrightarrow> sorted_by f (filter P xs)"
  by (induction xs) auto

lemma sorted_by_map_same_key [pid_simps]:
  "(\<And>x. x \<in> set xs \<Longrightarrow> f (g x) = f x) \<Longrightarrow> sorted_by f (map g xs) = sorted_by f xs"
  by (induction xs) auto

lemma sorted_by_nth_mono [pid_simps]:
  "sorted_by f xs \<Longrightarrow> i \<le> j \<Longrightarrow> j < length xs \<Longrightarrow> f (xs ! i) \<le> f (xs ! j)"
  using sorted_nth_mono [of "map f xs" i j] by (simp add: sorted_by_def)

lemma res_map_Inr_iff [pid_simps]:
  "res_map f xs = Inr ys \<longleftrightarrow> list_all2 (\<lambda>x y. f x = Inr y) xs ys"
proof (induction xs arbitrary: ys)
  case Nil
  then show ?case by auto
next
  case (Cons x xs)
  then show ?case
    by (cases ys) (auto simp: res_bind_def simp flip: Cons.IH split: sum.splits)
qed

lemma res_map_Inl_iff [pid_simps]:
  "(\<exists>e. res_map f xs = Inl e) \<longleftrightarrow> (\<exists>x \<in> set xs. \<exists>e. f x = Inl e)"
  by (induction xs) (auto simp: res_bind_def split: sum.splits)

lemma res_map_length: "res_map f xs = Inr ys \<Longrightarrow> length ys = length xs"
  by (simp add: res_map_Inr_iff list_all2_lengthD)

end
