(* ===== verification/PID_Strings.thy ===== *)
theory PID_Strings
  imports PID_Prelude
begin

text \<open>
  The string operations of src/app.js: the three regular-expression replacements that
  clean stop names (\<open>/-.*$/gm\<close>, \<open>/ Station/gm\<close>) and shorten destinations
  (\<open>shortenName\<close>, lines 151--153), \<open>String.prototype.trim\<close>, the capitalisation of
  the subtitle (line 229) and \<open>parseInt\<close> of the position query (line 98).
  A JavaScript string is a sequence of UTF-16 code units; here it is a \<open>string\<close> of
  8-bit characters, so the model covers names whose code units are below 256. The line
  terminators of JavaScript regular expressions inside that range are LF and CR.
\<close>

definition is_line_terminator :: "char \<Rightarrow> bool" where
  "is_line_terminator c \<longleftrightarrow> c = CHR 0x0A \<or> c = CHR 0x0D"

text \<open>
  \<open>s.replace(/-.*$/gm, '')\<close>: each match starts at a hyphen and, since \<open>.\<close> does not
  match a line terminator and \<open>$\<close> in multiline mode matches before one, runs to the
  end of its line. The flag \<open>dropping\<close> says that the scan is inside such a match.
\<close>

fun strip_dash_from :: "bool \<Rightarrow> string \<Rightarrow> string" where
  "strip_dash_from dropping [] = []"
| "strip_dash_from dropping (c # cs) =
     (if is_line_terminator c then c # strip_dash_from False cs
      else if dropping \<or> c = CHR ''-'' then strip_dash_from True cs
      else c # strip_dash_from False cs)"

definition strip_dash :: "string \<Rightarrow> string" where
  "strip_dash s = strip_dash_from False s"

text \<open>
  \<open>s.replace(/lit/gm, r)\<close> for a pattern \<open>lit\<close> with no metacharacter: the matches
  are the non-overlapping occurrences of \<open>lit\<close>, found left to right.
\<close>

function replace_all_literal :: "string \<Rightarrow> string \<Rightarrow> string \<Rightarrow> string" where
  "replace_all_literal p r [] = []"
| "replace_all_literal p r (c # cs) =
     (if p \<noteq> [] \<and> starts_with p (c # cs)
      then r @ replace_all_literal p r (drop (length p) (c # cs))
      else c # replace_all_literal p r cs)"
  by pat_completeness auto
termination
  by (relation "measure (\<lambda>(p, r, s). length s)") auto

definition strip_station :: "string \<Rightarrow> string" where
  "strip_station s = replace_all_literal '' Station'' [] s"

text \<open>
  \<open>s.replace(/^lit/gm, r)\<close>: in multiline mode \<open>^\<close> matches at the start of the input
  and after each line terminator; \<open>at_start\<close> records that the scan is at such a place.
\<close>

function replace_line_start :: "string \<Rightarrow> string \<Rightarrow> bool \<Rightarrow> string \<Rightarrow> string" where
  "replace_line_start p r at_start [] = []"
| "replace_line_start p r at_start (c # cs) =
     (if at_start \<and> p \<noteq> [] \<and> starts_with p (c # cs)
      then r @ replace_line_start p r (is_line_terminator (last p)) (drop (length p) (c # cs))
      else c # replace_line_start p r (is_line_terminator c) cs)"
  by pat_completeness auto
termination
  by (relation "measure (\<lambda>(p, r, b, s). length s)") auto

definition shortenName :: "string \<Rightarrow> string" where
  "shortenName name =
     replace_line_start ''Upper '' ''U '' True
      (replace_line_start ''South '' ''S '' True
        (replace_line_start ''West '' ''W '' True
          (replace_line_start ''East '' ''E '' True
            (replace_line_start ''North '' ''N '' True name))))"

text \<open>
  \<open>String.prototype.trim\<close> removes leading and trailing white space and line
  terminators; in the 8-bit range these are TAB, LF, VT, FF, CR, SPACE and NBSP.
\<close>

definition js_white :: "char \<Rightarrow> bool" where
  "js_white c \<longleftrightarrow> c \<in> set [CHR 0x09, CHR 0x0A, CHR 0x0B, CHR 0x0C, CHR 0x0D, CHR 0x20, CHR 0xA0]"

definition js_trim :: "string \<Rightarrow> string" where
  "js_trim s = rev (dropWhile js_white (rev (dropWhile js_white s)))"

text \<open>
  \<open>s.charAt(0).toUpperCase() + s.slice(1)\<close> (line 229); \<open>toUpperCase\<close> is modelled on
  the ASCII letters, which are the only first characters a subtitle can have.
\<close>

definition js_upper_char :: "char \<Rightarrow> char" where
  "js_upper_char c =
     (case map_of (zip ''abcdefghijklmnopqrstuvwxyz'' ''ABCDEFGHIJKLMNOPQRSTUVWXYZ'') c of
        Some u \<Rightarrow> u
      | None \<Rightarrow> c)"

definition capitalize_first :: "string \<Rightarrow> string" where
  "capitalize_first s = (case s of [] \<Rightarrow> [] | c # cs \<Rightarrow> js_upper_char c # cs)"

text \<open>
  \<open>parseInt(s)\<close> without a radix: skip leading white space, read an optional sign,
  take radix 16 after a \<open>0x\<close> or \<open>0X\<close> prefix and 10 otherwise, and read the longest
  run of digits of that radix. No digit gives \<open>NaN\<close>, here \<open>None\<close>. Values beyond
  \<open>2^53\<close>, where the double loses precision, are outside the model.
\<close>

definition digit_value :: "char \<Rightarrow> nat option" where
  "digit_value c =
     (let k = of_char c :: nat in
      if 48 \<le> k \<and> k \<le> 57 then Some (k - 48)
      else if 97 \<le> k \<and> k \<le> 122 then Some (k - 87)
      else if 65 \<le> k \<and> k \<le> 90 then Some (k - 55)
      else None)"

fun digit_run :: "nat \<Rightarrow> string \<Rightarrow> nat list" where
  "digit_run radix [] = []"
| "digit_run radix (c # cs) =
     (case digit_value c of
        Some d \<Rightarrow> (if d < radix then d # digit_run radix cs else [])
      | None \<Rightarrow> [])"

definition parseInt :: "string \<Rightarrow> int option" where
  "parseInt s =
     (let s1 = dropWhile js_white s;
          (sign, s2) = (case s1 of
                          [] \<Rightarrow> (1::int, [])
                        | c # r \<Rightarrow> (if c = CHR ''-'' then (-1, r)
                                   else if c = CHR ''+'' then (1, r) else (1, s1)));
          (radix, s3) = (if take 2 s2 = ''0x'' \<or> take 2 s2 = ''0X'' then (16::nat, drop 2 s2)
                         else (10, s2));
          ds = digit_run radix s3
      in if ds = [] then None
         else Some (sign * int (foldl (\<lambda>acc d. acc * radix + d) 0 ds)))"

text \<open>
  \<open>ToNumber\<close> of a string, as the loose equality \<open>number == string\<close> and \<open>isNaN\<close> apply
  it: the trimmed string is read as a decimal integer literal with an optional sign, and
  the empty string is 0. Other numeric literals (fractions, exponents, hexadecimal) are
  outside the model and read as \<open>None\<close>, as \<open>NaN\<close> is.
\<close>

definition js_string_to_int :: "string \<Rightarrow> int option" where
  "js_string_to_int s =
     (let t = js_trim s;
          (sign, u) = (case t of
                         [] \<Rightarrow> (1::int, [])
                       | c # r \<Rightarrow> (if c = CHR ''-'' then (-1, r)
                                  else if c = CHR ''+'' then (1, r) else (1, t)))
      in if t = [] then Some 0
         else if u \<noteq> [] \<and> length (digit_run 10 u) = length u
         then Some (sign * int (foldl (\<lambda>acc d. acc * 10 + d) 0 (digit_run 10 u)))
         else None)"

subsection \<open>Names on one line\<close>

text \<open>
  Stop and destination names from the timetable are single lines. On such a string the
  multiline regular expressions reduce to operations on the whole string.
\<close>

definition single_line :: "string \<Rightarrow> bool" where
  "single_line s \<longleftrightarrow> (\<forall>c \<in> set s. \<not> is_line_terminator c)"

subsection \<open>The compass abbreviation\<close>

text \<open>
  The reference behaviour of \<open>shortenName\<close>: replace the first word of the name
  when it is one of the five compass words, by its abbreviation.
\<close>

definition compass_prefixes :: "(string \<times> string) list" where
  "compass_prefixes =
     [(''North '', ''N ''), (''East '', ''E ''), (''West '', ''W ''), (''South '', ''S ''),
      (''Upper '', ''U '')]"

definition abbrev_leading :: "string \<Rightarrow> string" where
  "abbrev_leading s =
     (case find (\<lambda>(w, a). starts_with w s) compass_prefixes of
        None \<Rightarrow> s
      | Some (w, a) \<Rightarrow> a @ drop (length w) s)"

subsection \<open>Lemmas\<close>

lemma single_line_simps [simp]:
  "single_line []"
  "single_line (c # cs) \<longleftrightarrow> \<not> is_line_terminator c \<and> single_line cs"
  "single_line (xs @ ys) \<longleftrightarrow> single_line xs \<and> single_line ys"
  by (auto simp: single_line_def)

lemma single_line_drop [pid_simps]: "single_line s \<Longrightarrow> single_line (drop n s)"
  by (auto simp: single_line_def dest: in_set_dropD)

lemma strip_dash_from_dropping: "single_line s \<Longrightarrow> strip_dash_from True s = []"
  by (induction s) auto

lemma strip_dash_from_no_dash: "CHR ''-'' \<notin> set (strip_dash_from b s)"
  by (induction b s rule: strip_dash_from.induct) (auto simp: is_line_terminator_def)

lemma strip_dash_from_length: "length (strip_dash_from b s) \<le> length s"
  by (induction b s rule: strip_dash_from.induct) auto

lemma replace_line_start_inside: "single_line s \<Longrightarrow> replace_line_start p r False s = s"
  by (induction s) auto

lemma replace_line_start_single_line:
  assumes "single_line s" "single_line p" "p \<noteq> []"
  shows "replace_line_start p r True s = (if starts_with p s then r @ drop (length p) s else s)"
proof (cases s)
  case Nil
  then show ?thesis using assms by (cases p) auto
next
  case (Cons c cs)
  have "\<not> is_line_terminator (last p)"
    using assms(2,3) by (auto simp: single_line_def)
  then show ?thesis
    using assms Cons by (auto simp: replace_line_start_inside single_line_drop)
qed

lemma js_trim_snoc_white:
  assumes "js_white c"
  shows "js_trim (s @ [c]) = js_trim s"
proof (cases "\<forall>x \<in> set s. js_white x")
  case True
  then have a: "dropWhile js_white s = []" by (simp add: dropWhile_eq_Nil_conv)
  have b: "dropWhile js_white (s @ [c]) = []" using True assms by (simp add: dropWhile_eq_Nil_conv)
  show ?thesis unfolding js_trim_def a b by simp
next
  case False
  then have "dropWhile js_white (s @ [c]) = dropWhile js_white s @ [c]"
    by (simp add: dropWhile_append)
  with assms show ?thesis by (simp add: js_trim_def)
qed

lemma js_trim_Cons_nonwhite [pid_simps]:
  "\<not> js_white c \<Longrightarrow> js_trim (c # s) = c # rev (dropWhile js_white (rev s))"
  by (auto simp: js_trim_def dropWhile_append dropWhile_eq_Nil_conv)

lemma capitalize_first_nonlower [pid_simps]:
  "c \<notin> set ''abcdefghijklmnopqrstuvwxyz'' \<Longrightarrow> capitalize_first (c # s) = c # s"
  by (simp add: capitalize_first_def js_upper_char_def map_of_zip_is_None)

lemma digit_char:
  assumes "48 \<le> (of_char c :: nat)" and "(of_char c :: nat) \<le> 57"
  shows "\<not> js_white c \<and> c \<noteq> CHR ''-'' \<and> c \<noteq> CHR ''+'' \<and> c \<noteq> CHR ''x'' \<and> c \<noteq> CHR ''X''
         \<and> digit_value c = Some (of_char c - 48)"
  using assms by (auto simp: js_white_def digit_value_def)

lemma digit_run_digits:
  "\<forall>c \<in> set s. 48 \<le> (of_char c :: nat) \<and> (of_char c :: nat) \<le> 57 \<Longrightarrow>
   digit_run 10 s = map (\<lambda>c. of_char c - 48) s"
  by (induction s) (auto simp: digit_char)

lemma abbrev_leading_single_line [pid_simps]:
  "single_line s \<Longrightarrow> single_line (abbrev_leading s)"
  by (auto simp: abbrev_leading_def compass_prefixes_def single_line_drop is_line_terminator_def
      split: if_splits)

lemma shortenName_eq_abbrev_leading:
  "single_line s \<Longrightarrow> shortenName s = abbrev_leading s"
  by (simp add: shortenName_def abbrev_leading_def compass_prefixes_def
      replace_line_start_single_line single_line_drop is_line_terminator_def
      split: if_splits)

subsection \<open>Properties of shortenName\<close>

text \<open>
  C34: on a name without line breaks, the cascade of five anchored
  replacements in \<open>shortenName\<close> is the single replacement of a leading compass word
  (North, East, West, South, Upper) by its abbreviation, and leaves other names alone.
\<close>

theorem shortenName_single_line:
  assumes "single_line s"
  shows "shortenName s = abbrev_leading s"
  using assms by (rule shortenName_eq_abbrev_leading)

theorem shortenName_single_line_witness:
  "single_line ''North Melbourne'' \<and> shortenName ''North Melbourne'' = abbrev_leading ''North Melbourne''"
proof -
  have h: "single_line ''North Melbourne''" by (simp add: is_line_terminator_def)
  show ?thesis using h shortenName_single_line [OF h] by simp
qed

text \<open>
  The example of the specification: \<open>shortenName\<close> turns
  ``North Melbourne'' into ``N Melbourne'', and leaves ``Flinders Street'' unchanged.
\<close>

theorem shortenName_examples:
  "shortenName ''North Melbourne'' = ''N Melbourne''
   \<and> shortenName ''Flinders Street'' = ''Flinders Street''"
  by (simp add: shortenName_def is_line_terminator_def)

end
