(* ===== verification/PID_Pattern.thy ===== *)
theory PID_Pattern
  imports PID_Strings
begin

text \<open>
  The Pattern Fetcher, \<open>fetchPattern\<close> (src/app.js lines 113--137), and the data it
  reads from the timetable API's \<open>/pattern/run/{run}/route_type/{type}\<close> response. The
  upstream service is a function from the request to the decoded response, \<open>None\<close>
  when the request is rejected. The walk over the pattern keeps the source's flag
  \<open>startSaving\<close> and its \<open>note\<close>; a stop whose name is missing from the response's
  \<open>stops\<close> object makes the source read \<open>.stop_name\<close> of \<open>undefined\<close>, a TypeError.
\<close>

subsection \<open>The configured station\<close>

text \<open>
  \<open>STATION\<close> (lines 26--38) holds the number found by a search when the environment
  variable is a name, and the environment string itself when it reads as a number.
  Loose equality \<open>stop.stop_id == STATION\<close> converts that string to a number;
  \<open>Array.prototype.includes\<close> in \<open>isCBDStation\<close> compares strictly.
\<close>

datatype station_value = StationNumber stop_id | StationString string

fun station_loose_eq :: "stop_id \<Rightarrow> station_value \<Rightarrow> bool" where
  "station_loose_eq i (StationNumber n) = (i = n)"
| "station_loose_eq i (StationString s) = (js_string_to_int s = Some i)"

subsection \<open>Timetable data\<close>

record stop =
  st_id :: stop_id
  st_name :: string
  st_skipped :: bool

record skipped_stop =
  sk_stop_id :: stop_id
  sk_stop_name :: string

record pattern_departure =
  pd_stop_id :: stop_id
  pd_departure_note :: string
  pd_skipped_stops :: "skipped_stop list"

text \<open>
  A run's \<open>interchange.distributor\<close>: the run that continues the journey past this
  run's terminus. \<open>run_distributor\<close> is \<open>None\<close> when \<open>interchange\<close> or its
  \<open>distributor\<close> is absent (line 171 tests both).
\<close>

record distributor =
  dist_destination_name :: string
  dist_run_ref :: run_ref

record run =
  run_run_ref :: run_ref
  run_route_id :: route_id
  run_route_type :: route_type
  run_final_stop_id :: stop_id
  run_destination_name :: string
  run_distributor :: "distributor option"

record pattern_response =
  pr_departures :: "pattern_departure list"
  pr_stops :: "stop_id \<Rightarrow> string option"
  pr_runs :: "run_ref \<Rightarrow> run option"

record pattern_result =
  res_stations :: "stop list"
  res_note :: string
  res_run :: "run option"

type_synonym pattern_api = "route_type \<Rightarrow> run_ref \<Rightarrow> pattern_response option"

subsection \<open>fetchPattern\<close>

definition served_stop :: "pattern_departure \<Rightarrow> string \<Rightarrow> stop" where
  "served_stop d nm = \<lparr>st_id = pd_stop_id d, st_name = strip_dash nm, st_skipped = False\<rparr>"

definition skipped_entry :: "skipped_stop \<Rightarrow> stop" where
  "skipped_entry k =
     \<lparr>st_id = sk_stop_id k, st_name = strip_dash (strip_station (sk_stop_name k)), st_skipped = True\<rparr>"

text \<open>The loop of lines 119--131: \<open>saving\<close> is \<open>startSaving\<close>, \<open>note\<close> the note so far.\<close>

fun pattern_walk ::
  "station_value \<Rightarrow> (stop_id \<Rightarrow> string option) \<Rightarrow> bool \<Rightarrow> string \<Rightarrow> pattern_departure list
   \<Rightarrow> (stop list \<times> string) result" where
  "pattern_walk station names saving note [] = Inr ([], note)"
| "pattern_walk station names saving note (d # ds) =
     (if \<not> saving \<and> \<not> station_loose_eq (pd_stop_id d) station
      then pattern_walk station names saving note ds
      else
        (let note' = (if saving then note else pd_departure_note d) in
         case names (pd_stop_id d) of
           None \<Rightarrow> Inl (TypeError ''resp.data.stops[stop.stop_id].stop_name'')
         | Some nm \<Rightarrow>
             res_bind (pattern_walk station names True note' ds)
               (\<lambda>(rest, n). Inr (served_stop d nm # map skipped_entry (pd_skipped_stops d) @ rest, n))))"

definition fetchPattern ::
  "pattern_api \<Rightarrow> station_value \<Rightarrow> route_type \<Rightarrow> run_ref \<Rightarrow> bool \<Rightarrow> pattern_result result" where
  "fetchPattern api station type run saveAll =
     (case api type run of
        None \<Rightarrow> Inl FetchFailed
      | Some resp \<Rightarrow>
          res_bind (pattern_walk station (pr_stops resp) saveAll [] (pr_departures resp))
            (\<lambda>(sts, note). Inr \<lparr>res_stations = sts, res_note = note, res_run = pr_runs resp run\<rparr>))"

subsection \<open>Reference description\<close>

text \<open>
  What the walk computes, stated without the loop: the stops of the pattern from the
  configured station on (or all of them), each followed by the stops the run skips
  after it; this requires every served stop's name in the response.
\<close>

definition from_station :: "station_value \<Rightarrow> pattern_departure list \<Rightarrow> pattern_departure list" where
  "from_station station ds = dropWhile (\<lambda>d. \<not> station_loose_eq (pd_stop_id d) station) ds"

definition names_known :: "(stop_id \<Rightarrow> string option) \<Rightarrow> pattern_departure list \<Rightarrow> bool" where
  "names_known names ds \<longleftrightarrow> (\<forall>d \<in> set ds. names (pd_stop_id d) \<noteq> None)"

definition pattern_stops :: "(stop_id \<Rightarrow> string option) \<Rightarrow> pattern_departure list \<Rightarrow> stop list" where
  "pattern_stops names ds =
     concat (map (\<lambda>d. served_stop d (the (names (pd_stop_id d))) # map skipped_entry (pd_skipped_stops d)) ds)"

text \<open>A two-stop pattern used by the witnesses: stop 1 (the home station) then stop 2.\<close>

definition example_pattern :: pattern_response where
  "example_pattern =
     \<lparr>pr_departures =
        [\<lparr>pd_stop_id = 1, pd_departure_note = [], pd_skipped_stops = []\<rparr>,
         \<lparr>pd_stop_id = 2, pd_departure_note = [], pd_skipped_stops = []\<rparr>],
      pr_stops = [1 \<mapsto> ''Home'', 2 \<mapsto> ''Next''],
      pr_runs = Map.empty\<rparr>"

subsection \<open>Lemmas\<close>

lemma pattern_stops_simps [simp]:
  "pattern_stops names [] = []"
  "pattern_stops names (d # ds) =
     served_stop d (the (names (pd_stop_id d))) # map skipped_entry (pd_skipped_stops d)
     @ pattern_stops names ds"
  by (simp_all add: pattern_stops_def)

lemma names_known_simps [simp]:
  "names_known names []"
  "names_known names (d # ds) \<longleftrightarrow> names (pd_stop_id d) \<noteq> None \<and> names_known names ds"
  by (simp_all add: names_known_def)

lemma served_stop_simps [simp]:
  "st_id (served_stop d nm) = pd_stop_id d" "\<not> st_skipped (served_stop d nm)"
  by (simp_all add: served_stop_def)

lemma skipped_entry_simps [simp]:
  "st_id (skipped_entry k) = sk_stop_id k" "st_skipped (skipped_entry k)"
  by (simp_all add: skipped_entry_def)

lemma pattern_walk_saving:
  "pattern_walk station names True note ds =
     (if names_known names ds then Inr (pattern_stops names ds, note)
      else Inl (TypeError ''resp.data.stops[stop.stop_id].stop_name''))"
  by (induction ds) (auto split: option.splits)

lemma pattern_walk_waiting:
  "pattern_walk station names False note ds =
     (case from_station station ds of
        [] \<Rightarrow> Inr ([], note)
      | d # rest \<Rightarrow> pattern_walk station names True (pd_departure_note d) (d # rest))"
  by (induction ds) (auto simp: from_station_def split: option.splits)

lemma from_station_hd:
  "from_station station ds = d # rest \<Longrightarrow> station_loose_eq (pd_stop_id d) station"
  unfolding from_station_def by (metis dropWhile_eq_Cons_conv)

lemma pattern_stops_served:
  "filter (\<lambda>s. \<not> st_skipped s) (pattern_stops names ds) = map (\<lambda>d. served_stop d (the (names (pd_stop_id d)))) ds"
  by (induction ds) (simp_all add: filter_empty_conv)

lemma fetchPattern_eq:
  "fetchPattern api station type run saveAll =
     (case api type run of
        None \<Rightarrow> Inl FetchFailed
      | Some resp \<Rightarrow>
          (let ds = (if saveAll then pr_departures resp else from_station station (pr_departures resp))
           in if names_known (pr_stops resp) ds
              then Inr \<lparr>res_stations = pattern_stops (pr_stops resp) ds,
                        res_note = (if saveAll then [] else case ds of [] \<Rightarrow> [] | d # _ \<Rightarrow> pd_departure_note d),
                        res_run = pr_runs resp run\<rparr>
              else Inl (TypeError ''resp.data.stops[stop.stop_id].stop_name'')))"
  by (auto simp: fetchPattern_def pattern_walk_saving pattern_walk_waiting Let_def
      split: option.splits list.splits)

lemma fetchPattern_Inr:
  assumes "fetchPattern api station type run saveAll = Inr res"
  obtains resp where "api type run = Some resp"
    and "names_known (pr_stops resp)
           (if saveAll then pr_departures resp else from_station station (pr_departures resp))"
    and "res_stations res = pattern_stops (pr_stops resp)
           (if saveAll then pr_departures resp else from_station station (pr_departures resp))"
    and "res_run res = pr_runs resp run"
  using assms by (auto simp: fetchPattern_eq Let_def split: option.splits if_splits)

lemma fetchPattern_Inr_home:
  "fetchPattern api station type run False = Inr res \<Longrightarrow>
   \<exists>resp. api type run = Some resp \<and>
     res_stations res = pattern_stops (pr_stops resp) (from_station station (pr_departures resp))"
  by (auto simp: fetchPattern_eq Let_def split: option.splits if_splits)

subsection \<open>Properties of fetchPattern\<close>

text \<open>
  C5: \<open>fetchPattern\<close> implements its declarative description: a failed request
  is \<open>FetchFailed\<close>; otherwise the result lists the pattern's stops from the home station
  on (all of them with \<open>saveAll\<close>), each served stop followed by the stops skipped after
  it, with the departure note of the home stop (empty with \<open>saveAll\<close>), and the run record
  of the response; a served stop missing from \<open>stops\<close> raises a TypeError.
\<close>

theorem fetchPattern_refines_spec:
  "fetchPattern api station type run saveAll =
     (case api type run of
        None \<Rightarrow> Inl FetchFailed
      | Some resp \<Rightarrow>
          (let ds = (if saveAll then pr_departures resp else from_station station (pr_departures resp))
           in if names_known (pr_stops resp) ds
              then Inr \<lparr>res_stations = pattern_stops (pr_stops resp) ds,
                        res_note = (if saveAll then [] else case ds of [] \<Rightarrow> [] | d # _ \<Rightarrow> pd_departure_note d),
                        res_run = pr_runs resp run\<rparr>
              else Inl (TypeError ''resp.data.stops[stop.stop_id].stop_name'')))"
  by (rule fetchPattern_eq)

text \<open>
  C33: the stop list of a departure begins with the home station itself,
  as a served stop: the loop sets \<open>startSaving\<close> at the home stop and falls through to
  the push (lines 122--129). The specification's invariant says the list begins at
  the next stop; the code and this theorem disagree with it.
\<close>

theorem fetchPattern_home_first:
  assumes "fetchPattern api station type run False = Inr res"
    and "res_stations res \<noteq> []"
  shows "station_loose_eq (st_id (hd (res_stations res))) station \<and> \<not> st_skipped (hd (res_stations res))"
proof -
  from fetchPattern_Inr_home [OF assms(1)] obtain resp where "api type run = Some resp"
    and sts: "res_stations res = pattern_stops (pr_stops resp) (from_station station (pr_departures resp))"
    by blast
  with assms(2) obtain d rest where ds: "from_station station (pr_departures resp) = d # rest"
    by (cases "from_station station (pr_departures resp)") auto
  then have "station_loose_eq (pd_stop_id d) station" by (rule from_station_hd)
  with sts ds show ?thesis by simp
qed

theorem fetchPattern_home_first_witness:
  "fetchPattern (\<lambda>_ _. Some example_pattern) (StationNumber 1) 0 ''r1'' False =
     Inr \<lparr>res_stations = [\<lparr>st_id = 1, st_name = ''Home'', st_skipped = False\<rparr>,
                          \<lparr>st_id = 2, st_name = ''Next'', st_skipped = False\<rparr>],
          res_note = [], res_run = None\<rparr>
   \<and> station_loose_eq 1 (StationNumber 1) \<and> \<not> st_skipped \<lparr>st_id = 1, st_name = ''Home'', st_skipped = False\<rparr>"
proof -
  have f: "fetchPattern (\<lambda>_ _. Some example_pattern) (StationNumber 1) 0 ''r1'' False =
     Inr \<lparr>res_stations = [\<lparr>st_id = 1, st_name = ''Home'', st_skipped = False\<rparr>,
                          \<lparr>st_id = 2, st_name = ''Next'', st_skipped = False\<rparr>],
          res_note = [], res_run = None\<rparr>"
    by (simp add: fetchPattern_def example_pattern_def served_stop_def strip_dash_def
        is_line_terminator_def)
  show ?thesis using f fetchPattern_home_first [OF f] by simp
qed

text \<open>
  The served entries of the stop list are exactly the pattern's stops
  from the home station on, in order; the skipped stops only ever sit between them.
\<close>

theorem fetchPattern_served_stops:
  assumes "fetchPattern api station type run False = Inr res"
    and "api type run = Some resp"
  shows "map st_id (filter (\<lambda>s. \<not> st_skipped s) (res_stations res))
           = map pd_stop_id (from_station station (pr_departures resp))"
proof -
  from fetchPattern_Inr_home [OF assms(1)] obtain resp' where "api type run = Some resp'"
    and sts: "res_stations res = pattern_stops (pr_stops resp') (from_station station (pr_departures resp'))"
    by auto
  with assms(2) show ?thesis by (simp add: pattern_stops_served comp_def)
qed

theorem fetchPattern_served_stops_witness:
  "fetchPattern (\<lambda>_ _. Some example_pattern) (StationNumber 1) 0 ''r1'' False =
     Inr \<lparr>res_stations = [\<lparr>st_id = 1, st_name = ''Home'', st_skipped = False\<rparr>,
                          \<lparr>st_id = 2, st_name = ''Next'', st_skipped = False\<rparr>],
          res_note = [], res_run = None\<rparr>
   \<and> map st_id (filter (\<lambda>s. \<not> st_skipped s)
        [\<lparr>st_id = 1, st_name = ''Home'', st_skipped = False\<rparr>,
         \<lparr>st_id = 2, st_name = ''Next'', st_skipped = False\<rparr>])
      = map pd_stop_id (from_station (StationNumber 1) (pr_departures example_pattern))"
proof -
  have f: "fetchPattern (\<lambda>_ _. Some example_pattern) (StationNumber 1) 0 ''r1'' False =
     Inr \<lparr>res_stations = [\<lparr>st_id = 1, st_name = ''Home'', st_skipped = False\<rparr>,
                          \<lparr>st_id = 2, st_name = ''Next'', st_skipped = False\<rparr>],
          res_note = [], res_run = None\<rparr>"
    by (simp add: fetchPattern_def example_pattern_def served_stop_def strip_dash_def
        is_line_terminator_def)
  show ?thesis using f fetchPattern_served_stops [OF f, of example_pattern] by simp
qed

end
