(* ===== verification/PID_Classifier.thy ===== *)
theory PID_Classifier
  imports PID_Pattern
begin

text \<open>
  The Pattern Classifier: lines 216--229 of \<open>fetchDepartureDetails\<close> in src/app.js,
  which walk the resolved stop list counting the runs of skipped stops
  (\<open>skippedLegs\<close>) and collecting the skipped stops (\<open>skippedStations\<close>), choose the
  subtitle from the two counts and the departure note, append the note, trim, and
  upper-case the first character. The loop is \<open>skip_scan\<close>, with the source's three
  loop variables as accumulators; \<open>skip_legs_ref\<close> counts the same runs without a loop.
\<close>

fun skip_scan :: "bool \<Rightarrow> nat \<Rightarrow> stop list \<Rightarrow> stop list \<Rightarrow> nat \<times> stop list" where
  "skip_scan skipped skippedLegs skippedStations [] = (skippedLegs, skippedStations)"
| "skip_scan skipped skippedLegs skippedStations (s # ss) =
     skip_scan (st_skipped s)
       (if \<not> skipped \<and> st_skipped s then Suc skippedLegs else skippedLegs)
       (if st_skipped s then skippedStations @ [s] else skippedStations) ss"

text \<open>The \<open>if\<close>/\<open>else if\<close> chain of lines 223--226.\<close>

definition subtitle_base :: "nat \<Rightarrow> stop list \<Rightarrow> string \<Rightarrow> string" where
  "subtitle_base skippedLegs skippedStations note =
     (if skippedLegs = 0 then ''Stops all''
      else if skippedLegs > 1 then ''Ltd express''
      else if length skippedStations = 1 then
        (if note = [] then ''Not stopping at '' @ shortenName (st_name (hd skippedStations))
         else ''Ltd express'')
      else if length skippedStations \<ge> 4 then ''Express'' else ''Ltd express'')"

text \<open>Lines 216--229 as a whole: the subtitle of a stop list with its note.\<close>

definition classify_subtitle :: "stop list \<Rightarrow> string \<Rightarrow> string" where
  "classify_subtitle stations note =
     (let (skippedLegs, skippedStations) = skip_scan False 0 [] stations
      in capitalize_first (js_trim (subtitle_base skippedLegs skippedStations note @ '' '' @ note)))"

subsection \<open>Reference description\<close>

text \<open>
  A leg of skipped stops starts at a skipped stop whose predecessor in the list is
  served, or at a skipped first stop: pair each stop's flag with its predecessor's.
\<close>

definition skip_legs_ref :: "stop list \<Rightarrow> nat" where
  "skip_legs_ref xs =
     length (filter (\<lambda>(p, c). \<not> p \<and> c) (zip (False # map st_skipped xs) (map st_skipped xs)))"

definition subtitle_ref :: "stop list \<Rightarrow> string \<Rightarrow> string" where
  "subtitle_ref xs note =
     js_trim (subtitle_base (skip_legs_ref xs) (filter st_skipped xs) note @ '' '' @ note)"

text \<open>Stops for the examples: id, name, skipped.\<close>

definition ex_stop :: "stop_id \<Rightarrow> string \<Rightarrow> bool \<Rightarrow> stop" where
  "ex_stop i n sk = \<lparr>st_id = i, st_name = n, st_skipped = sk\<rparr>"

subsection \<open>Lemmas\<close>

lemma skip_scan_eq:
  "skip_scan b l acc xs =
     (l + length (filter (\<lambda>(p, c). \<not> p \<and> c) (zip (b # map st_skipped xs) (map st_skipped xs))),
      acc @ filter st_skipped xs)"
  by (induction xs arbitrary: b l acc) auto

lemma skip_legs_ref_zero: "skip_legs_ref xs = 0 \<longleftrightarrow> (\<forall>s \<in> set xs. \<not> st_skipped s)"
  unfolding skip_legs_ref_def by (induction xs) auto

lemma skip_legs_ref_le: "skip_legs_ref xs \<le> length (filter st_skipped xs)"
proof -
  have "\<And>b. length (filter (\<lambda>(p, c). \<not> p \<and> c) (zip (b # map st_skipped xs) (map st_skipped xs)))
          \<le> length (filter st_skipped xs)"
    by (induction xs) (auto simp: le_SucI)
  then show ?thesis by (simp add: skip_legs_ref_def)
qed

lemma subtitle_base_cases:
  "subtitle_base l sk note \<in> {''Stops all'', ''Ltd express'', ''Express''}
   \<or> (\<exists>t. subtitle_base l sk note = ''Not stopping at '' @ t)"
  by (simp add: subtitle_base_def)

lemma subtitle_base_head:
  "\<exists>c s. subtitle_base l sk note = c # s \<and> c \<in> {CHR ''S'', CHR ''L'', CHR ''E'', CHR ''N''}"
  by (simp add: subtitle_base_def)

lemma capitalize_trim_subtitle_base:
  "capitalize_first (js_trim (subtitle_base l sk note @ t)) = js_trim (subtitle_base l sk note @ t)"
proof -
  obtain c s where cs: "subtitle_base l sk note = c # s" and c: "c \<in> {CHR ''S'', CHR ''L'', CHR ''E'', CHR ''N''}"
    using subtitle_base_head by blast
  from c have w: "\<not> js_white c" by (auto simp: js_white_def)
  from c have u: "c \<notin> set ''abcdefghijklmnopqrstuvwxyz''" by auto
  have "js_trim (subtitle_base l sk note @ t) = c # rev (dropWhile js_white (rev (s @ t)))"
    using w by (simp add: cs js_trim_Cons_nonwhite)
  then show ?thesis by (simp only: capitalize_first_nonlower [OF u])
qed

lemma classify_subtitle_eq_ref: "classify_subtitle xs note = subtitle_ref xs note"
  by (simp add: classify_subtitle_def subtitle_ref_def skip_scan_eq skip_legs_ref_def
      capitalize_trim_subtitle_base)

lemma skip_legs_ref_pos: "s \<in> set xs \<Longrightarrow> st_skipped s \<Longrightarrow> 0 < skip_legs_ref xs"
  using skip_legs_ref_zero [of xs] by auto

subsection \<open>Properties of the classifier\<close>

text \<open>
  C6: the loop of lines 216--222 counts the legs of skipped stops and collects the
  skipped stops as the reference description does, and the upper-casing of line 229 never
  changes a subtitle, since every subtitle starts with an upper-case letter: the
  subtitle is the trimmed base text followed by the note.
\<close>

theorem classify_subtitle_loop_equiv: "classify_subtitle xs note = subtitle_ref xs note"
  by (rule classify_subtitle_eq_ref)

text \<open>A stop list without skipped stops is labelled ``Stops all'', followed by the note.\<close>

theorem classify_stops_all:
  assumes "\<forall>s \<in> set xs. \<not> st_skipped s"
  shows "classify_subtitle xs note = js_trim (''Stops all '' @ note)"
  using assms
  by (simp add: classify_subtitle_eq_ref subtitle_ref_def subtitle_base_def skip_legs_ref_zero)

theorem classify_stops_all_witness:
  "\<not> st_skipped (ex_stop 1 ''A'' False)
   \<and> classify_subtitle [ex_stop 1 ''A'' False] [] = js_trim (''Stops all '' @ [])"
  using classify_stops_all [of "[ex_stop 1 ''A'' False]" "[]"] by (simp add: ex_stop_def)

text \<open>
  With exactly one skipped stop and no departure note, the subtitle is
  ``Not stopping at'' and the shortened name of that stop.
\<close>

theorem classify_not_stopping:
  assumes "filter st_skipped xs = [s]"
  shows "classify_subtitle xs [] = js_trim (''Not stopping at '' @ shortenName (st_name s))"
proof -
  have "s \<in> set xs" "st_skipped s" using assms by (metis filter_eq_ConsD in_set_conv_decomp)+
  then have "0 < skip_legs_ref xs" by (rule skip_legs_ref_pos)
  moreover have "skip_legs_ref xs \<le> 1" using skip_legs_ref_le [of xs] assms by simp
  ultimately have "skip_legs_ref xs = 1" by simp
  with assms have "classify_subtitle xs [] = js_trim ((''Not stopping at '' @ shortenName (st_name s)) @ [CHR '' ''])"
    by (simp add: classify_subtitle_eq_ref subtitle_ref_def subtitle_base_def)
  also have "\<dots> = js_trim (''Not stopping at '' @ shortenName (st_name s))"
    by (rule js_trim_snoc_white) (simp add: js_white_def)
  finally show ?thesis .
qed

theorem classify_not_stopping_witness:
  "filter st_skipped [ex_stop 1 ''A'' False, ex_stop 2 ''B'' True] = [ex_stop 2 ''B'' True]
   \<and> classify_subtitle [ex_stop 1 ''A'' False, ex_stop 2 ''B'' True] []
       = js_trim (''Not stopping at '' @ shortenName (st_name (ex_stop 2 ''B'' True)))"
proof -
  have h: "filter st_skipped [ex_stop 1 ''A'' False, ex_stop 2 ''B'' True] = [ex_stop 2 ''B'' True]"
    by (simp add: ex_stop_def)
  show ?thesis using h classify_not_stopping [OF h] by simp
qed

text \<open>
  A run that skips stops in more than one leg is labelled ``Ltd express'',
  whatever the number of skipped stops and the note.
\<close>

theorem classify_multi_leg:
  assumes "1 < skip_legs_ref xs"
  shows "classify_subtitle xs note = js_trim (''Ltd express '' @ note)"
  using assms by (simp add: classify_subtitle_eq_ref subtitle_ref_def subtitle_base_def)

theorem classify_multi_leg_witness:
  "1 < skip_legs_ref [ex_stop 1 ''A'' True, ex_stop 2 ''B'' False, ex_stop 3 ''C'' True]
   \<and> classify_subtitle [ex_stop 1 ''A'' True, ex_stop 2 ''B'' False, ex_stop 3 ''C'' True] []
       = js_trim (''Ltd express '' @ [])"
proof -
  have h: "1 < skip_legs_ref [ex_stop 1 ''A'' True, ex_stop 2 ''B'' False, ex_stop 3 ''C'' True]"
    by (simp add: skip_legs_ref_def ex_stop_def)
  show ?thesis using h classify_multi_leg [OF h, of "[]"] by simp
qed

text \<open>
  A run that skips two or more stops in one leg is labelled ``Express'' when it
  skips at least four and ``Ltd express'' otherwise.
\<close>

theorem classify_one_leg:
  assumes "skip_legs_ref xs = 1" and "2 \<le> length (filter st_skipped xs)"
  shows "classify_subtitle xs note =
           js_trim ((if 4 \<le> length (filter st_skipped xs) then ''Express'' else ''Ltd express'')
                    @ '' '' @ note)"
  using assms by (simp add: classify_subtitle_eq_ref subtitle_ref_def subtitle_base_def)

theorem classify_one_leg_witness:
  "skip_legs_ref [ex_stop 1 ''A'' True, ex_stop 2 ''B'' True] = 1
   \<and> 2 \<le> length (filter st_skipped [ex_stop 1 ''A'' True, ex_stop 2 ''B'' True])
   \<and> classify_subtitle [ex_stop 1 ''A'' True, ex_stop 2 ''B'' True] []
       = js_trim ((if 4 \<le> length (filter st_skipped [ex_stop 1 ''A'' True, ex_stop 2 ''B'' True])
                   then ''Express'' else ''Ltd express'') @ '' '' @ [])"
proof -
  have h1: "skip_legs_ref [ex_stop 1 ''A'' True, ex_stop 2 ''B'' True] = 1"
    by (simp add: skip_legs_ref_def ex_stop_def)
  have h2: "2 \<le> length (filter st_skipped [ex_stop 1 ''A'' True, ex_stop 2 ''B'' True])"
    by (simp add: ex_stop_def)
  show ?thesis using h1 h2 classify_one_leg [OF h1 h2, of "[]"] by simp
qed

text \<open>
  The classifier examples of the specification, computed: no skipped stop;
  one skipped stop with the shortened name; two skipped stops in one leg; five in one
  leg; two legs.
\<close>

theorem classify_spec_examples:
  "classify_subtitle [ex_stop 1 ''A'' False, ex_stop 2 ''B'' False] [] = ''Stops all''
   \<and> classify_subtitle [ex_stop 1 ''A'' False, ex_stop 2 ''North Richmond'' True, ex_stop 3 ''C'' False] []
       = ''Not stopping at N Richmond''
   \<and> classify_subtitle [ex_stop 1 ''A'' False, ex_stop 2 ''B'' True, ex_stop 3 ''C'' True, ex_stop 4 ''D'' False] []
       = ''Ltd express''
   \<and> classify_subtitle (ex_stop 1 ''A'' False # map (\<lambda>i. ex_stop i ''S'' True) [2, 3, 4, 5, 6]
                         @ [ex_stop 7 ''D'' False]) []
       = ''Express''
   \<and> classify_subtitle [ex_stop 1 ''A'' False, ex_stop 2 ''B'' True, ex_stop 3 ''C'' False, ex_stop 4 ''D'' True] []
       = ''Ltd express''"
  by (simp add: classify_subtitle_def subtitle_base_def ex_stop_def js_trim_def js_white_def
      capitalize_first_def js_upper_char_def shortenName_def is_line_terminator_def)

end
