(* ===== verification/PID_Routes.thy ===== *)
theory PID_Routes
  imports PID_Strings
begin

text \<open>
  The Route Colour Map of src/app.js: the module-level \<open>routeColours\<close> Map (line 155),
  filled from the \<open>routes\<close> object of every departures response (lines 245--251) with
  the service group of each route: \<open>vline\<close> for a route that is not a metropolitan
  train, \<open>special\<close> for a train route without a GTFS id, and otherwise the group of the
  static line table \<open>metroLines\<close> (line 10, read from metrolines.json) under the GTFS id
  without its first two characters, \<open>special\<close> when that lookup is falsy. The Map is
  never cleared: each refresh only overwrites the routes its response names.
\<close>

record route =
  route_type :: route_type
  route_gtfs_id :: "string option"   \<comment> \<open>\<open>None\<close> for null or absent\<close>

type_synonym line_table = "string \<Rightarrow> string option"
type_synonym route_colours = "route_id \<Rightarrow> string option"

text \<open>The group one route gets, lines 247--249; \<open>x || 'special'\<close> replaces \<open>undefined\<close> and \<open>''\<close>.\<close>

definition route_group :: "line_table \<Rightarrow> route \<Rightarrow> string" where
  "route_group metroLines r =
     (if route_type r \<noteq> 0 then ''vline''
      else (case route_gtfs_id r of
              None \<Rightarrow> ''special''
            | Some g \<Rightarrow>
                if g = [] then ''special''
                else (case metroLines (drop 2 g) of
                        None \<Rightarrow> ''special''
                      | Some c \<Rightarrow> if c = [] then ''special'' else c)))"

text \<open>
  The loop over \<open>Object.entries(resp.data.routes)\<close>: keys are strings, stored under
  \<open>parseInt(id)\<close>. A key that does not parse is stored under \<open>NaN\<close>, which no numeric
  \<open>route_id\<close> ever looks up; the model leaves the integer-keyed map unchanged there.
\<close>

fun build_route_colours :: "line_table \<Rightarrow> route_colours \<Rightarrow> (string \<times> route) list \<Rightarrow> route_colours" where
  "build_route_colours metroLines rc [] = rc"
| "build_route_colours metroLines rc ((k, r) # rs) =
     build_route_colours metroLines
       (case parseInt k of None \<Rightarrow> rc | Some i \<Rightarrow> rc(i \<mapsto> route_group metroLines r)) rs"

subsection \<open>Lemmas\<close>

lemma route_group_nonempty: "route_group metroLines r \<noteq> []"
  by (simp add: route_group_def split: option.splits)

text \<open>
  C32: after one pass over a response's routes, a route id maps to the group of
  the last route whose key parses to that id, and keeps the value it had before the
  refresh when no key of the response does: entries of routes that left the timetable
  are never removed.
\<close>

theorem build_route_colours_lookup:
  "build_route_colours metroLines rc rs i =
     (case find (\<lambda>(k, r). parseInt k = Some i) (rev rs) of
        None \<Rightarrow> rc i
      | Some (k, r) \<Rightarrow> Some (route_group metroLines r))"
proof (induction rs arbitrary: rc)
  case Nil
  then show ?case by simp
next
  case (Cons kr rs)
  obtain k r where kr: "kr = (k, r)" by fastforce
  show ?case
    using Cons.IH
    by (auto simp: kr find_append split: option.splits)
qed

end
