(* ===== verification/PID_Resolver.thy ===== *)
theory PID_Resolver
  imports PID_Classifier PID_Routes
begin

text \<open>
  The Destination Resolver, \<open>fetchDepartureDetails\<close> (src/app.js lines 157--236), with
  \<open>isCBDStation\<close> (139--148). The function mutates three things while it runs:
  \<open>dep.dest\<close>, \<open>dep.stations\<close> and \<open>result.run.final_stop_id\<close>; \<open>details_state\<close>
  holds them, and each block of the source is one function on it. Reading a property of
  \<open>undefined\<close> (a missing run record, an empty stop list, an index past the end) is a
  \<open>TypeError\<close>; a rejected request is \<open>FetchFailed\<close>. Both reject the promise.
\<close>

record departure =
  dep_type :: route_type
  dep_run :: run_ref
  dep_time :: millis
  dep_colour :: "string option"         \<comment> \<open>\<open>routeColours.get(dep.route_id)\<close>, maybe undefined\<close>
  dep_dest :: "string option"           \<comment> \<open>absent until enriched\<close>
  dep_stations :: "stop list option"
  dep_subtitle :: "string option"

record resolver_env =
  env_station :: station_value
  env_colours :: route_colours
  env_api :: pattern_api

record details_state =
  ds_dest :: string
  ds_stations :: "stop list"
  ds_final :: stop_id

definition isCBDStation :: "stop_id \<Rightarrow> bool" where
  "isCBDStation i \<longleftrightarrow> i \<in> set [1068, 1120, 1155, 1181, 1071]"

text \<open>
  \<open>cbdStation = isCBDStation(STATION)\<close> (line 148): \<open>includes\<close> compares with
  SameValueZero, so a \<open>STATION\<close> that is still the environment string is never found.
\<close>

fun cbdStation :: "station_value \<Rightarrow> bool" where
  "cbdStation (StationNumber n) = isCBDStation n"
| "cbdStation (StationString s) = False"

text \<open>Lines 162--163 (after the first fetch): the base stop list and destination.\<close>

definition details_start :: "pattern_result \<Rightarrow> run \<Rightarrow> details_state" where
  "details_start result r =
     \<lparr>ds_dest = run_destination_name r, ds_stations = res_stations result, ds_final = run_final_stop_id r\<rparr>"

text \<open>The guard of lines 166--170: the run ends at a CBD station seen from a CBD station
  or by a cross-city service.\<close>

definition extension_guard :: "station_value \<Rightarrow> string option \<Rightarrow> run \<Rightarrow> bool" where
  "extension_guard station colour r \<longleftrightarrow>
     isCBDStation (run_final_stop_id r) \<and> (cbdStation station \<or> colour = Some ''crosscity'')"

text \<open>The splice loop of lines 180--187: the stops after the first one with the given id.\<close>

fun splice_from :: "stop_id \<Rightarrow> stop list \<Rightarrow> stop list" where
  "splice_from f [] = []"
| "splice_from f (s # ss) = (if st_id s = f then ss else splice_from f ss)"

text \<open>
  Lines 178--190, after the distributor's pattern has been fetched in full: splice when
  the distributor's route has this departure's group, then take the new final stop from
  the last stop of the list.
\<close>

definition apply_distributor ::
  "route_colours \<Rightarrow> string option \<Rightarrow> details_state \<Rightarrow> pattern_result \<Rightarrow> details_state result" where
  "apply_distributor colours colour s result2 =
     (case res_run result2 of
        None \<Rightarrow> Inl (TypeError ''result2.run.route_id'')
      | Some r2 \<Rightarrow>
          (let sts = (if colours (run_route_id r2) = colour
                      then ds_stations s @ splice_from (ds_final s) (res_stations result2)
                      else ds_stations s)
           in case js_at sts (int (length sts) - 1) of
                None \<Rightarrow> Inl (TypeError ''dep.stations[dep.stations.length - 1].id'')
              | Some lst \<Rightarrow> Inr (s\<lparr>ds_stations := sts, ds_final := st_id lst\<rparr>)))"

text \<open>The backward scan for Flinders Street (1071), lines 198--202; \<open>-1\<close> when absent.\<close>

function scan_back :: "stop list \<Rightarrow> int \<Rightarrow> int" where
  "scan_back xs idx =
     (if 0 \<le> idx \<and> idx < int (length xs)
      then (if st_id (xs ! nat idx) = 1071 then idx else scan_back xs (idx - 1))
      else idx)"
  by pat_completeness auto
termination
  by (relation "measure (\<lambda>(xs, idx). nat (idx + 1))") auto

text \<open>
  JavaScript's \<open>stop == 1071\<close> for a stop record or \<open>undefined\<close> (line 210): a plain
  object converts to the string \<open>"[object Object]"\<close> and then to a number;
  \<open>undefined\<close> is loosely equal only to \<open>null\<close> and \<open>undefined\<close>.
\<close>

definition stop_loose_eq_num :: "stop option \<Rightarrow> int \<Rightarrow> bool" where
  "stop_loose_eq_num v n =
     (case v of None \<Rightarrow> False | Some _ \<Rightarrow> js_string_to_int ''[object Object]'' = Some n)"

text \<open>Lines 195--214: the City-Loop correction and the City-Loop label.\<close>

definition city_loop_correction ::
  "station_value \<Rightarrow> pattern_result \<Rightarrow> details_state \<Rightarrow> details_state result" where
  "city_loop_correction station result s =
     (if \<not> isCBDStation (ds_final s) then Inr s
      else
        res_bind
          (if \<not> cbdStation station \<and> ds_final s \<noteq> 1071 then
             (let idx = scan_back (ds_stations s) (int (length (ds_stations s)) - 1) in
              if 0 \<le> idx then
                (case js_at (res_stations result) idx of
                   None \<Rightarrow> Inl (TypeError ''result.stations[idx].name'')
                 | Some st \<Rightarrow> Inr (s\<lparr>ds_dest := st_name st,
                                    ds_stations := take (nat idx + 1) (ds_stations s)\<rparr>))
              else Inr s)
           else Inr s)
          (\<lambda>s'. let sts = ds_stations s' in
                if stop_loose_eq_num (js_at sts (int (length sts) - 1)) 1071 then
                  (case js_at sts (int (length sts) - 2) of
                     None \<Rightarrow> Inl (TypeError ''dep.stations[dep.stations.length - 2].id'')
                   | Some p \<Rightarrow> Inr (if st_id p \<noteq> 1181 then s'\<lparr>ds_dest := ''City Loop''\<rparr> else s'))
                else Inr s'))"

text \<open>Line 233: a destination longer than 14 characters is shortened.\<close>

definition shorten_dest :: "string \<Rightarrow> string" where
  "shorten_dest d = (if length d > 14 then shortenName d else d)"

text \<open>Lines 216--235: the subtitle, and the destination as displayed.\<close>

definition finish_details :: "departure \<Rightarrow> details_state \<Rightarrow> string \<Rightarrow> departure" where
  "finish_details dep s note =
     dep\<lparr>dep_dest := Some (shorten_dest (ds_dest s)),
         dep_stations := Some (ds_stations s),
         dep_subtitle := Some (classify_subtitle (ds_stations s) note)\<rparr>"

text \<open>The distributor branch of lines 171--191.\<close>

definition resolve_extension ::
  "resolver_env \<Rightarrow> departure \<Rightarrow> run \<Rightarrow> details_state \<Rightarrow> details_state result" where
  "resolve_extension env dep r s =
     (if extension_guard (env_station env) (dep_colour dep) r then
        (case run_distributor r of
           None \<Rightarrow> Inr s
         | Some dist \<Rightarrow>
             res_bind (fetchPattern (env_api env) (env_station env) (dep_type dep) (dist_run_ref dist) True)
               (apply_distributor (env_colours env) (dep_colour dep)
                  (s\<lparr>ds_dest := dist_destination_name dist\<rparr>)))
      else Inr s)"

definition fetchDepartureDetails :: "resolver_env \<Rightarrow> departure \<Rightarrow> departure result" where
  "fetchDepartureDetails env dep =
     res_bind (fetchPattern (env_api env) (env_station env) (dep_type dep) (dep_run dep) False)
       (\<lambda>result.
          case res_run result of
            None \<Rightarrow> Inl (TypeError ''result.run.destination_name'')
          | Some r \<Rightarrow>
              res_bind (resolve_extension env dep r (details_start result r))
                (\<lambda>s. res_bind (city_loop_correction (env_station env) result s)
                       (\<lambda>s'. Inr (finish_details dep s' (res_note result)))))"

subsection \<open>Example timetable\<close>

text \<open>
  A small timetable for the witnesses below. Stop 1000 is a suburban home station; the
  runs are keyed by their reference: 101 is the scenario of the specification (six
  stops to Flinders Street, no interchange); 102 a cross-city run to Flinders Street
  continued by run 902 to Werribee; 103 a cross-city run to Southern Cross continued by
  run 903 through Flinders Street to Parliament; 104 a run through Melbourne Central to
  Flinders Street; 105 a run from Southern Cross to Flinders Street continued by run
  905 to Sandringham; 106 a run through Richmond and Flinders Street to Southern Cross.
\<close>

definition ex_names :: "stop_id \<Rightarrow> string option" where
  "ex_names = map_of [(1000, ''Hawthorn''), (1001, ''Glenferrie''), (1002, ''Auburn''),
     (1003, ''Camberwell''), (1004, ''East Camberwell''), (1005, ''Canterbury''),
     (1071, ''Flinders Street''), (1181, ''Southern Cross''), (1120, ''Melbourne Central''),
     (1155, ''Parliament''), (1201, ''Newport''), (1202, ''Werribee''), (1300, ''Richmond''),
     (1400, ''Sandringham'')]"

definition ex_run :: "run_ref \<Rightarrow> route_id \<Rightarrow> stop_id \<Rightarrow> string \<Rightarrow> distributor option \<Rightarrow> run" where
  "ex_run ref rid final dest dist =
     \<lparr>run_run_ref = ref, run_route_id = rid, run_route_type = 0, run_final_stop_id = final,
      run_destination_name = dest, run_distributor = dist\<rparr>"

definition ex_pattern :: "stop_id list \<Rightarrow> run \<Rightarrow> pattern_response" where
  "ex_pattern ids r =
     \<lparr>pr_departures = map (\<lambda>i. \<lparr>pd_stop_id = i, pd_departure_note = [], pd_skipped_stops = []\<rparr>) ids,
      pr_stops = ex_names, pr_runs = [run_run_ref r \<mapsto> r]\<rparr>"

definition ex_dist :: "string \<Rightarrow> run_ref \<Rightarrow> distributor option" where
  "ex_dist name ref = Some \<lparr>dist_destination_name = name, dist_run_ref = ref\<rparr>"

definition ex_api :: pattern_api where
  "ex_api ty ref =
     (if ref = ''101'' then Some (ex_pattern [1000, 1001, 1002, 1003, 1004, 1005, 1071]
                                  (ex_run ''101'' 1 1071 ''Flinders Street'' None))
      else if ref = ''102'' then Some (ex_pattern [1000, 1181, 1071]
                                  (ex_run ''102'' 2 1071 ''Flinders Street'' (ex_dist ''Werribee'' ''902'')))
      else if ref = ''902'' then Some (ex_pattern [1071, 1181, 1201, 1202] (ex_run ''902'' 2 1202 ''Werribee'' None))
      else if ref = ''103'' then Some (ex_pattern [1000, 1181]
                                  (ex_run ''103'' 2 1181 ''Southern Cross'' (ex_dist ''Parliament'' ''903'')))
      else if ref = ''903'' then Some (ex_pattern [1181, 1071, 1155] (ex_run ''903'' 2 1155 ''Parliament'' None))
      else if ref = ''104'' then Some (ex_pattern [1000, 1120, 1071] (ex_run ''104'' 3 1071 ''Flinders Street'' None))
      else if ref = ''105'' then Some (ex_pattern [1181, 1071]
                                  (ex_run ''105'' 4 1071 ''Flinders Street'' (ex_dist ''Sandringham'' ''905'')))
      else if ref = ''905'' then Some (ex_pattern [1071, 1300, 1400] (ex_run ''905'' 4 1400 ''Sandringham'' None))
      else if ref = ''106'' then Some (ex_pattern [1000, 1300, 1071, 1181]
                                  (ex_run ''106'' 3 1181 ''Southern Cross'' None))
      else None)"

definition ex_env :: "station_value \<Rightarrow> resolver_env" where
  "ex_env st = \<lparr>env_station = st,
                env_colours = [1 \<mapsto> ''cityloop'', 2 \<mapsto> ''crosscity'', 3 \<mapsto> ''burnley'', 4 \<mapsto> ''sandringham''],
                env_api = ex_api\<rparr>"

definition ex_dep :: "run_ref \<Rightarrow> string \<Rightarrow> departure" where
  "ex_dep ref colour = \<lparr>dep_type = 0, dep_run = ref, dep_time = 600000, dep_colour = Some colour,
                       dep_dest = None, dep_stations = None, dep_subtitle = None\<rparr>"

definition ex_stops :: "stop_id list \<Rightarrow> stop list" where
  "ex_stops ids = map (\<lambda>i. \<lparr>st_id = i, st_name = the (ex_names i), st_skipped = False\<rparr>) ids"

definition ex_resolved :: "run_ref \<Rightarrow> string \<Rightarrow> string \<Rightarrow> stop_id list \<Rightarrow> departure" where
  "ex_resolved ref colour dest ids =
     (ex_dep ref colour)\<lparr>dep_dest := Some dest, dep_stations := Some (ex_stops ids),
                         dep_subtitle := Some ''Stops all''\<rparr>"

definition ex_result :: "stop_id list \<Rightarrow> run \<Rightarrow> pattern_result" where
  "ex_result ids r = \<lparr>res_stations = ex_stops ids, res_note = [], res_run = Some r\<rparr>"

subsection \<open>Lemmas\<close>

lemmas ex_eval = fetchDepartureDetails_def fetchPattern_def ex_api_def ex_pattern_def ex_run_def
  ex_env_def ex_dep_def ex_dist_def ex_names_def ex_stops_def served_stop_def strip_dash_def
  is_line_terminator_def resolve_extension_def extension_guard_def isCBDStation_def
  details_start_def city_loop_correction_def finish_details_def apply_distributor_def js_at_def
  Let_def shorten_dest_def

lemma stop_loose_eq_num_False [simp]: "stop_loose_eq_num v n = False"
  by (simp add: stop_loose_eq_num_def js_string_to_int_def js_trim_def js_white_def digit_value_def
      split: option.splits)

declare scan_back.simps [simp del]

lemma scan_back_spec:
  assumes "-1 \<le> k" "k < int (length xs)"
  shows "-1 \<le> scan_back xs k \<and> scan_back xs k \<le> k
         \<and> (0 \<le> scan_back xs k \<longrightarrow> st_id (xs ! nat (scan_back xs k)) = 1071)
         \<and> (\<forall>i. scan_back xs k < int i \<and> int i \<le> k \<longrightarrow> st_id (xs ! i) \<noteq> 1071)"
  using assms
proof (induction xs k rule: scan_back.induct)
  case (1 xs idx)
  show ?case
  proof (cases "0 \<le> idx")
    case False
    with "1.prems" have "idx = -1" by simp
    then show ?thesis by (simp add: scan_back.simps)
  next
    case True
    show ?thesis
    proof (cases "st_id (xs ! nat idx) = 1071")
      case True
      with \<open>0 \<le> idx\<close> "1.prems" show ?thesis by (simp add: scan_back.simps)
    next
      case False
      have eq: "scan_back xs idx = scan_back xs (idx - 1)"
        using \<open>0 \<le> idx\<close> "1.prems" False by (simp add: scan_back.simps)
      have IH: "-1 \<le> scan_back xs (idx - 1) \<and> scan_back xs (idx - 1) \<le> idx - 1
         \<and> (0 \<le> scan_back xs (idx - 1) \<longrightarrow> st_id (xs ! nat (scan_back xs (idx - 1))) = 1071)
         \<and> (\<forall>i. scan_back xs (idx - 1) < int i \<and> int i \<le> idx - 1 \<longrightarrow> st_id (xs ! i) \<noteq> 1071)"
        using "1.IH" \<open>0 \<le> idx\<close> "1.prems" False by simp
      show ?thesis
      proof (intro conjI allI impI)
        fix i assume i: "scan_back xs idx < int i \<and> int i \<le> idx"
        show "st_id (xs ! i) \<noteq> 1071"
        proof (cases "int i = idx")
          case True
          then have "nat idx = i" by simp
          with False show ?thesis by simp
        next
          case False
          with i IH eq show ?thesis by auto
        qed
      qed (use IH eq in auto)
    qed
  qed
qed

lemma scan_back_last:
  assumes "i < length xs" "st_id (xs ! i) = 1071"
    and "\<forall>j. i < j \<and> j < length xs \<longrightarrow> st_id (xs ! j) \<noteq> 1071"
  shows "scan_back xs (int (length xs) - 1) = int i"
proof -
  let ?r = "scan_back xs (int (length xs) - 1)"
  have spec: "-1 \<le> ?r \<and> ?r \<le> int (length xs) - 1
         \<and> (0 \<le> ?r \<longrightarrow> st_id (xs ! nat ?r) = 1071)
         \<and> (\<forall>j. ?r < int j \<and> int j \<le> int (length xs) - 1 \<longrightarrow> st_id (xs ! j) \<noteq> 1071)"
    using assms(1) by (intro scan_back_spec) auto
  have "\<not> ?r < int i" using spec assms(1,2) by force
  moreover have "\<not> int i < ?r"
  proof
    assume "int i < ?r"
    then have "i < nat ?r" "nat ?r < length xs" using spec by auto
    with assms(3) spec show False by auto
  qed
  ultimately show ?thesis by simp
qed

lemma scan_back_absent:
  assumes "\<forall>j < length xs. st_id (xs ! j) \<noteq> 1071"
  shows "scan_back xs (int (length xs) - 1) = -1"
proof -
  let ?r = "scan_back xs (int (length xs) - 1)"
  have spec: "-1 \<le> ?r \<and> ?r \<le> int (length xs) - 1 \<and> (0 \<le> ?r \<longrightarrow> st_id (xs ! nat ?r) = 1071)"
    using scan_back_spec [of "int (length xs) - 1" xs] by auto
  have "\<not> 0 \<le> ?r"
  proof
    assume h: "0 \<le> ?r"
    with spec have "nat ?r < length xs" by (simp add: nat_less_iff)
    with assms spec h show False by auto
  qed
  with spec show ?thesis by simp
qed

lemma city_loop_correction_eq:
  "city_loop_correction station result s =
     (if isCBDStation (ds_final s) \<and> \<not> cbdStation station \<and> ds_final s \<noteq> 1071 then
        (let idx = scan_back (ds_stations s) (int (length (ds_stations s)) - 1) in
         if 0 \<le> idx then
           (case js_at (res_stations result) idx of
              None \<Rightarrow> Inl (TypeError ''result.stations[idx].name'')
            | Some st \<Rightarrow> Inr (s\<lparr>ds_dest := st_name st, ds_stations := take (nat idx + 1) (ds_stations s)\<rparr>))
         else Inr s)
      else Inr s)"
  by (auto simp: city_loop_correction_def Let_def res_bind_def split: sum.splits option.splits)

lemma fetchDepartureDetails_Inr:
  "fetchDepartureDetails env dep = Inr d \<Longrightarrow>
   d = dep\<lparr>dep_dest := dep_dest d, dep_stations := dep_stations d, dep_subtitle := dep_subtitle d\<rparr>
   \<and> dep_dest d \<noteq> None \<and> dep_stations d \<noteq> None \<and> dep_subtitle d \<noteq> None"
  by (auto simp: fetchDepartureDetails_def finish_details_def pid_simps split: option.splits)

lemma resolve_extension_cong:
  "dep_type d1 = dep_type d2 \<Longrightarrow> dep_colour d1 = dep_colour d2 \<Longrightarrow>
   resolve_extension env d1 r s = resolve_extension env d2 r s"
  by (simp add: resolve_extension_def split: option.splits)

lemma fetchDepartureDetails_cong:
  assumes "dep_type d1 = dep_type d2" "dep_run d1 = dep_run d2" "dep_colour d1 = dep_colour d2"
  shows "fetchDepartureDetails env d1 =
           map_sum id (\<lambda>d. d1\<lparr>dep_dest := dep_dest d, dep_stations := dep_stations d,
                              dep_subtitle := dep_subtitle d\<rparr>) (fetchDepartureDetails env d2)"
  using assms resolve_extension_cong [OF assms(1,3)]
  by (simp add: fetchDepartureDetails_def finish_details_def res_bind_def
      split: sum.splits option.splits)

lemma fetchDepartureDetails_steps:
  assumes "fetchPattern (env_api env) (env_station env) (dep_type dep) (dep_run dep) False = Inr result"
    and "res_run result = Some r"
  shows "fetchDepartureDetails env dep =
           res_bind (resolve_extension env dep r (details_start result r))
             (\<lambda>s. res_bind (city_loop_correction (env_station env) result s)
                    (\<lambda>s'. Inr (finish_details dep s' (res_note result))))"
  using assms by (simp add: fetchDepartureDetails_def)

lemmas ex_eval_full = ex_eval ex_resolved_def shortenName_def classify_subtitle_def subtitle_base_def
  js_trim_def js_white_def capitalize_first_def js_upper_char_def

lemma ex_101: "fetchDepartureDetails (ex_env (StationNumber 1000)) (ex_dep ''101'' ''cityloop'')
   = Inr (ex_resolved ''101'' ''cityloop'' ''Flinders Street'' [1000, 1001, 1002, 1003, 1004, 1005, 1071])"
  by (simp add: ex_eval_full)

lemma ex_104: "fetchDepartureDetails (ex_env (StationNumber 1000)) (ex_dep ''104'' ''burnley'')
   = Inr (ex_resolved ''104'' ''burnley'' ''Flinders Street'' [1000, 1120, 1071])"
  by (simp add: ex_eval_full)

lemma js_at_last_eq: "xs \<noteq> [] \<Longrightarrow> i = int (length xs) - 1 \<Longrightarrow> js_at xs i = Some (last xs)"
  using js_at_last by blast

lemma apply_distributor_Inr:
  assumes "res_run result2 = Some r2"
    and "sts = (if colours (run_route_id r2) = colour
               then ds_stations s @ splice_from (ds_final s) (res_stations result2) else ds_stations s)"
    and "sts \<noteq> []"
  shows "apply_distributor colours colour s result2 = Inr (s\<lparr>ds_stations := sts, ds_final := st_id (last sts)\<rparr>)"
  using assms
  by (cases "colours (run_route_id r2) = colour")
     (simp_all add: apply_distributor_def js_at_last_eq Let_def del: js_at_nat)

lemma resolve_extension_splice:
  assumes "extension_guard st (dep_colour dep) r"
    and "run_distributor r = Some dist"
    and "fetchPattern api st (dep_type dep) (dist_run_ref dist) True = Inr result2"
    and "res_run result2 = Some r2"
    and "sts = (if colours (run_route_id r2) = dep_colour dep
               then res_stations result @ splice_from (run_final_stop_id r) (res_stations result2)
               else res_stations result)"
    and "sts \<noteq> []"
  shows "resolve_extension \<lparr>env_station = st, env_colours = colours, env_api = api\<rparr> dep r (details_start result r)
           = Inr ((details_start result r)\<lparr>ds_dest := dist_destination_name dist, ds_stations := sts,
                                            ds_final := st_id (last sts)\<rparr>)"
proof -
  let ?s1 = "(details_start result r)\<lparr>ds_dest := dist_destination_name dist\<rparr>"
  have "apply_distributor colours (dep_colour dep) ?s1 result2 =
          Inr (?s1\<lparr>ds_stations := sts, ds_final := st_id (last sts)\<rparr>)"
    by (rule apply_distributor_Inr [OF assms(4) _ assms(6)]) (simp add: assms(5) details_start_def)
  then show ?thesis
    using assms(1-3) by (simp add: resolve_extension_def)
qed

lemma apply_distributor_dest:
  "apply_distributor colours colour s result2 = Inr s' \<Longrightarrow> ds_dest s' = ds_dest s"
  by (auto simp: apply_distributor_def Let_def split: option.splits)

lemma resolve_extension_dest:
  assumes "resolve_extension env dep r s = Inr s'"
  shows "ds_dest s' = ds_dest s
         \<or> (\<exists>dist. run_distributor r = Some dist \<and> ds_dest s' = dist_destination_name dist)"
  using assms apply_distributor_dest
  by (fastforce simp: resolve_extension_def res_bind_def split: if_splits option.splits sum.splits)

lemma city_loop_correction_dest:
  assumes "city_loop_correction station result s = Inr s'"
  shows "ds_dest s' = ds_dest s \<or> ds_dest s' \<in> st_name ` set (res_stations result)"
  using assms js_at_in_set
  by (fastforce simp: city_loop_correction_eq Let_def split: if_splits option.splits)

subsection \<open>Properties of the resolver\<close>

text \<open>
  C4: enrichment writes the three display fields together and nothing else: a
  resolved departure keeps its type, run, time and group, and has its destination, stop
  list and subtitle all set (the specification's atomic-enrichment invariant, for the
  value the promise resolves to).
\<close>

theorem fetchDepartureDetails_enriches:
  assumes "fetchDepartureDetails env dep = Inr d"
  shows "dep_type d = dep_type dep \<and> dep_run d = dep_run dep \<and> dep_time d = dep_time dep
         \<and> dep_colour d = dep_colour dep
         \<and> dep_dest d \<noteq> None \<and> dep_stations d \<noteq> None \<and> dep_subtitle d \<noteq> None"
proof -
  from fetchDepartureDetails_Inr [OF assms]
  have d: "d = dep\<lparr>dep_dest := dep_dest d, dep_stations := dep_stations d, dep_subtitle := dep_subtitle d\<rparr>"
    and set: "dep_dest d \<noteq> None" "dep_stations d \<noteq> None" "dep_subtitle d \<noteq> None"
    by blast+
  obtain a b c where "d = dep\<lparr>dep_dest := a, dep_stations := b, dep_subtitle := c\<rparr>"
    using d by blast
  then have "dep_type d = dep_type dep \<and> dep_run d = dep_run dep \<and> dep_time d = dep_time dep
        \<and> dep_colour d = dep_colour dep"
    by simp
  with set show ?thesis by blast
qed

theorem fetchDepartureDetails_enriches_witness:
  "dep_time (ex_resolved ''101'' ''cityloop'' ''Flinders Street'' [1000, 1001, 1002, 1003, 1004, 1005, 1071])
     = dep_time (ex_dep ''101'' ''cityloop'')
   \<and> dep_subtitle (ex_resolved ''101'' ''cityloop'' ''Flinders Street'' [1000, 1001, 1002, 1003, 1004, 1005, 1071])
     \<noteq> None"
  using fetchDepartureDetails_enriches [OF ex_101] by simp

text \<open>
  C21: resolution is idempotent: resolving an already resolved departure again,
  against the same upstream data, gives it back unchanged, since the function recomputes
  every field it writes from the run and the group alone.
\<close>

theorem fetchDepartureDetails_idem:
  assumes "fetchDepartureDetails env dep = Inr d"
  shows "fetchDepartureDetails env d = Inr d"
proof -
  from fetchDepartureDetails_Inr [OF assms]
  have d: "d = dep\<lparr>dep_dest := dep_dest d, dep_stations := dep_stations d, dep_subtitle := dep_subtitle d\<rparr>"
    by blast
  have "fetchDepartureDetails env d =
          map_sum id (\<lambda>x. d\<lparr>dep_dest := dep_dest x, dep_stations := dep_stations x,
                             dep_subtitle := dep_subtitle x\<rparr>) (fetchDepartureDetails env dep)"
    by (rule fetchDepartureDetails_cong) (subst d, simp)+
  with assms d show ?thesis by simp
qed

theorem fetchDepartureDetails_idem_witness:
  "fetchDepartureDetails (ex_env (StationNumber 1000))
     (ex_resolved ''101'' ''cityloop'' ''Flinders Street'' [1000, 1001, 1002, 1003, 1004, 1005, 1071])
   = Inr (ex_resolved ''101'' ''cityloop'' ''Flinders Street'' [1000, 1001, 1002, 1003, 1004, 1005, 1071])"
  by (rule fetchDepartureDetails_idem [OF ex_101])

text \<open>
  C1: a run that does not end at one of the five CBD stations is shown with its own
  destination (shortened when longer than 14 characters), the fetched stop list and the
  subtitle of that list.
\<close>

theorem fetchDepartureDetails_base:
  assumes "fetchPattern (env_api env) (env_station env) (dep_type dep) (dep_run dep) False = Inr result"
    and "res_run result = Some r"
    and "\<not> isCBDStation (run_final_stop_id r)"
  shows "fetchDepartureDetails env dep =
           Inr (dep\<lparr>dep_dest := Some (shorten_dest (run_destination_name r)),
                    dep_stations := Some (res_stations result),
                    dep_subtitle := Some (classify_subtitle (res_stations result) (res_note result))\<rparr>)"
  using assms
  by (simp add: fetchDepartureDetails_steps resolve_extension_def extension_guard_def
      city_loop_correction_eq details_start_def finish_details_def)

theorem fetchDepartureDetails_base_witness:
  "fetchDepartureDetails (ex_env (StationNumber 1071)) (ex_dep ''905'' ''sandringham'') =
     Inr ((ex_dep ''905'' ''sandringham'')\<lparr>dep_dest := Some (shorten_dest ''Sandringham''),
            dep_stations := Some (ex_stops [1071, 1300, 1400]),
            dep_subtitle := Some (classify_subtitle (ex_stops [1071, 1300, 1400]) [])\<rparr>)"
proof -
  let ?r = "ex_run ''905'' 4 1400 ''Sandringham'' None"
  have h1: "fetchPattern (env_api (ex_env (StationNumber 1071))) (env_station (ex_env (StationNumber 1071)))
              (dep_type (ex_dep ''905'' ''sandringham'')) (dep_run (ex_dep ''905'' ''sandringham'')) False
            = Inr (ex_result [1071, 1300, 1400] ?r)"
    by (simp add: ex_eval ex_result_def)
  have h2: "res_run (ex_result [1071, 1300, 1400] ?r) = Some ?r" by (simp add: ex_result_def)
  have h3: "\<not> isCBDStation (run_final_stop_id ?r)" by (simp add: ex_run_def isCBDStation_def)
  show ?thesis using fetchDepartureDetails_base [OF h1 h2 h3] by (simp add: ex_result_def ex_run_def)
qed

text \<open>
  C2: when a run ends at a CBD station and is seen from a CBD station or belongs to
  the cross-city group, and the run carries a distributor, the destination becomes the
  distributor's; the distributor's stops after this run's terminus are appended when
  the distributor's route has the same group; provided the new last stop needs no
  City-Loop correction, that is the result.
\<close>

theorem fetchDepartureDetails_extension:
  assumes "fetchPattern api st (dep_type dep) (dep_run dep) False = Inr result"
    and "res_run result = Some r"
    and "extension_guard st (dep_colour dep) r"
    and "run_distributor r = Some dist"
    and "fetchPattern api st (dep_type dep) (dist_run_ref dist) True = Inr result2"
    and "res_run result2 = Some r2"
    and sts: "sts = (if colours (run_route_id r2) = dep_colour dep
                    then res_stations result @ splice_from (run_final_stop_id r) (res_stations result2)
                    else res_stations result)"
    and "sts \<noteq> []"
    and "\<not> (isCBDStation (st_id (last sts)) \<and> \<not> cbdStation st \<and> st_id (last sts) \<noteq> 1071)"
  shows "fetchDepartureDetails \<lparr>env_station = st, env_colours = colours, env_api = api\<rparr> dep =
           Inr (dep\<lparr>dep_dest := Some (shorten_dest (dist_destination_name dist)),
                    dep_stations := Some sts,
                    dep_subtitle := Some (classify_subtitle sts (res_note result))\<rparr>)"
proof -
  have re: "resolve_extension \<lparr>env_station = st, env_colours = colours, env_api = api\<rparr> dep r (details_start result r) =
          Inr ((details_start result r)\<lparr>ds_dest := dist_destination_name dist, ds_stations := sts,
                                          ds_final := st_id (last sts)\<rparr>)"
    by (rule resolve_extension_splice [where result = result and colours = colours, OF assms(3-8)])
  show ?thesis
    using assms(1,2,9) re by (auto simp: fetchDepartureDetails_steps city_loop_correction_eq
        finish_details_def details_start_def)
qed

theorem fetchDepartureDetails_extension_witness:
  "fetchDepartureDetails (ex_env (StationNumber 1000)) (ex_dep ''102'' ''crosscity'') =
     Inr ((ex_dep ''102'' ''crosscity'')\<lparr>dep_dest := Some (shorten_dest ''Werribee''),
            dep_stations := Some (ex_stops [1000, 1181, 1071, 1181, 1201, 1202]),
            dep_subtitle := Some (classify_subtitle (ex_stops [1000, 1181, 1071, 1181, 1201, 1202]) [])\<rparr>)"
proof -
  let ?r = "ex_run ''102'' 2 1071 ''Flinders Street'' (ex_dist ''Werribee'' ''902'')"
  let ?r2 = "ex_run ''902'' 2 1202 ''Werribee'' None"
  let ?d = "\<lparr>dist_destination_name = ''Werribee'', dist_run_ref = ''902''\<rparr>"
  let ?sts = "ex_stops [1000, 1181, 1071, 1181, 1201, 1202]"
  let ?colours = "env_colours (ex_env (StationNumber 1000))"
  have h1: "fetchPattern ex_api (StationNumber 1000) (dep_type (ex_dep ''102'' ''crosscity''))
              (dep_run (ex_dep ''102'' ''crosscity'')) False = Inr (ex_result [1000, 1181, 1071] ?r)"
    by (simp add: ex_eval ex_result_def)
  have h2: "res_run (ex_result [1000, 1181, 1071] ?r) = Some ?r" by (simp add: ex_result_def)
  have h3: "extension_guard (StationNumber 1000) (dep_colour (ex_dep ''102'' ''crosscity'')) ?r"
    by (simp add: ex_eval)
  have h4: "run_distributor ?r = Some ?d" by (simp add: ex_run_def ex_dist_def)
  have h5: "fetchPattern ex_api (StationNumber 1000) (dep_type (ex_dep ''102'' ''crosscity''))
              (dist_run_ref ?d) True = Inr (ex_result [1071, 1181, 1201, 1202] ?r2)"
    by (simp add: ex_eval ex_result_def)
  have h6: "res_run (ex_result [1071, 1181, 1201, 1202] ?r2) = Some ?r2" by (simp add: ex_result_def)
  have h7: "?sts = (if ?colours (run_route_id ?r2) = dep_colour (ex_dep ''102'' ''crosscity'')
                    then res_stations (ex_result [1000, 1181, 1071] ?r) @
                         splice_from (run_final_stop_id ?r) (res_stations (ex_result [1071, 1181, 1201, 1202] ?r2))
                    else res_stations (ex_result [1000, 1181, 1071] ?r))"
    by (simp add: ex_eval ex_result_def)
  have h8: "?sts \<noteq> []" by (simp add: ex_stops_def)
  have h9: "\<not> (isCBDStation (st_id (last ?sts)) \<and> \<not> cbdStation (StationNumber 1000) \<and> st_id (last ?sts) \<noteq> 1071)"
    by (simp add: ex_stops_def isCBDStation_def)
  have "\<lparr>env_station = StationNumber 1000, env_colours = ?colours, env_api = ex_api\<rparr> = ex_env (StationNumber 1000)"
    by (simp add: ex_env_def)
  then show ?thesis
    using fetchDepartureDetails_extension [where colours = ?colours, OF h1 h2 h3 h4 h5 h6 h7 h8 h9]
    by (simp add: ex_result_def)
qed

text \<open>
  C3: seen from outside the CBD, a run that is not extended (the guard of lines
  166--170 fails: it is not a cross-city service) and ends at a CBD station other than
  Flinders Street is shown as terminating at the last Flinders Street stop of its list:
  the list is cut after it and the destination becomes its name.
\<close>

theorem fetchDepartureDetails_truncate:
  assumes "fetchPattern (env_api env) (env_station env) (dep_type dep) (dep_run dep) False = Inr result"
    and "res_run result = Some r"
    and "\<not> extension_guard (env_station env) (dep_colour dep) r"
    and "isCBDStation (run_final_stop_id r)" and "\<not> cbdStation (env_station env)"
    and "run_final_stop_id r \<noteq> 1071"
    and "i < length (res_stations result)" and "st_id (res_stations result ! i) = 1071"
    and "\<forall>j. i < j \<and> j < length (res_stations result) \<longrightarrow> st_id (res_stations result ! j) \<noteq> 1071"
  shows "fetchDepartureDetails env dep =
           Inr (dep\<lparr>dep_dest := Some (shorten_dest (st_name (res_stations result ! i))),
                    dep_stations := Some (take (Suc i) (res_stations result)),
                    dep_subtitle := Some (classify_subtitle (take (Suc i) (res_stations result)) (res_note result))\<rparr>)"
proof -
  have idx: "scan_back (res_stations result) (int (length (res_stations result)) - 1) = int i"
    using assms(7-9) by (rule scan_back_last)
  show ?thesis
    using assms idx
    by (simp add: fetchDepartureDetails_steps resolve_extension_def city_loop_correction_eq
        details_start_def finish_details_def)
qed

theorem fetchDepartureDetails_truncate_witness:
  "fetchDepartureDetails (ex_env (StationNumber 1000)) (ex_dep ''106'' ''burnley'') =
     Inr ((ex_dep ''106'' ''burnley'')\<lparr>dep_dest := Some (shorten_dest ''Flinders Street''),
            dep_stations := Some (ex_stops [1000, 1300, 1071]),
            dep_subtitle := Some (classify_subtitle (ex_stops [1000, 1300, 1071]) [])\<rparr>)"
proof -
  let ?r = "ex_run ''106'' 3 1181 ''Southern Cross'' None"
  let ?res = "ex_result [1000, 1300, 1071, 1181] ?r"
  let ?env = "ex_env (StationNumber 1000)"
  let ?dep = "ex_dep ''106'' ''burnley''"
  have h1: "fetchPattern (env_api ?env) (env_station ?env) (dep_type ?dep) (dep_run ?dep) False = Inr ?res"
    by (simp add: ex_eval ex_result_def)
  have h2: "res_run ?res = Some ?r" by (simp add: ex_result_def)
  have h3: "\<not> extension_guard (env_station ?env) (dep_colour ?dep) ?r" by (simp add: ex_eval)
  have h4: "isCBDStation (run_final_stop_id ?r)" by (simp add: ex_run_def isCBDStation_def)
  have h5: "\<not> cbdStation (env_station ?env)" by (simp add: ex_env_def isCBDStation_def)
  have h6: "run_final_stop_id ?r \<noteq> 1071" by (simp add: ex_run_def)
  have h7: "2 < length (res_stations ?res)" by (simp add: ex_result_def ex_stops_def)
  have h8: "st_id (res_stations ?res ! 2) = 1071" by (simp add: ex_result_def ex_stops_def)
  have h9: "\<forall>j. 2 < j \<and> j < length (res_stations ?res) \<longrightarrow> st_id (res_stations ?res ! j) \<noteq> 1071"
  proof (intro allI impI)
    fix j assume "2 < j \<and> j < length (res_stations ?res)"
    then have "j = 3" by (simp add: ex_result_def ex_stops_def)
    then show "st_id (res_stations ?res ! j) \<noteq> 1071" by (simp add: ex_result_def ex_stops_def)
  qed
  have t: "take (Suc 2) (ex_stops [1000, 1300, 1071, 1181]) = ex_stops [1000, 1300, 1071]"
    by (simp add: ex_stops_def)
  show ?thesis using fetchDepartureDetails_truncate [OF h1 h2 h3 h4 h5 h6 h7 h8 h9] t
    by (simp add: ex_result_def ex_stops_def ex_names_def)
qed

text \<open>
  C22: the name of the truncated destination is read at line 205 from
  \<open>result.stations\<close>, the run's own stops, at the index of the last Flinders Street
  stop of \<open>dep.stations\<close>, which may have been extended by the distributor's stops. For
  an extended run seen from outside the CBD whose new last stop is a CBD station other
  than Flinders Street, the read gives that stop's name when Flinders Street lies within
  the run's own stops, and is past the end of \<open>result.stations\<close> otherwise: the
  enrichment then rejects with a TypeError, whatever the stops are.
\<close>

theorem fetchDepartureDetails_stale_name:
  assumes "fetchPattern api st (dep_type dep) (dep_run dep) False = Inr result"
    and "res_run result = Some r"
    and "extension_guard st (dep_colour dep) r"
    and "run_distributor r = Some dist"
    and "fetchPattern api st (dep_type dep) (dist_run_ref dist) True = Inr result2"
    and "res_run result2 = Some r2"
    and sts: "sts = (if colours (run_route_id r2) = dep_colour dep
                    then res_stations result @ splice_from (run_final_stop_id r) (res_stations result2)
                    else res_stations result)"
    and "sts \<noteq> []"
    and "isCBDStation (st_id (last sts))" and "\<not> cbdStation st" and "st_id (last sts) \<noteq> 1071"
    and "i < length sts" and "st_id (sts ! i) = 1071"
    and "\<forall>j. i < j \<and> j < length sts \<longrightarrow> st_id (sts ! j) \<noteq> 1071"
  shows "fetchDepartureDetails \<lparr>env_station = st, env_colours = colours, env_api = api\<rparr> dep =
           (if i < length (res_stations result)
            then Inr (dep\<lparr>dep_dest := Some (shorten_dest (st_name (sts ! i))),
                          dep_stations := Some (take (Suc i) sts),
                          dep_subtitle := Some (classify_subtitle (take (Suc i) sts) (res_note result))\<rparr>)
            else Inl (TypeError ''result.stations[idx].name''))"
proof -
  have re: "resolve_extension \<lparr>env_station = st, env_colours = colours, env_api = api\<rparr> dep r (details_start result r) =
          Inr ((details_start result r)\<lparr>ds_dest := dist_destination_name dist, ds_stations := sts,
                                          ds_final := st_id (last sts)\<rparr>)"
    by (rule resolve_extension_splice [where result = result and colours = colours, OF assms(3-8)])
  have idx: "scan_back sts (int (length sts) - 1) = int i"
    using assms(12-14) by (rule scan_back_last)
  have pre: "sts ! i = res_stations result ! i" if "i < length (res_stations result)"
    using that sts by (simp add: nth_append)
  show ?thesis
    using assms(1,2,9-11) re idx pre
    by (simp add: fetchDepartureDetails_steps city_loop_correction_eq finish_details_def details_start_def)
qed

theorem fetchDepartureDetails_stale_name_witness:
  "fetchDepartureDetails (ex_env (StationNumber 1000)) (ex_dep ''103'' ''crosscity'')
     = Inl (TypeError ''result.stations[idx].name'')"
proof -
  let ?r = "ex_run ''103'' 2 1181 ''Southern Cross'' (ex_dist ''Parliament'' ''903'')"
  let ?r2 = "ex_run ''903'' 2 1155 ''Parliament'' None"
  let ?d = "\<lparr>dist_destination_name = ''Parliament'', dist_run_ref = ''903''\<rparr>"
  let ?sts = "ex_stops [1000, 1181, 1071, 1155]"
  let ?colours = "env_colours (ex_env (StationNumber 1000))"
  let ?dep = "ex_dep ''103'' ''crosscity''"
  have h1: "fetchPattern ex_api (StationNumber 1000) (dep_type ?dep) (dep_run ?dep) False
              = Inr (ex_result [1000, 1181] ?r)"
    by (simp add: ex_eval ex_result_def)
  have h2: "res_run (ex_result [1000, 1181] ?r) = Some ?r" by (simp add: ex_result_def)
  have h3: "extension_guard (StationNumber 1000) (dep_colour ?dep) ?r" by (simp add: ex_eval)
  have h4: "run_distributor ?r = Some ?d" by (simp add: ex_run_def ex_dist_def)
  have h5: "fetchPattern ex_api (StationNumber 1000) (dep_type ?dep) (dist_run_ref ?d) True
              = Inr (ex_result [1181, 1071, 1155] ?r2)"
    by (simp add: ex_eval ex_result_def)
  have h6: "res_run (ex_result [1181, 1071, 1155] ?r2) = Some ?r2" by (simp add: ex_result_def)
  have h7: "?sts = (if ?colours (run_route_id ?r2) = dep_colour ?dep
                    then res_stations (ex_result [1000, 1181] ?r) @
                         splice_from (run_final_stop_id ?r) (res_stations (ex_result [1181, 1071, 1155] ?r2))
                    else res_stations (ex_result [1000, 1181] ?r))"
    by (simp add: ex_eval ex_result_def)
  have h8: "?sts \<noteq> []" by (simp add: ex_stops_def)
  have h9: "isCBDStation (st_id (last ?sts))" by (simp add: ex_stops_def isCBDStation_def)
  have h10: "\<not> cbdStation (StationNumber 1000)" by (simp add: isCBDStation_def)
  have h11: "st_id (last ?sts) \<noteq> 1071" by (simp add: ex_stops_def)
  have h12: "2 < length ?sts" by (simp add: ex_stops_def)
  have h13: "st_id (?sts ! 2) = 1071" by (simp add: ex_stops_def)
  have h14: "\<forall>j. 2 < j \<and> j < length ?sts \<longrightarrow> st_id (?sts ! j) \<noteq> 1071"
  proof (intro allI impI)
    fix j assume "2 < j \<and> j < length ?sts"
    then have "j = 3" by (simp add: ex_stops_def)
    then show "st_id (?sts ! j) \<noteq> 1071" by (simp add: ex_stops_def)
  qed
  have "\<lparr>env_station = StationNumber 1000, env_colours = ?colours, env_api = ex_api\<rparr> = ex_env (StationNumber 1000)"
    by (simp add: ex_env_def)
  then show ?thesis
    using fetchDepartureDetails_stale_name [where colours = ?colours,
        OF h1 h2 h3 h4 h5 h6 h7 h8 h9 h10 h11 h12 h13 h14]
    by (simp add: ex_result_def ex_stops_def)
qed

text \<open>
  C23: the destination of a resolved departure is always a name the
  timetable supplied, shortened for display: the run's own destination, its distributor's,
  or the name of a stop of its stopping pattern. In particular the label
  \<open>'City Loop'\<close> of lines 210--213 is never written: its test compares the last stop
  record, not its id, with 1071, which JavaScript's loose equality never satisfies.
\<close>

theorem fetchDepartureDetails_dest_source:
  assumes "fetchDepartureDetails env dep = Inr d"
  shows "\<exists>result r x.
           fetchPattern (env_api env) (env_station env) (dep_type dep) (dep_run dep) False = Inr result
           \<and> res_run result = Some r \<and> dep_dest d = Some (shorten_dest x)
           \<and> (x = run_destination_name r
              \<or> (\<exists>dist. run_distributor r = Some dist \<and> x = dist_destination_name dist)
              \<or> x \<in> st_name ` set (res_stations result))"
proof -
  obtain result where f: "fetchPattern (env_api env) (env_station env) (dep_type dep) (dep_run dep) False
                            = Inr result"
    using assms by (cases "fetchPattern (env_api env) (env_station env) (dep_type dep) (dep_run dep) False")
                   (simp_all add: fetchDepartureDetails_def)
  obtain r where r: "res_run result = Some r"
    using assms f by (cases "res_run result") (simp_all add: fetchDepartureDetails_def)
  obtain s where s: "resolve_extension env dep r (details_start result r) = Inr s"
    using assms f r by (cases "resolve_extension env dep r (details_start result r)")
                       (simp_all add: fetchDepartureDetails_steps)
  obtain s' where s': "city_loop_correction (env_station env) result s = Inr s'"
    and d: "d = finish_details dep s' (res_note result)"
    using assms f r s by (cases "city_loop_correction (env_station env) result s")
                         (simp_all add: fetchDepartureDetails_steps)
  have "ds_dest s' = run_destination_name r
        \<or> (\<exists>dist. run_distributor r = Some dist \<and> ds_dest s' = dist_destination_name dist)
        \<or> ds_dest s' \<in> st_name ` set (res_stations result)"
    using city_loop_correction_dest [OF s'] resolve_extension_dest [OF s] by (auto simp: details_start_def)
  then show ?thesis
    using f r d by (auto simp: finish_details_def)
qed

theorem fetchDepartureDetails_dest_source_witness:
  "\<exists>result r x.
     fetchPattern ex_api (StationNumber 1000) 0 ''104'' False = Inr result
     \<and> res_run result = Some r \<and> Some ''Flinders Street'' = Some (shorten_dest x)
     \<and> (x = run_destination_name r
        \<or> (\<exists>dist. run_distributor r = Some dist \<and> x = dist_destination_name dist)
        \<or> x \<in> st_name ` set (res_stations result))"
  using fetchDepartureDetails_dest_source [OF ex_104]
  by (simp add: ex_resolved_def ex_env_def ex_dep_def)

end
