(* ===== verification/PID_Board.thy ===== *)
theory PID_Board
  imports PID_Resolver "HOL-Library.AList" Complex_Main
begin

text \<open>
  The Board State Manager and the Query Surface of src/app.js with enrichment completing
  within the step that starts it: the full refresh \<open>fetchDepartures\<close> (lines 238--288),
  the minute tick (lines 295--347) and the three read endpoints (lines 56--111). The
  board, the module-level \<open>departures\<close> object, is an association list from platform
  to queue in key-insertion order. Enrichment mutates the departure object in place;
  \<open>fetchDepartureDetails_obj\<close> is that object once the promise settles, whether it
  resolved or rejected. The interleavings of slow enrichments with later ticks are the
  subject of PID_Live.
\<close>

subsection \<open>The departure object once enrichment settles\<close>

text \<open>
  \<open>fetchDepartureDetails\<close> writes \<open>dep.stations\<close> and \<open>dep.dest\<close> (lines 162--163,
  174, 184, 205--206) before it can throw, and \<open>dep.subtitle\<close> only at the end. When it
  rejects, the object keeps what was written: nothing if the first fetch failed, the
  stop list if the run record is missing (line 163), the stop list and the
  distributor's destination if the extension failed (lines 174--190; its splice writes
  only when the result is non-empty, and it can then no longer fail), and the extended
  stop list and destination if line 205 threw.
\<close>

definition details_write :: "departure \<Rightarrow> details_state \<Rightarrow> departure" where
  "details_write dep s = dep\<lparr>dep_dest := Some (ds_dest s), dep_stations := Some (ds_stations s)\<rparr>"

definition fetchDepartureDetails_obj :: "resolver_env \<Rightarrow> departure \<Rightarrow> departure" where
  "fetchDepartureDetails_obj env dep =
     (case fetchPattern (env_api env) (env_station env) (dep_type dep) (dep_run dep) False of
        Inl _ \<Rightarrow> dep
      | Inr result \<Rightarrow>
          (case res_run result of
             None \<Rightarrow> dep\<lparr>dep_stations := Some (res_stations result)\<rparr>
           | Some r \<Rightarrow>
               (case resolve_extension env dep r (details_start result r) of
                  Inl _ \<Rightarrow>
                    details_write dep ((details_start result r)\<lparr>ds_dest :=
                      (case run_distributor r of
                         None \<Rightarrow> run_destination_name r
                       | Some dd \<Rightarrow> dist_destination_name dd)\<rparr>)
                | Inr s \<Rightarrow>
                    (case city_loop_correction (env_station env) result s of
                       Inl _ \<Rightarrow> details_write dep s
                     | Inr s' \<Rightarrow> finish_details dep s' (res_note result)))))"

subsection \<open>The departures response and the refresh\<close>

text \<open>One entry of \<open>resp.data.departures\<close>: \<open>platform_number\<close> may be \<open>null\<close>.\<close>

record raw_departure =
  rd_run_ref :: run_ref
  rd_route_id :: route_id
  rd_platform :: "string option"
  rd_scheduled :: millis       \<comment> \<open>\<open>new Date(dep.scheduled_departure_utc).getTime()\<close>\<close>

text \<open>The response of \<open>/departures/route_type/0/stop/STATION\<close>: its \<open>routes\<close> entries, the
  \<open>route_type\<close> of each entry of its \<open>runs\<close> object, and its \<open>departures\<close>.\<close>

record departures_response =
  dr_routes :: "(string \<times> route) list"
  dr_runs :: "run_ref \<Rightarrow> route_type option"
  dr_departures :: "raw_departure list"

type_synonym board = "(platform \<times> departure list) list"

text \<open>A \<open>null\<close> platform number used as an object key is the key \<open>"null"\<close>.\<close>

definition platform_key :: "string option \<Rightarrow> platform" where
  "platform_key p = (case p of None \<Rightarrow> ''null'' | Some s \<Rightarrow> s)"

text \<open>Line 260: a departure more than a minute in the past is ignored.\<close>

definition is_past :: "millis \<Rightarrow> raw_departure \<Rightarrow> bool" where
  "is_past now d \<longleftrightarrow> rd_scheduled d - now < -60000"

text \<open>The object of lines 262--267.\<close>

definition make_dep :: "route_colours \<Rightarrow> route_type \<Rightarrow> raw_departure \<Rightarrow> departure" where
  "make_dep colours ty d =
     \<lparr>dep_type = ty, dep_run = rd_run_ref d, dep_time = rd_scheduled d,
      dep_colour = colours (rd_route_id d), dep_dest = None, dep_stations = None, dep_subtitle = None\<rparr>"

text \<open>The loop of lines 258--273 over \<open>resp.data.departures\<close>, filling \<open>deps\<close>.\<close>

fun bucket ::
  "route_colours \<Rightarrow> (run_ref \<Rightarrow> route_type option) \<Rightarrow> millis \<Rightarrow> board \<Rightarrow> raw_departure list \<Rightarrow> board result"
where
  "bucket colours runs now deps [] = Inr deps"
| "bucket colours runs now deps (d # ds) =
     (if is_past now d then bucket colours runs now deps ds
      else (case runs (rd_run_ref d) of
              None \<Rightarrow> Inl (TypeError ''respRuns[dep.run_ref].route_type'')
            | Some ty \<Rightarrow>
                bucket colours runs now
                  (AList.update_with_aux [] (platform_key (rd_platform d))
                     (\<lambda>l. l @ [make_dep colours ty d]) deps) ds))"

text \<open>
  The declarative description of a queue after the bucketing loop: the departures of the
  response for that platform, in response order, without those more than a minute past.
\<close>

definition platform_queue ::
  "route_colours \<Rightarrow> (run_ref \<Rightarrow> route_type option) \<Rightarrow> millis \<Rightarrow> raw_departure list \<Rightarrow> platform \<Rightarrow> departure list"
where
  "platform_queue colours runs now ds p =
     concat (map (\<lambda>d. if is_past now d \<or> platform_key (rd_platform d) \<noteq> p then []
                      else (case runs (rd_run_ref d) of None \<Rightarrow> [] | Some ty \<Rightarrow> [make_dep colours ty d])) ds)"

text \<open>Lines 279--282 for one platform: the first three departures are enriched and
  written back at their index.\<close>

definition enrich_first :: "resolver_env \<Rightarrow> departure list \<Rightarrow> departure list result" where
  "enrich_first env l =
     res_bind (res_map (fetchDepartureDetails env) (take 3 l)) (\<lambda>h. Inr (h @ drop 3 l))"

text \<open>Lines 277--284: \<open>Promise.all\<close> over every platform; one rejection rejects the refresh.\<close>

definition enrich_board :: "resolver_env \<Rightarrow> board \<Rightarrow> board result" where
  "enrich_board env b = res_map (\<lambda>(p, l). res_bind (enrich_first env l) (\<lambda>l'. Inr (p, l'))) b"

text \<open>
  \<open>fetchDepartures\<close>, lines 238--288: the route colour map is updated (and kept) even
  when the refresh fails later; the new board is the result only when every step
  succeeded (line 287).
\<close>

definition fetchDepartures ::
  "line_table \<Rightarrow> resolver_env \<Rightarrow> millis \<Rightarrow> departures_response option \<Rightarrow> route_colours \<times> board result"
where
  "fetchDepartures metroLines env now resp =
     (case resp of
        None \<Rightarrow> (env_colours env, Inl FetchFailed)
      | Some r \<Rightarrow>
          (let colours = build_route_colours metroLines (env_colours env) (dr_routes r) in
           (colours, res_bind (bucket colours (dr_runs r) now [] (dr_departures r))
                       (enrich_board (env\<lparr>env_colours := colours\<rparr>)))))"

subsection \<open>The minute tick\<close>

text \<open>
  One platform in the tick of lines 299--321, with the enrichment it starts run to its
  end: the head is removed when \<open>(time - now) / 60000 \<le> -1\<close>; otherwise, when the head
  is due and another service follows, the service at \<open>min(length - 1, 3)\<close> is enriched
  if it has no \<open>stations\<close> property. The object is written back at that index
  (line 313) in its settled state; the result is what the promise settles with.
\<close>

definition tick_platform ::
  "resolver_env \<Rightarrow> millis \<Rightarrow> departure list \<Rightarrow> departure list \<times> departure result option"
where
  "tick_platform env now l =
     (case l of
        [] \<Rightarrow> (l, None)
      | d # rest \<Rightarrow>
          if real_of_int (dep_time d - now) / 60000 \<le> -1 then (rest, None)
          else if real_of_int (dep_time d - now) / 60000 \<le> 0 \<and> 1 < length l
                  \<and> dep_stations (l ! min (length l - 1) 3) = None
          then (let i = min (length l - 1) 3 in
                (l[i := fetchDepartureDetails_obj env (l ! i)], Some (fetchDepartureDetails env (l ! i))))
          else (l, None))"

text \<open>
  The whole tick, lines 296--347: every platform is advanced; the clients are sent
  the \<open>append\<close> messages only when every enrichment of the tick resolved
  (\<open>Promise.all(...).then\<close> without a rejection handler), one per platform.
\<close>

definition tick :: "resolver_env \<Rightarrow> millis \<Rightarrow> board \<Rightarrow> board \<times> (platform \<times> departure) list option" where
  "tick env now b =
     (let rs = map (\<lambda>(p, l). (p, tick_platform env now l)) b;
          started = concat (map (\<lambda>(p, _, r). case r of None \<Rightarrow> [] | Some x \<Rightarrow> [(p, x)]) rs)
      in (map (\<lambda>(p, l', _). (p, l')) rs,
          case res_map (\<lambda>(p, x). res_bind x (\<lambda>d. Inr (p, d))) started of
            Inl _ \<Rightarrow> None
          | Inr ns \<Rightarrow> Some ns))"

text \<open>Lines 326--344: the service a client listening to a platform is sent.\<close>

definition client_append :: "(platform \<times> departure) list \<Rightarrow> platform \<Rightarrow> departure option" where
  "client_append ns pnum = map_of (rev ns) pnum"

text \<open>The shape every board has: one queue per platform key, each in time order.\<close>

definition board_ok :: "board \<Rightarrow> bool" where
  "board_ok b \<longleftrightarrow> distinct (map fst b) \<and> list_all (\<lambda>(p, l). sorted_by dep_time l) b"

subsection \<open>The query surface\<close>

text \<open>An HTTP answer: a JSON body, \<open>404 Not Found\<close>, or the \<open>500\<close> Express sends when the
  handler throws.\<close>

datatype 'a http = Http200 'a | Http404 | Http500

text \<open>\<open>GET /departures/:plat\<close>, lines 56--74.\<close>

definition departures_plat :: "board \<Rightarrow> platform \<Rightarrow> departure list http" where
  "departures_plat b p = (case map_of b p of None \<Rightarrow> Http404 | Some l \<Rightarrow> Http200 (take 3 l))"

text \<open>The loop of lines 80--92: the entry after the first one with the run reference,
  never looking at the last entry.\<close>

fun find_after :: "run_ref \<Rightarrow> departure list \<Rightarrow> departure option" where
  "find_after run (d # e # rest) = (if dep_run d = run then Some e else find_after run (e # rest))"
| "find_after run _ = None"

text \<open>\<open>GET /departures/:plat/after/:run\<close>, lines 76--95.\<close>

definition departures_after :: "board \<Rightarrow> platform \<Rightarrow> run_ref \<Rightarrow> departure http" where
  "departures_after b p run =
     (case map_of b p of
        None \<Rightarrow> Http404
      | Some l \<Rightarrow> (case find_after run l of None \<Rightarrow> Http404 | Some e \<Rightarrow> Http200 e))"

text \<open>
  \<open>GET /departures/:plat/:idx\<close>, lines 97--111: \<open>length <= i\<close> is false for \<open>NaN\<close>
  and for a negative index, and \<open>platform[i].type\<close> then throws.
\<close>

definition departures_index :: "board \<Rightarrow> platform \<Rightarrow> string \<Rightarrow> departure http" where
  "departures_index b p idx =
     (case map_of b p of
        None \<Rightarrow> Http404
      | Some l \<Rightarrow>
          (case parseInt idx of
             None \<Rightarrow> Http500
           | Some i \<Rightarrow>
               if int (length l) \<le> i then Http404
               else (case js_at l i of None \<Rightarrow> Http500 | Some d \<Rightarrow> Http200 d)))"

subsection \<open>An example refresh\<close>

text \<open>
  A departures response at \<open>now = 0\<close> for the example timetable of PID_Resolver: runs
  101 (City Loop group) and 104 (Burnley group) on platform 1, and a departure two
  minutes past whose run is not in the response's \<open>runs\<close>.
\<close>

definition ex_lines :: line_table where
  "ex_lines = map_of [(''ALM'', ''cityloop''), (''BEL'', ''burnley''), (''WER'', ''crosscity'')]"

definition ex_raw :: "run_ref \<Rightarrow> route_id \<Rightarrow> millis \<Rightarrow> raw_departure" where
  "ex_raw ref rid t = \<lparr>rd_run_ref = ref, rd_route_id = rid, rd_platform = Some ''1'', rd_scheduled = t\<rparr>"

definition ex_board :: board where
  "ex_board = [(''1'', [ex_resolved ''101'' ''cityloop'' ''Flinders Street'' [1000, 1001, 1002, 1003, 1004, 1005, 1071],
                       ex_resolved ''104'' ''burnley'' ''Flinders Street'' [1000, 1120, 1071]])]"

definition ex_response :: departures_response where
  "ex_response =
     \<lparr>dr_routes = [(''1'', \<lparr>route_type = 0, route_gtfs_id = Some ''2-ALM''\<rparr>),
                  (''3'', \<lparr>route_type = 0, route_gtfs_id = Some ''2-BEL''\<rparr>)],
      dr_runs = map_of [(''101'', 0), (''104'', 0)],
      dr_departures = [ex_raw ''999'' 1 (-120000), ex_raw ''101'' 1 600000, ex_raw ''104'' 3 600000]\<rparr>"

text \<open>The same platform with the cross-city run 103, whose enrichment throws at line 205.\<close>

definition ex_response_crash :: departures_response where
  "ex_response_crash =
     \<lparr>dr_routes = [(''1'', \<lparr>route_type = 0, route_gtfs_id = Some ''2-ALM''\<rparr>),
                  (''2'', \<lparr>route_type = 0, route_gtfs_id = Some ''2-WER''\<rparr>)],
      dr_runs = map_of [(''101'', 0), (''103'', 0)],
      dr_departures = [ex_raw ''101'' 1 600000, ex_raw ''103'' 2 600000]\<rparr>"

text \<open>
  A tick at the departure time of run 101 on two platforms: on platform 1 the next
  service is run 104, on platform 2 the cross-city run 103 whose enrichment throws at
  line 205 after writing the distributor's destination and the extended stop list.
\<close>

definition ex_tick_board :: board where
  "ex_tick_board = [(''1'', [ex_dep ''101'' ''cityloop'', ex_dep ''104'' ''burnley'']),
                    (''2'', [ex_dep ''101'' ''cityloop'', ex_dep ''103'' ''crosscity''])]"

definition ex_partial :: departure where
  "ex_partial = (ex_dep ''103'' ''crosscity'')\<lparr>dep_dest := Some ''Parliament'',
                   dep_stations := Some (ex_stops [1000, 1181, 1071, 1155])\<rparr>"

subsection \<open>Lemmas\<close>

lemma fetchDepartureDetails_obj_Inr:
  "fetchDepartureDetails env dep = Inr d \<Longrightarrow> fetchDepartureDetails_obj env dep = d"
  by (auto simp: fetchDepartureDetails_def fetchDepartureDetails_obj_def res_bind_def
      split: sum.splits option.splits)

lemma fetchDepartureDetails_obj_frame [simp]:
  "dep_type (fetchDepartureDetails_obj env dep) = dep_type dep"
  "dep_run (fetchDepartureDetails_obj env dep) = dep_run dep"
  "dep_time (fetchDepartureDetails_obj env dep) = dep_time dep"
  "dep_colour (fetchDepartureDetails_obj env dep) = dep_colour dep"
  by (simp_all add: fetchDepartureDetails_obj_def details_write_def finish_details_def
      split: sum.splits option.splits)

lemma city_loop_correction_Inl:
  "city_loop_correction station result s = Inl e \<Longrightarrow> e = TypeError ''result.stations[idx].name''"
  by (auto simp: city_loop_correction_def Let_def res_bind_def split: if_splits option.splits sum.splits)

text \<open>A rejection after the first fetch leaves a \<open>stations\<close> property and no subtitle.\<close>

lemma fetchDepartureDetails_obj_Inl:
  assumes "fetchDepartureDetails env dep = Inl e"
    and "fetchPattern (env_api env) (env_station env) (dep_type dep) (dep_run dep) False = Inr result"
  shows "dep_stations (fetchDepartureDetails_obj env dep) \<noteq> None
         \<and> dep_subtitle (fetchDepartureDetails_obj env dep) = dep_subtitle dep"
  using assms
  by (auto simp: fetchDepartureDetails_def fetchDepartureDetails_obj_def details_write_def
      res_bind_def split: sum.splits option.splits)

lemma fetchDepartureDetails_obj_fetch_failed:
  "fetchPattern (env_api env) (env_station env) (dep_type dep) (dep_run dep) False = Inl e \<Longrightarrow>
   fetchDepartureDetails_obj env dep = dep"
  by (simp add: fetchDepartureDetails_obj_def)

lemma platform_queue_simps [simp]:
  "platform_queue colours runs now [] p = []"
  "platform_queue colours runs now (d # ds) p =
     (if is_past now d \<or> platform_key (rd_platform d) \<noteq> p then []
      else (case runs (rd_run_ref d) of None \<Rightarrow> [] | Some ty \<Rightarrow> [make_dep colours ty d]))
     @ platform_queue colours runs now ds p"
  by (simp_all add: platform_queue_def)

lemma bucket_Inr:
  assumes "bucket colours runs now deps ds = Inr b"
  shows "(\<forall>d \<in> set ds. \<not> is_past now d \<longrightarrow> runs (rd_run_ref d) \<noteq> None)
         \<and> (distinct (map fst b) \<longleftrightarrow> distinct (map fst deps))
         \<and> fst ` set b = fst ` set deps \<union> platform_key ` rd_platform ` {d \<in> set ds. \<not> is_past now d}
         \<and> (\<forall>p. map_of b p =
               (case map_of deps p of
                  None \<Rightarrow> if platform_queue colours runs now ds p = [] then None
                          else Some (platform_queue colours runs now ds p)
                | Some l \<Rightarrow> Some (l @ platform_queue colours runs now ds p)))"
  using assms
proof (induction ds arbitrary: deps)
  case Nil
  then show ?case by (auto split: option.splits)
next
  case (Cons d ds)
  show ?case
  proof (cases "is_past now d")
    case True
    with Cons show ?thesis by (auto split: option.splits)
  next
    case False
    then obtain ty where ty: "runs (rd_run_ref d) = Some ty"
      using Cons.prems by (auto split: option.splits)
    let ?deps = "AList.update_with_aux [] (platform_key (rd_platform d)) (\<lambda>l. l @ [make_dep colours ty d]) deps"
    have b: "bucket colours runs now ?deps ds = Inr b"
      using Cons.prems False ty by simp
    note IH = Cons.IH [OF b]
    show ?thesis
      using IH False ty
      by (auto simp: map_of_update_with_aux dom_update_with_aux split: option.splits)
  qed
qed

lemma bucket_Inl:
  "(\<exists>e. bucket colours runs now deps ds = Inl e) \<longleftrightarrow>
   (\<exists>d \<in> set ds. \<not> is_past now d \<and> runs (rd_run_ref d) = None)"
  by (induction ds arbitrary: deps) (auto split: option.splits)

lemma make_dep_simps [simp]:
  "dep_time (make_dep colours ty d) = rd_scheduled d"
  "dep_stations (make_dep colours ty d) = None"
  "dep_subtitle (make_dep colours ty d) = None"
  "dep_dest (make_dep colours ty d) = None"
  by (simp_all add: make_dep_def)

lemma platform_queue_set:
  "x \<in> set (platform_queue colours runs now ds p) \<Longrightarrow>
   \<exists>d ty. d \<in> set ds \<and> \<not> is_past now d \<and> platform_key (rd_platform d) = p
          \<and> runs (rd_run_ref d) = Some ty \<and> x = make_dep colours ty d"
proof (induction ds)
  case (Cons a ds)
  show ?case
  proof (cases "x \<in> set (platform_queue colours runs now ds p)")
    case True
    with Cons.IH show ?thesis by auto
  next
    case False
    with Cons.prems show ?thesis by (force split: if_splits option.splits)
  qed
qed simp

lemma platform_queue_sorted:
  "sorted_by rd_scheduled ds \<Longrightarrow> sorted_by dep_time (platform_queue colours runs now ds p)"
proof (induction ds)
  case (Cons d ds)
  have "\<forall>y \<in> set (platform_queue colours runs now ds p). rd_scheduled d \<le> dep_time y"
    using Cons.prems by (auto dest!: platform_queue_set)
  with Cons show ?case by (auto split: option.splits)
qed simp

lemma platform_queue_Nil_iff:
  "(\<forall>d \<in> set ds. \<not> is_past now d \<longrightarrow> runs (rd_run_ref d) \<noteq> None) \<Longrightarrow>
   platform_queue colours runs now ds p = [] \<longleftrightarrow>
   p \<notin> platform_key ` rd_platform ` {d \<in> set ds. \<not> is_past now d}"
  by (induction ds) auto

lemma enrich_first_Inr:
  assumes "enrich_first env l = Inr l'"
  shows "length l' = length l \<and> drop 3 l' = drop 3 l
         \<and> (\<forall>i < min 3 (length l). fetchDepartureDetails env (l ! i) = Inr (l' ! i))"
proof -
  obtain h where h: "res_map (fetchDepartureDetails env) (take 3 l) = Inr h" and l': "l' = h @ drop 3 l"
    using assms by (auto simp: enrich_first_def res_bind_def split: sum.splits)
  have all: "list_all2 (\<lambda>x y. fetchDepartureDetails env x = Inr y) (take 3 l) h"
    using h by (simp add: res_map_Inr_iff)
  then have len: "length h = min 3 (length l)"
    by (simp add: list_all2_lengthD [symmetric])
  have "\<forall>i < min 3 (length l). fetchDepartureDetails env (l ! i) = Inr (h ! i)"
    using all by (auto simp: list_all2_conv_all_nth)
  with len show ?thesis
    by (cases "length l \<le> 3") (simp_all add: l' nth_append min_def)
qed

lemma enrich_board_Inr:
  "enrich_board env b = Inr b' \<longleftrightarrow>
   list_all2 (\<lambda>(p, l) (p', l'). p' = p \<and> enrich_first env l = Inr l') b b'"
  unfolding enrich_board_def res_map_Inr_iff
  by (intro iffI; erule list_all2_mono) (auto simp: res_bind_def split: sum.splits)

lemma enrich_board_map_of:
  assumes "enrich_board env b = Inr b'"
  shows "map fst b' = map fst b
         \<and> (\<forall>p l'. map_of b' p = Some l' \<longrightarrow> (\<exists>l. map_of b p = Some l \<and> enrich_first env l = Inr l'))"
proof -
  have all: "list_all2 (\<lambda>(p, l) (p', l'). p' = p \<and> enrich_first env l = Inr l') b b'"
    using assms by (simp add: enrich_board_Inr)
  then have keys: "map fst b' = map fst b"
    by (induction rule: list_all2_induct) auto
  have "map_of b' p = Some l' \<Longrightarrow> \<exists>l. map_of b p = Some l \<and> enrich_first env l = Inr l'" for p l'
    using all by (induction rule: list_all2_induct) (auto split: if_splits)
  with keys show ?thesis by blast
qed

lemma fetchDepartureDetails_Inr_frame:
  assumes "fetchDepartureDetails env dep = Inr d"
  shows "dep_type d = dep_type dep \<and> dep_run d = dep_run dep \<and> dep_time d = dep_time dep
         \<and> dep_colour d = dep_colour dep"
  using fetchDepartureDetails_obj_Inr [OF assms, symmetric] by simp

lemma enrich_first_keys:
  assumes "enrich_first env l = Inr l'"
  shows "map (\<lambda>d. (dep_type d, dep_run d, dep_time d, dep_colour d)) l'
         = map (\<lambda>d. (dep_type d, dep_run d, dep_time d, dep_colour d)) l"
proof (rule nth_equalityI)
  note e = enrich_first_Inr [OF assms]
  show "length (map (\<lambda>d. (dep_type d, dep_run d, dep_time d, dep_colour d)) l')
        = length (map (\<lambda>d. (dep_type d, dep_run d, dep_time d, dep_colour d)) l)"
    using e by simp
  fix i
  assume "i < length (map (\<lambda>d. (dep_type d, dep_run d, dep_time d, dep_colour d)) l')"
  then have i: "i < length l" using e by simp
  show "map (\<lambda>d. (dep_type d, dep_run d, dep_time d, dep_colour d)) l' ! i
        = map (\<lambda>d. (dep_type d, dep_run d, dep_time d, dep_colour d)) l ! i"
  proof (cases "i < 3")
    case True
    with e i have "fetchDepartureDetails env (l ! i) = Inr (l' ! i)" by simp
    with e i show ?thesis by (simp add: fetchDepartureDetails_Inr_frame)
  next
    case False
    have len: "length l' = length l" using e by simp
    have "l' ! i = drop 3 l' ! (i - 3)" using False i len by simp
    also have "\<dots> = drop 3 l ! (i - 3)" using e by simp
    also have "\<dots> = l ! i" using False i by simp
    finally have "l' ! i = l ! i" .
    with e i show ?thesis by simp
  qed
qed

lemma fetchDepartures_Inr_platform:
  assumes "fetchDepartures metroLines env now (Some r) = (c, Inr b)"
  shows "c = build_route_colours metroLines (env_colours env) (dr_routes r)
         \<and> (\<forall>d \<in> set (dr_departures r). \<not> is_past now d \<longrightarrow> dr_runs r (rd_run_ref d) \<noteq> None)
         \<and> distinct (map fst b)
         \<and> fst ` set b = platform_key ` rd_platform ` {d \<in> set (dr_departures r). \<not> is_past now d}
         \<and> (\<forall>p l. map_of b p = Some l \<longrightarrow>
              platform_queue c (dr_runs r) now (dr_departures r) p \<noteq> []
              \<and> enrich_first (env\<lparr>env_colours := c\<rparr>) (platform_queue c (dr_runs r) now (dr_departures r) p) = Inr l)"
proof -
  have c: "c = build_route_colours metroLines (env_colours env) (dr_routes r)"
    using assms by (simp add: fetchDepartures_def Let_def)
  obtain b0 where b0: "bucket c (dr_runs r) now [] (dr_departures r) = Inr b0"
    and eb: "enrich_board (env\<lparr>env_colours := c\<rparr>) b0 = Inr b"
    using assms by (auto simp: fetchDepartures_def Let_def res_bind_def split: sum.splits)
  note bk = bucket_Inr [OF b0] and en = enrich_board_map_of [OF eb]
  have "map_of b p = Some l \<Longrightarrow>
        platform_queue c (dr_runs r) now (dr_departures r) p \<noteq> []
        \<and> enrich_first (env\<lparr>env_colours := c\<rparr>) (platform_queue c (dr_runs r) now (dr_departures r) p) = Inr l"
    for p l
    using bk en by (auto split: if_splits)
  moreover have "fst ` set b = fst ` set b0"
    using en by (metis list.set_map)
  moreover have "distinct (map fst b)"
    using bk en by simp
  ultimately show ?thesis
    using c bk by auto
qed

lemma ex_refresh:
  "fetchDepartures ex_lines (ex_env (StationNumber 1000)) 0 (Some ex_response)
     = (env_colours (ex_env (StationNumber 1000)), Inr ex_board)"
  by (simp add: fetchDepartures_def ex_response_def ex_lines_def ex_raw_def route_group_def parseInt_def
      js_white_def digit_value_def is_past_def make_dep_def enrich_board_def enrich_first_def
      ex_eval_full fun_upd_idem_iff platform_key_def fun_upd_twist ex_board_def)

lemma ex_dep_simps [simp]:
  "dep_time (ex_dep r c) = 600000" "dep_stations (ex_dep r c) = None"
  by (simp_all add: ex_dep_def)

lemma ex_103: "fetchDepartureDetails (ex_env (StationNumber 1000)) (ex_dep ''103'' ''crosscity'')
   = Inl (TypeError ''result.stations[idx].name'')"
  by (simp add: ex_eval scan_back.simps)

lemma ex_103_obj:
  "fetchDepartureDetails_obj (ex_env (StationNumber 1000)) (ex_dep ''103'' ''crosscity'') = ex_partial"
  by (simp add: fetchDepartureDetails_obj_def ex_eval scan_back.simps details_write_def ex_partial_def)

lemma find_after_Some_iff:
  "find_after run l = Some e \<longleftrightarrow>
   (\<exists>i. Suc i < length l \<and> dep_run (l ! i) = run \<and> (\<forall>j < i. dep_run (l ! j) \<noteq> run) \<and> e = l ! Suc i)"
proof (induction run l rule: find_after.induct)
  case (1 run d e' rest)
  show ?case
  proof (cases "dep_run d = run")
    case True
    then show ?thesis by force
  next
    case False
    have "(\<exists>i. Suc i < length (d # e' # rest) \<and> dep_run ((d # e' # rest) ! i) = run
              \<and> (\<forall>j < i. dep_run ((d # e' # rest) ! j) \<noteq> run) \<and> e = (d # e' # rest) ! Suc i)
          \<longleftrightarrow> (\<exists>i. Suc i < length (e' # rest) \<and> dep_run ((e' # rest) ! i) = run
              \<and> (\<forall>j < i. dep_run ((e' # rest) ! j) \<noteq> run) \<and> e = (e' # rest) ! Suc i)"
      (is "(\<exists>i. ?P i) \<longleftrightarrow> (\<exists>i. ?Q i)")
    proof
      assume "\<exists>i. ?P i"
      then obtain i where "?P i" by blast
      with False obtain k where "i = Suc k" by (cases i) auto
      with \<open>?P i\<close> have "?Q k" by (auto simp: less_Suc_eq_0_disj)
      then show "\<exists>i. ?Q i" by blast
    next
      assume "\<exists>i. ?Q i"
      then obtain k where "?Q k" by blast
      with False have "?P (Suc k)" by (auto simp: less_Suc_eq_0_disj)
      then show "\<exists>i. ?P i" by blast
    qed
    with False 1 show ?thesis by simp
  qed
qed (auto simp: less_Suc_eq_0_disj)

subsection \<open>Properties of the refresh\<close>

text \<open>
  C7: a successful refresh implements its declarative description: the route
  colour map is updated from the response's routes; a platform has a queue exactly when
  the response has a departure for it not more than a minute past; the queue has those
  departures in response order, the first three of them replaced by their resolution.
\<close>

theorem fetchDepartures_refines_spec:
  assumes "fetchDepartures metroLines env now (Some r) = (c, Inr b)"
  shows "c = build_route_colours metroLines (env_colours env) (dr_routes r)
         \<and> (map_of b p = None \<longleftrightarrow> platform_queue c (dr_runs r) now (dr_departures r) p = [])
         \<and> (\<forall>l. map_of b p = Some l \<longrightarrow>
               length l = length (platform_queue c (dr_runs r) now (dr_departures r) p)
               \<and> drop 3 l = drop 3 (platform_queue c (dr_runs r) now (dr_departures r) p)
               \<and> (\<forall>i < min 3 (length l).
                    fetchDepartureDetails (env\<lparr>env_colours := c\<rparr>)
                      (platform_queue c (dr_runs r) now (dr_departures r) p ! i) = Inr (l ! i)))"
proof -
  note h = fetchDepartures_Inr_platform [OF assms]
  have none: "map_of b p = None \<longleftrightarrow> platform_queue c (dr_runs r) now (dr_departures r) p = []"
    using h platform_queue_Nil_iff [of "dr_departures r" now "dr_runs r" c p]
    by (simp add: map_of_eq_None_iff)
  have "length l = length (platform_queue c (dr_runs r) now (dr_departures r) p)
          \<and> drop 3 l = drop 3 (platform_queue c (dr_runs r) now (dr_departures r) p)
          \<and> (\<forall>i < min 3 (length l).
               fetchDepartureDetails (env\<lparr>env_colours := c\<rparr>)
                 (platform_queue c (dr_runs r) now (dr_departures r) p ! i) = Inr (l ! i))" if "map_of b p = Some l" for l
  proof -
    have "enrich_first (env\<lparr>env_colours := c\<rparr>) (platform_queue c (dr_runs r) now (dr_departures r) p) = Inr l"
      using h that by blast
    from enrich_first_Inr [OF this] show ?thesis by simp
  qed
  with h none show ?thesis by blast
qed

theorem fetchDepartures_refines_spec_witness:
  "platform_queue (env_colours (ex_env (StationNumber 1000))) (dr_runs ex_response) 0
     (dr_departures ex_response) ''2'' = []"
  using fetchDepartures_refines_spec [OF ex_refresh, of "''2''"] by (simp add: ex_board_def)

text \<open>
  C8: after a successful refresh from a time-ordered response, every platform queue
  is non-empty, in time order, holds no departure more than a minute past, has its first
  three departures fully enriched (destination, stop list and subtitle) and the others
  not enriched at all.
\<close>

theorem fetchDepartures_queues:
  assumes "fetchDepartures metroLines env now (Some r) = (c, Inr b)"
    and "sorted_by rd_scheduled (dr_departures r)"
    and "map_of b p = Some l"
  shows "l \<noteq> [] \<and> sorted_by dep_time l \<and> (\<forall>d \<in> set l. now - 60000 \<le> dep_time d)
         \<and> (\<forall>i < min 3 (length l). dep_dest (l ! i) \<noteq> None \<and> dep_stations (l ! i) \<noteq> None
                                 \<and> dep_subtitle (l ! i) \<noteq> None)
         \<and> (\<forall>d \<in> set (drop 3 l). dep_dest d = None \<and> dep_stations d = None \<and> dep_subtitle d = None)"
proof -
  let ?q = "platform_queue c (dr_runs r) now (dr_departures r) p"
  have q: "?q \<noteq> []" and e: "enrich_first (env\<lparr>env_colours := c\<rparr>) ?q = Inr l"
    using fetchDepartures_Inr_platform [OF assms(1)] assms(3) by blast+
  note ef = enrich_first_Inr [OF e]
  have times: "map dep_time l = map dep_time ?q"
    using arg_cong [OF enrich_first_keys [OF e], of "map (\<lambda>x. fst (snd (snd x)))"]
    by (simp add: comp_def)
  have "sorted_by dep_time l"
    using platform_queue_sorted [OF assms(2)] times by (simp add: sorted_by_def)
  moreover have "\<forall>d \<in> set l. now - 60000 \<le> dep_time d"
  proof
    fix d assume "d \<in> set l"
    then have "dep_time d \<in> set (map dep_time l)" by simp
    then have "dep_time d \<in> set (map dep_time ?q)" by (simp only: times)
    then show "now - 60000 \<le> dep_time d"
      by (auto dest!: platform_queue_set simp: is_past_def)
  qed
  moreover have "\<forall>i < min 3 (length l). dep_dest (l ! i) \<noteq> None \<and> dep_stations (l ! i) \<noteq> None
                                     \<and> dep_subtitle (l ! i) \<noteq> None"
    using ef by (auto dest: fetchDepartureDetails_Inr)
  moreover have "\<forall>d \<in> set (drop 3 l). dep_dest d = None \<and> dep_stations d = None \<and> dep_subtitle d = None"
    using ef by (auto dest!: in_set_dropD platform_queue_set)
  ultimately show ?thesis using q ef by auto
qed

theorem fetchDepartures_queues_witness:
  "dep_subtitle (ex_resolved ''104'' ''burnley'' ''Flinders Street'' [1000, 1120, 1071]) \<noteq> None"
proof -
  let ?L = "[ex_resolved ''101'' ''cityloop'' ''Flinders Street'' [1000, 1001, 1002, 1003, 1004, 1005, 1071],
             ex_resolved ''104'' ''burnley'' ''Flinders Street'' [1000, 1120, 1071]]"
  have s: "sorted_by rd_scheduled (dr_departures ex_response)"
    by (simp add: ex_response_def ex_raw_def)
  have m: "map_of ex_board ''1'' = Some ?L"
    by (simp add: ex_board_def)
  have "\<forall>i < min 3 (length ?L). dep_subtitle (?L ! i) \<noteq> None"
    using fetchDepartures_queues [OF ex_refresh s m] by blast
  from this [rule_format, of 1] show ?thesis by simp
qed

lemma enrich_board_Inl:
  assumes "(p, l) \<in> set b" and "i < min 3 (length l)" and "fetchDepartureDetails env (l ! i) = Inl e"
  shows "\<exists>e'. enrich_board env b = Inl e'"
proof -
  have "l ! i \<in> set (take 3 l)"
    using assms(2) by (simp add: in_set_conv_nth) (metis length_take min_less_iff_conj nth_take)
  then have "\<exists>e'. res_map (fetchDepartureDetails env) (take 3 l) = Inl e'"
    using assms(3) res_map_Inl_iff by blast
  then have "\<exists>e'. enrich_first env l = Inl e'"
    by (auto simp: enrich_first_def res_bind_def)
  then have "\<exists>e'. (case (p, l) of (p, l) \<Rightarrow> res_bind (enrich_first env l) (\<lambda>l'. Inr (p, l'))) = Inl e'"
    by (auto simp: res_bind_def)
  with assms(1) show ?thesis
    unfolding enrich_board_def using res_map_Inl_iff by blast
qed

text \<open>
  C29: one rejected enrichment among the first three of any platform rejects the
  whole refresh: the board is not replaced (line 287 is not reached), although the
  route colour map has already been updated. The specification leaves this case open.
\<close>

theorem fetchDepartures_one_rejection:
  assumes "bucket c (dr_runs r) now [] (dr_departures r) = Inr b0"
    and "c = build_route_colours metroLines (env_colours env) (dr_routes r)"
    and "(p, l) \<in> set b0" and "i < min 3 (length l)"
    and "fetchDepartureDetails (env\<lparr>env_colours := c\<rparr>) (l ! i) = Inl e"
  shows "\<exists>e'. fetchDepartures metroLines env now (Some r) = (c, Inl e')"
proof -
  obtain e' where "enrich_board (env\<lparr>env_colours := c\<rparr>) b0 = Inl e'"
    using enrich_board_Inl [OF assms(3-5)] by blast
  with assms(1,2) show ?thesis
    by (simp add: fetchDepartures_def Let_def)
qed

theorem fetchDepartures_one_rejection_witness:
  "\<exists>e'. fetchDepartures ex_lines (ex_env (StationNumber 1000)) 0 (Some ex_response_crash)
          = (env_colours (ex_env (StationNumber 1000)), Inl e')"
proof -
  let ?c = "env_colours (ex_env (StationNumber 1000))"
  let ?l = "[ex_dep ''101'' ''cityloop'', ex_dep ''103'' ''crosscity'']"
  have h1: "bucket ?c (dr_runs ex_response_crash) 0 [] (dr_departures ex_response_crash) = Inr [(''1'', ?l)]"
    by (simp add: ex_response_crash_def ex_raw_def is_past_def make_dep_def ex_dep_def ex_env_def
        platform_key_def)
  have h2: "?c = build_route_colours ex_lines ?c (dr_routes ex_response_crash)"
    by (simp add: ex_response_crash_def ex_lines_def route_group_def parseInt_def js_white_def
        digit_value_def ex_env_def fun_upd_idem_iff fun_upd_twist)
  have h3: "(''1'', ?l) \<in> set [(''1'', ?l)]" by simp
  have h4: "(1::nat) < min 3 (length ?l)" by simp
  have h5: "fetchDepartureDetails ((ex_env (StationNumber 1000))\<lparr>env_colours := ?c\<rparr>) (?l ! 1)
              = Inl (TypeError ''result.stations[idx].name'')"
    using ex_103 by simp
  show ?thesis
    using fetchDepartures_one_rejection [OF h1 h2 h3 h4 h5] .
qed

lemma tick_time_expired [simp]: "real_of_int x / 60000 \<le> -1 \<longleftrightarrow> x \<le> -60000"
  by (simp add: divide_le_eq) linarith

lemma tick_time_due [simp]: "real_of_int x / 60000 \<le> 0 \<longleftrightarrow> x \<le> 0"
  by (simp add: divide_le_eq)

lemma tick_platform_cases:
  assumes "tick_platform env now l = (l', r)"
  shows "(l' = l \<and> r = None)
         \<or> (l \<noteq> [] \<and> dep_time (hd l) - now \<le> -60000 \<and> l' = tl l \<and> r = None)
         \<or> (1 < length l \<and> dep_time (hd l) \<le> now \<and> now - 60000 < dep_time (hd l)
            \<and> dep_stations (l ! min (length l - 1) 3) = None
            \<and> l' = l[min (length l - 1) 3 := fetchDepartureDetails_obj env (l ! min (length l - 1) 3)]
            \<and> r = Some (fetchDepartureDetails env (l ! min (length l - 1) 3)))"
  using assms
  by (cases l) (auto simp: tick_platform_def Let_def split: if_splits)

lemma tick_platform_times:
  assumes "tick_platform env now l = (l', r)"
  shows "map dep_time l' = map dep_time l \<or> l' = tl l"
proof -
  have "map dep_time (l[i := fetchDepartureDetails_obj env (l ! i)]) = map dep_time l" for i
  proof (rule nth_equalityI)
    fix j assume "j < length (map dep_time (l[i := fetchDepartureDetails_obj env (l ! i)]))"
    then show "map dep_time (l[i := fetchDepartureDetails_obj env (l ! i)]) ! j = map dep_time l ! j"
      by (cases "i = j") simp_all
  qed simp
  with tick_platform_cases [OF assms] show ?thesis by auto
qed

lemma tick_platform_sorted:
  "sorted_by dep_time l \<Longrightarrow> tick_platform env now l = (l', r) \<Longrightarrow> sorted_by dep_time l'"
  using tick_platform_times [of env now l l' r]
  by (auto simp: sorted_by_def intro: sorted_by_tl [unfolded sorted_by_def])

lemma tick_fst:
  "fst (tick env now b) = map (\<lambda>(p, l). (p, fst (tick_platform env now l))) b"
  by (simp add: tick_def Let_def case_prod_beta)

lemma tick_notifications_None:
  assumes "(p, l) \<in> set b" and "snd (tick_platform env now l) = Some (Inl e)"
  shows "snd (tick env now b) = None"
proof -
  let ?started = "concat (map (\<lambda>(p, _, r). case r of None \<Rightarrow> [] | Some x \<Rightarrow> [(p, x)])
                          (map (\<lambda>(p, l). (p, tick_platform env now l)) b))"
  have "(p, Inl e) \<in> set ?started"
    using assms by (force simp: case_prod_beta)
  then obtain e' where "res_map (\<lambda>(p, x). res_bind x (\<lambda>d. Inr (p, d))) ?started = Inl e'"
    using res_map_Inl_iff [of "\<lambda>(p, x). res_bind x (\<lambda>d. Inr (p, d))" ?started]
    by (fastforce simp: res_bind_def)
  then show ?thesis by (simp add: tick_def Let_def)
qed

subsection \<open>Properties of the tick\<close>



text \<open>
  C26: when a queue's head is due (at most a minute past) and another service
  follows, the tick enriches the service at position \<open>min(length - 1, 3)\<close> when it has
  no stop list yet, writes it back there, and the result is sent to the platform's clients.
\<close>

theorem tick_platform_enriches:
  assumes "dep_time d \<le> now" and "now - 60000 < dep_time d" and "rest \<noteq> []"
    and "dep_stations ((d # rest) ! min (length rest) 3) = None"
    and "fetchDepartureDetails env ((d # rest) ! min (length rest) 3) = Inr e"
  shows "tick_platform env now (d # rest) = ((d # rest)[min (length rest) 3 := e], Some (Inr e))"
  unfolding tick_platform_def Let_def list.case
  using assms fetchDepartureDetails_obj_Inr [OF assms(5)]
  by (simp del: nth_Cons_pos list_update.simps)

theorem tick_platform_enriches_witness:
  "tick_platform (ex_env (StationNumber 1000)) 600000 [ex_dep ''101'' ''cityloop'', ex_dep ''104'' ''burnley'']
     = ([ex_dep ''101'' ''cityloop'', ex_resolved ''104'' ''burnley'' ''Flinders Street'' [1000, 1120, 1071]],
        Some (Inr (ex_resolved ''104'' ''burnley'' ''Flinders Street'' [1000, 1120, 1071])))"
proof -
  have h: "fetchDepartureDetails (ex_env (StationNumber 1000))
             ([ex_dep ''101'' ''cityloop'', ex_dep ''104'' ''burnley''] ! min (length [ex_dep ''104'' ''burnley'']) 3)
           = Inr (ex_resolved ''104'' ''burnley'' ''Flinders Street'' [1000, 1120, 1071])"
    using ex_104 by simp
  show ?thesis
    using tick_platform_enriches [OF _ _ _ _ h] by simp
qed

text \<open>
  C27: an entry that already has a \<open>stations\<close> property is never rewritten by
  the tick: it is removed as the head, or stays as it is. In particular a departure
  whose enrichment rejected after writing its stop list is never enriched again.
\<close>

theorem tick_platform_keeps_started:
  assumes "tick_platform env now l = (l', r)" and "i < length l" and "dep_stations (l ! i) \<noteq> None"
  shows "l' = l \<or> l' = tl l \<or> (length l' = length l \<and> l' ! i = l ! i)"
  using tick_platform_cases [OF assms(1)] assms(2,3)
  by (auto simp: nth_list_update)

theorem tick_platform_keeps_started_witness:
  "fst (tick_platform (ex_env (StationNumber 1000)) 600000 [ex_dep ''101'' ''cityloop'', ex_partial]) ! 1
     = ex_partial"
proof -
  let ?E = "ex_env (StationNumber 1000)" and ?L = "[ex_dep ''101'' ''cityloop'', ex_partial]"
  have p: "tick_platform ?E 600000 ?L = (fst (tick_platform ?E 600000 ?L), snd (tick_platform ?E 600000 ?L))"
    by simp
  have i: "1 < length ?L" by simp
  have st: "dep_stations (?L ! 1) \<noteq> None" by (simp add: ex_partial_def)
  note D = tick_platform_keeps_started [OF p i st]
  moreover have "fst (tick_platform ?E 600000 ?L) \<noteq> tl ?L"
    by (simp add: tick_platform_def ex_partial_def)
  ultimately show ?thesis by auto
qed

text \<open>
  C28: a rejected enrichment in a tick suppresses every notification
  of that tick, on every platform (\<open>Promise.all\<close> rejects and its \<open>then\<close> never runs),
  and, when the rejection comes after the first request, leaves the departure on the
  board half-enriched: it has a stop list and no new subtitle. Such an entry is never
  enriched again (\<open>tick_platform_keeps_started\<close>), and the read endpoints serve it as
  it is. The specification
  requires enrichment to be published atomically and each completion to be notified.
\<close>

theorem tick_rejection:
  assumes "(p, l) \<in> set b" and "tick_platform env now l = (l', Some (Inl e))"
    and "k = min (length l - 1) 3"
    and "fetchPattern (env_api env) (env_station env) (dep_type (l ! k)) (dep_run (l ! k)) False = Inr result"
  shows "snd (tick env now b) = None \<and> (p, l') \<in> set (fst (tick env now b))
         \<and> k < length l' \<and> dep_stations (l' ! k) \<noteq> None \<and> dep_subtitle (l' ! k) = dep_subtitle (l ! k)"
proof -
  from tick_platform_cases [OF assms(2)] assms(3)
  have len: "1 < length l" and l': "l' = l[k := fetchDepartureDetails_obj env (l ! k)]"
    and fd: "fetchDepartureDetails env (l ! k) = Inl e"
    by auto
  have k: "k < length l" using len assms(3) by simp
  note obj = fetchDepartureDetails_obj_Inl [OF fd assms(4)]
  have "snd (tick env now b) = None"
    using tick_notifications_None [OF assms(1)] assms(2) by simp
  moreover have "(p, l') \<in> set (fst (tick env now b))"
    using assms(1,2) by (force simp: tick_fst)
  ultimately show ?thesis
    using k obj by (simp add: l')
qed

theorem tick_rejection_witness:
  "snd (tick (ex_env (StationNumber 1000)) 600000 ex_tick_board) = None
   \<and> (''2'', [ex_dep ''101'' ''cityloop'', ex_partial]) \<in> set (fst (tick (ex_env (StationNumber 1000)) 600000 ex_tick_board))
   \<and> dep_stations ex_partial \<noteq> None \<and> dep_subtitle ex_partial = None"
proof -
  let ?E = "ex_env (StationNumber 1000)" and ?l = "[ex_dep ''101'' ''cityloop'', ex_dep ''103'' ''crosscity'']"
  have h1: "(''2'', ?l) \<in> set ex_tick_board" by (simp add: ex_tick_board_def)
  have h2: "tick_platform ?E 600000 ?l = ([ex_dep ''101'' ''cityloop'', ex_partial],
              Some (Inl (TypeError ''result.stations[idx].name'')))"
    by (simp add: tick_platform_def ex_103_obj ex_103)
  have h3: "1 = min (length ?l - 1) 3" by simp
  have h4: "fetchPattern (env_api ?E) (env_station ?E) (dep_type (?l ! 1)) (dep_run (?l ! 1)) False
              = Inr (ex_result [1000, 1181] (ex_run ''103'' 2 1181 ''Southern Cross'' (ex_dist ''Parliament'' ''903'')))"
    by (simp add: ex_eval ex_result_def)
  show ?thesis
    using tick_rejection [OF h1 h2 h3 h4] by (simp add: ex_dep_def)
qed

subsection \<open>Properties of the query surface\<close>


text \<open>
  C30: \<open>GET /departures/:plat/after/:run\<close> answers the entry right after the first
  entry of the platform with that run reference, and \<open>404\<close> when the platform is unknown,
  the run is absent or it is the last entry.
\<close>

theorem departures_after_spec:
  "departures_after b p run = Http200 e \<longleftrightarrow>
   (\<exists>l i. map_of b p = Some l \<and> Suc i < length l \<and> dep_run (l ! i) = run
          \<and> (\<forall>j < i. dep_run (l ! j) \<noteq> run) \<and> e = l ! Suc i)"
proof (cases "map_of b p")
  case None
  then show ?thesis by (simp add: departures_after_def)
next
  case (Some l)
  have "departures_after b p run = Http200 e \<longleftrightarrow> find_after run l = Some e"
    using Some by (simp add: departures_after_def split: option.split)
  with Some show ?thesis by (simp add: find_after_Some_iff)
qed

theorem departures_after_spec_witness:
  "departures_after ex_tick_board ''1'' ''101'' = Http200 (ex_dep ''104'' ''burnley'')"
proof -
  have "\<exists>l i. map_of ex_tick_board ''1'' = Some l \<and> Suc i < length l \<and> dep_run (l ! i) = ''101''
          \<and> (\<forall>j < i. dep_run (l ! j) \<noteq> ''101'') \<and> ex_dep ''104'' ''burnley'' = l ! Suc i"
    by (rule exI [of _ "[ex_dep ''101'' ''cityloop'', ex_dep ''104'' ''burnley'']"], rule exI [of _ 0])
       (simp add: ex_tick_board_def ex_dep_def)
  then show ?thesis using departures_after_spec by blast
qed

end
