(* ===== verification/PID_Live.thy ===== *)
theory PID_Live
  imports PID_Board
begin

text \<open>
  The board as the running server holds it: departure objects in a heap, platform queues
  as arrays of references that may have holes, and the enrichments a tick has started
  as pending tasks that settle later, in any order and interleaved with further ticks.
  A task remembers the array it was started on, the index \<open>nextIdx\<close> and the object;
  when it settles it mutates the object in place and, if the promise resolved, assigns
  the object to that index of that array (line 313), whatever the array has become.
\<close>

type_synonym oref = nat
type_synonym aref = nat

record task =
  tk_platform :: platform
  tk_array :: aref
  tk_index :: nat
  tk_obj :: oref

record live_state =
  ls_heap :: "oref \<Rightarrow> departure"
  ls_arrays :: "aref \<Rightarrow> oref option list"   \<comment> \<open>\<open>None\<close> is a hole\<close>
  ls_departures :: "(platform \<times> aref) list"
  ls_tasks :: "task list"

text \<open>\<open>a[i] = v\<close> on a JavaScript array: past the end the array grows and the positions
  between are holes.\<close>

definition js_write :: "'a option list \<Rightarrow> nat \<Rightarrow> 'a \<Rightarrow> 'a option list" where
  "js_write xs i v =
     (if i < length xs then xs[i := Some v] else xs @ replicate (i - length xs) None @ [Some v])"

text \<open>
  What the tick of lines 301--321 does with one platform array: nothing, \<open>shift\<close>,
  start enriching the object at an index, or throw. A hole at the head makes
  \<open>platform[0].time\<close> throw, a hole at \<open>nextIdx\<close> makes \<open>hasOwnProperty\<close> throw.
\<close>

datatype tick_action = TKeep | TShift | TEnrich nat oref | TFail error

definition tick_decision :: "millis \<Rightarrow> (oref \<Rightarrow> departure) \<Rightarrow> oref option list \<Rightarrow> tick_action" where
  "tick_decision now heap arr =
     (if arr = [] then TKeep
      else (case hd arr of
              None \<Rightarrow> TFail (TypeError ''platform[0].time'')
            | Some r \<Rightarrow>
                if real_of_int (dep_time (heap r) - now) / 60000 \<le> -1 then TShift
                else if real_of_int (dep_time (heap r) - now) / 60000 \<le> 0 \<and> 1 < length arr then
                  (let i = min (length arr - 1) 3 in
                   case arr ! i of
                     None \<Rightarrow> TFail (TypeError ''platform[nextIdx].hasOwnProperty'')
                   | Some r' \<Rightarrow> if dep_stations (heap r') = None then TEnrich i r' else TKeep)
                else TKeep))"

definition tick_array :: "millis \<Rightarrow> live_state \<Rightarrow> platform \<Rightarrow> aref \<Rightarrow> live_state result" where
  "tick_array now st p a =
     (case tick_decision now (ls_heap st) (ls_arrays st a) of
        TKeep \<Rightarrow> Inr st
      | TShift \<Rightarrow> Inr (st\<lparr>ls_arrays := (ls_arrays st)(a := tl (ls_arrays st a))\<rparr>)
      | TEnrich i r \<Rightarrow>
          Inr (st\<lparr>ls_tasks := ls_tasks st @ [\<lparr>tk_platform = p, tk_array = a, tk_index = i, tk_obj = r\<rparr>]\<rparr>)
      | TFail e \<Rightarrow> Inl e)"

text \<open>The loop over \<open>Object.entries(departures)\<close>, lines 299--322; an exception ends
  the cron callback, keeping what the earlier platforms did.\<close>

fun tick_live_go :: "millis \<Rightarrow> (platform \<times> aref) list \<Rightarrow> live_state \<Rightarrow> live_state \<times> error option" where
  "tick_live_go now [] st = (st, None)"
| "tick_live_go now ((p, a) # ps) st =
     (case tick_array now st p a of
        Inl e \<Rightarrow> (st, Some e)
      | Inr st' \<Rightarrow> tick_live_go now ps st')"

definition tick_live :: "millis \<Rightarrow> live_state \<Rightarrow> live_state \<times> error option" where
  "tick_live now st = tick_live_go now (ls_departures st) st"

text \<open>
  A pending enrichment settles: the object takes its settled state; if the promise
  resolved, \<open>platform[nextIdx] = result\<close> assigns the object to the remembered index of
  the remembered array (lines 311--313).
\<close>

definition settle :: "resolver_env \<Rightarrow> nat \<Rightarrow> live_state \<Rightarrow> live_state" where
  "settle env k st =
     (let t = ls_tasks st ! k; r = tk_obj t; dep = ls_heap st r;
          st1 = st\<lparr>ls_heap := (ls_heap st)(r := fetchDepartureDetails_obj env dep),
                   ls_tasks := take k (ls_tasks st) @ drop (Suc k) (ls_tasks st)\<rparr>
      in case fetchDepartureDetails env dep of
           Inl _ \<Rightarrow> st1
         | Inr _ \<Rightarrow> st1\<lparr>ls_arrays := (ls_arrays st1)(tk_array t := js_write (ls_arrays st1 (tk_array t)) (tk_index t) r)\<rparr>)"

text \<open>Every pending enrichment settling, oldest first, before anything else happens.\<close>

fun settle_all :: "resolver_env \<Rightarrow> nat \<Rightarrow> live_state \<Rightarrow> live_state" where
  "settle_all env 0 st = st"
| "settle_all env (Suc n) st = settle_all env n (settle env 0 st)"

text \<open>The queues as a reader sees them, holes included.\<close>

definition view :: "live_state \<Rightarrow> (platform \<times> departure option list) list" where
  "view st = map (\<lambda>(p, a). (p, map (map_option (ls_heap st)) (ls_arrays st a))) (ls_departures st)"

definition lift_board :: "board \<Rightarrow> (platform \<times> departure option list) list" where
  "lift_board b = map (\<lambda>(p, l). (p, map Some l)) b"

text \<open>
  No two positions of the published queues hold the same object, and no two platforms
  share an array: what \<open>fetchDepartures\<close> builds.
\<close>

definition live_refs :: "live_state \<Rightarrow> oref option list" where
  "live_refs st = concat (map (\<lambda>(p, a). ls_arrays st a) (ls_departures st))"

definition live_ok :: "live_state \<Rightarrow> bool" where
  "live_ok st \<longleftrightarrow>
     distinct (map snd (ls_departures st)) \<and> None \<notin> set (live_refs st) \<and> distinct (live_refs st)"

text \<open>\<open>GET /departures/:plat\<close> on the live arrays: a hole among the first three makes the
  handler throw.\<close>

definition departures_plat_live :: "live_state \<Rightarrow> platform \<Rightarrow> departure list http" where
  "departures_plat_live st p =
     (case map_of (view st) p of
        None \<Rightarrow> Http404
      | Some l \<Rightarrow> if None \<in> set (take 3 l) then Http500 else Http200 (map the (take 3 l)))"

text \<open>
  The abstraction of a live state without holes to the board of PID_Board: each
  platform's queue is its array with every reference replaced by the object it points to.
\<close>

definition live_board :: "live_state \<Rightarrow> board" where
  "live_board st = map (\<lambda>(p, a). (p, map (\<lambda>x. ls_heap st (the x)) (ls_arrays st a))) (ls_departures st)"

text \<open>
  An example: platform 1 holds runs 101 and 104 (objects 0 and 1 in array 0), as after
  the example refresh of PID_Board.
\<close>

definition ex_live :: live_state where
  "ex_live = \<lparr>ls_heap = (\<lambda>_. ex_dep ''101'' ''cityloop'')(1 := ex_dep ''104'' ''burnley''),
              ls_arrays = (\<lambda>_. [])(0 := [Some 0, Some 1]),
              ls_departures = [(''1'', 0)], ls_tasks = []\<rparr>"

text \<open>
  Two boards for the interleavings: on the first, platform 1 holds runs in the order 101 (10:00), 106 (10:00), 104 (10:01); on the second, runs 101 (10:00) and 104 (10:01).
\<close>

definition ex_live_dup :: live_state where
  "ex_live_dup =
     \<lparr>ls_heap = (\<lambda>_. ex_dep ''101'' ''cityloop'')(1 := ex_dep ''106'' ''burnley'',
                    2 := (ex_dep ''104'' ''burnley'')\<lparr>dep_time := 660000\<rparr>),
      ls_arrays = (\<lambda>_. [])(0 := [Some 0, Some 1, Some 2]),
      ls_departures = [(''1'', 0)], ls_tasks = []\<rparr>"

definition ex_live_hole :: live_state where
  "ex_live_hole =
     \<lparr>ls_heap = (\<lambda>_. ex_dep ''101'' ''cityloop'')(1 := (ex_dep ''104'' ''burnley'')\<lparr>dep_time := 660000\<rparr>),
      ls_arrays = (\<lambda>_. [])(0 := [Some 0, Some 1]),
      ls_departures = [(''1'', 0)], ls_tasks = []\<rparr>"

text \<open>
  The server's steps between two observations: a minute tick, which may throw part-way,
  or one pending enrichment settling against the timetable as it is then. The daily
  refresh, which publishes fresh arrays, is not a step of this relation.
\<close>

inductive live_step :: "live_state \<Rightarrow> live_state \<Rightarrow> bool" where
  tick: "tick_live now st = (st', err) \<Longrightarrow> live_step st st'"
| settle: "k < length (ls_tasks st) \<Longrightarrow> live_step st (settle env k st)"

text \<open>
  The interleavings: on the first board, a tick at 10:00 starts enriching run 104 at
  index 2, the tick at 10:01 removes run 101, and the enrichment then settles; on the
  second, the enrichment of run 104 at index 1 started at 10:00 settles only after the
  ticks of 10:01 and 10:02 have removed both runs.
\<close>

definition ex_dup_state :: live_state where
  "ex_dup_state = settle (ex_env (StationNumber 1000)) 0
                    (fst (tick_live 660000 (fst (tick_live 600000 ex_live_dup))))"

definition ex_hole_state :: live_state where
  "ex_hole_state = settle (ex_env (StationNumber 1000)) 0
                     (fst (tick_live 720000 (fst (tick_live 660000 (fst (tick_live 600000 ex_live_hole))))))"

text \<open>The tasks a tick starts, platform by platform, as a function of the state before it.\<close>

definition tick_tasks :: "millis \<Rightarrow> live_state \<Rightarrow> (platform \<times> aref) list \<Rightarrow> task list" where
  "tick_tasks now st ps =
     concat (map (\<lambda>(p, a). case tick_decision now (ls_heap st) (ls_arrays st a) of
                             TEnrich i r \<Rightarrow> [\<lparr>tk_platform = p, tk_array = a, tk_index = i, tk_obj = r\<rparr>]
                           | _ \<Rightarrow> []) ps)"

subsection \<open>Lemmas\<close>

lemma tick_array_Inr:
  assumes "tick_array now st p a = Inr st'"
  shows "ls_heap st' = ls_heap st \<and> ls_departures st' = ls_departures st
         \<and> ls_arrays st' = (ls_arrays st)(a := (if tick_decision now (ls_heap st) (ls_arrays st a) = TShift
                                                then tl (ls_arrays st a) else ls_arrays st a))
         \<and> ls_tasks st' = ls_tasks st @ tick_tasks now st [(p, a)]
         \<and> (\<forall>e. tick_decision now (ls_heap st) (ls_arrays st a) \<noteq> TFail e)"
  using assms
  by (auto simp: tick_array_def tick_tasks_def split: tick_action.splits)

lemma tick_tasks_cong:
  assumes "ls_heap st' = ls_heap st" and "\<forall>(p, a) \<in> set ps. ls_arrays st' a = ls_arrays st a"
  shows "tick_tasks now st' ps = tick_tasks now st ps"
  using assms unfolding tick_tasks_def
  by (induction ps) auto

lemma tick_live_go_None:
  assumes "tick_live_go now ps st = (st1, None)" and "distinct (map snd ps)"
  shows "ls_heap st1 = ls_heap st \<and> ls_departures st1 = ls_departures st
         \<and> ls_arrays st1 = (\<lambda>a. if a \<in> snd ` set ps \<and> tick_decision now (ls_heap st) (ls_arrays st a) = TShift
                                 then tl (ls_arrays st a) else ls_arrays st a)
         \<and> ls_tasks st1 = ls_tasks st @ tick_tasks now st ps
         \<and> (\<forall>(p, a) \<in> set ps. \<forall>e. tick_decision now (ls_heap st) (ls_arrays st a) \<noteq> TFail e)"
  using assms
proof (induction ps arbitrary: st)
  case Nil
  then show ?case by (auto simp: tick_tasks_def)
next
  case (Cons pa ps)
  obtain p a where pa: "pa = (p, a)" by fastforce
  from Cons.prems obtain st' where t: "tick_array now st p a = Inr st'"
    and rest: "tick_live_go now ps st' = (st1, None)"
    by (auto simp: pa split: sum.splits)
  note one = tick_array_Inr [OF t]
  have a_notin: "a \<notin> snd ` set ps" using Cons.prems(2) by (simp add: pa)
  have dps: "distinct (map snd ps)" using Cons.prems(2) by (simp add: pa)
  note IH = Cons.IH [OF rest dps]
  have same: "\<forall>(q, b) \<in> set ps. ls_arrays st' b = ls_arrays st b"
    using one a_notin by force
  have tasks: "tick_tasks now st' ps = tick_tasks now st ps"
    using tick_tasks_cong [OF _ same] one by simp
  have dec: "\<forall>(q, b) \<in> set ps. tick_decision now (ls_heap st') (ls_arrays st' b)
                                = tick_decision now (ls_heap st) (ls_arrays st b)"
    using same one by auto
  show ?case
  proof (intro conjI)
    show "ls_heap st1 = ls_heap st" "ls_departures st1 = ls_departures st"
      using IH Cons.prems(2) one by (simp_all add: pa)
    show "ls_tasks st1 = ls_tasks st @ tick_tasks now st (pa # ps)"
      using IH Cons.prems(2) one tasks by (simp add: pa tick_tasks_def)
    show "ls_arrays st1 = (\<lambda>b. if b \<in> snd ` set (pa # ps)
                                    \<and> tick_decision now (ls_heap st) (ls_arrays st b) = TShift
                                 then tl (ls_arrays st b) else ls_arrays st b)"
    proof
      fix b
      show "ls_arrays st1 b = (if b \<in> snd ` set (pa # ps)
                                \<and> tick_decision now (ls_heap st) (ls_arrays st b) = TShift
                             then tl (ls_arrays st b) else ls_arrays st b)"
        using IH Cons.prems(2) one dec a_notin same by (auto simp: pa)
    qed
    have f: "\<forall>(q, b) \<in> set ps. \<forall>e. tick_decision now (ls_heap st') (ls_arrays st' b) \<noteq> TFail e"
      using IH by blast
    have "\<forall>(q, b) \<in> set ps. \<forall>e. tick_decision now (ls_heap st) (ls_arrays st b) \<noteq> TFail e"
    proof (intro ballI, clarify)
      fix q b e
      assume "(q, b) \<in> set ps" "tick_decision now (ls_heap st) (ls_arrays st b) = TFail e"
      with f dec show False by fastforce
    qed
    then show "\<forall>(q, b) \<in> set (pa # ps). \<forall>e. tick_decision now (ls_heap st) (ls_arrays st b) \<noteq> TFail e"
      using one by (simp add: pa)
  qed
qed

lemma tick_decision_TEnrich:
  "tick_decision now h arr = TEnrich i r \<Longrightarrow>
   i < length arr \<and> arr ! i = Some r \<and> dep_stations (h r) = None"
  by (auto simp: tick_decision_def Let_def split: if_splits option.splits)

lemma tick_decision_Some:
  "tick_decision now h (map Some os) =
     (if os = [] then TKeep
      else if dep_time (h (hd os)) - now \<le> -60000 then TShift
      else if dep_time (h (hd os)) \<le> now \<and> 1 < length os
              \<and> dep_stations (h (os ! min (length os - 1) 3)) = None
      then TEnrich (min (length os - 1) 3) (os ! min (length os - 1) 3)
      else TKeep)"
proof (cases "os = []")
  case False
  then have "min (length os - 1) 3 < length os" by (cases os) auto
  with False show ?thesis
    by (simp add: tick_decision_def Let_def hd_map del: of_int_diff)
qed (simp add: tick_decision_def)

lemma tick_platform_map:
  "fst (tick_platform env now (map h os)) =
     (case tick_decision now h (map Some os) of
        TShift \<Rightarrow> map h (tl os)
      | TEnrich i r \<Rightarrow> (map h os)[i := fetchDepartureDetails_obj env (h r)]
      | _ \<Rightarrow> map h os)"
proof (cases "os = []")
  case False
  then have "min (length os - 1) 3 < length os" by (cases os) auto
  with False show ?thesis
    by (simp add: tick_decision_Some tick_platform_def Let_def list.case_eq_if hd_map map_tl del: of_int_diff)
qed (simp add: tick_decision_def tick_platform_def)

lemma map_update_distinct:
  assumes "distinct os" and "i < length os"
  shows "(map h os)[i := v] = map (h(os ! i := v)) os"
proof (rule nth_equalityI)
  fix j assume "j < length ((map h os)[i := v])"
  then have j: "j < length os" by simp
  show "(map h os)[i := v] ! j = map (h(os ! i := v)) os ! j"
    using assms j by (cases "i = j") (auto simp: nth_eq_iff_index_eq)
qed simp

lemma settle_head:
  assumes "ls_tasks st = t # ts" and "tk_index t < length (ls_arrays st (tk_array t))"
    and "ls_arrays st (tk_array t) ! tk_index t = Some (tk_obj t)"
  shows "settle env 0 st =
           st\<lparr>ls_heap := (ls_heap st)(tk_obj t := fetchDepartureDetails_obj env (ls_heap st (tk_obj t))),
              ls_tasks := ts\<rparr>"
proof -
  have "js_write (ls_arrays st (tk_array t)) (tk_index t) (tk_obj t) = ls_arrays st (tk_array t)"
    using assms(2,3) by (simp add: js_write_def list_update_same_conv)
  then show ?thesis
    using assms(1) by (simp add: settle_def Let_def split: sum.split)
qed

lemma settle_all_tasks:
  assumes "ls_tasks st = ts"
    and "\<forall>t \<in> set ts. tk_index t < length (ls_arrays st (tk_array t))
                    \<and> ls_arrays st (tk_array t) ! tk_index t = Some (tk_obj t)"
    and "distinct (map tk_obj ts)"
  shows "settle_all env (length ts) st =
           st\<lparr>ls_heap := (\<lambda>r. if r \<in> tk_obj ` set ts then fetchDepartureDetails_obj env (ls_heap st r)
                              else ls_heap st r),
              ls_tasks := []\<rparr>"
  using assms
proof (induction ts arbitrary: st)
  case Nil
  then show ?case by simp
next
  case (Cons t ts)
  let ?st' = "st\<lparr>ls_heap := (ls_heap st)(tk_obj t := fetchDepartureDetails_obj env (ls_heap st (tk_obj t))),
                 ls_tasks := ts\<rparr>"
  have s: "settle env 0 st = ?st'"
    using Cons.prems by (intro settle_head) auto
  have IH: "settle_all env (length ts) ?st' =
              ?st'\<lparr>ls_heap := (\<lambda>r. if r \<in> tk_obj ` set ts then fetchDepartureDetails_obj env (ls_heap ?st' r)
                                  else ls_heap ?st' r), ls_tasks := []\<rparr>"
    using Cons.prems by (intro Cons.IH) auto
  have "tk_obj t \<notin> tk_obj ` set ts" using Cons.prems(3) by simp
  then have "(\<lambda>r. if r \<in> tk_obj ` set ts then fetchDepartureDetails_obj env (ls_heap ?st' r) else ls_heap ?st' r)
           = (\<lambda>r. if r \<in> tk_obj ` set (t # ts) then fetchDepartureDetails_obj env (ls_heap st r) else ls_heap st r)"
    by (auto simp: fun_eq_iff)
  with s IH show ?case by simp
qed

lemma concat_disjoint:
  assumes "distinct (concat (map (\<lambda>(p, a). f a) ps))" and "distinct (map snd ps)"
    and "(p, a) \<in> set ps" and "(q, b) \<in> set ps" and "a \<noteq> b"
  shows "set (f a) \<inter> set (f b) = {}"
  using assms
proof (induction ps)
  case (Cons x ps)
  obtain p' a' where x: "x = (p', a')" by fastforce
  have sub: "(r, c) \<in> set ps \<Longrightarrow> set (f c) \<subseteq> set (concat (map (\<lambda>(p, a). f a) ps))" for r c
    by force
  have dis: "set (f a') \<inter> set (concat (map (\<lambda>(p, a). f a) ps)) = {}"
    using Cons.prems(1) by (simp add: x)
  consider "(p, a) = x" "(q, b) \<in> set ps" | "(q, b) = x" "(p, a) \<in> set ps"
    | "(p, a) \<in> set ps" "(q, b) \<in> set ps" | "(p, a) = x" "(q, b) = x"
    using Cons.prems(3,4) by auto
  then show ?case
  proof cases
    case 1
    then show ?thesis using dis sub [OF 1(2)] by (auto simp: x)
  next
    case 2
    then show ?thesis using dis sub [OF 2(2)] by (auto simp: x)
  next
    case 3
    then show ?thesis using Cons by (simp add: x)
  next
    case 4
    then show ?thesis using Cons.prems(5) by auto
  qed
qed simp

lemma concat_drop_distinct:
  assumes "distinct (concat (map (\<lambda>(p, a). f a) ps))"
    and "\<forall>(p, a) \<in> set ps. \<exists>k. g a = drop k (f a)"
  shows "distinct (concat (map (\<lambda>(p, a). g a) ps))"
  using assms
proof (induction ps)
  case (Cons x ps)
  obtain p a where x: "x = (p, a)" by fastforce
  obtain k where k: "g a = drop k (f a)" using Cons.prems(2) by (auto simp: x)
  have G: "set (concat (map (\<lambda>(p, a). g a) ps)) \<subseteq> set (concat (map (\<lambda>(p, a). f a) ps))"
    using Cons.prems(2) by (force dest!: in_set_dropD)
  have A: "set (g a) \<subseteq> set (f a)" using k by (auto dest: in_set_dropD)
  have F: "set (f a) \<inter> set (concat (map (\<lambda>(p, a). f a) ps)) = {}"
    using Cons.prems(1) by (simp add: x)
  have "set (g a) \<inter> set (concat (map (\<lambda>(p, a). g a) ps)) = {}"
    using G A F by blast
  moreover have "distinct (g a)" using k Cons.prems(1) by (simp add: x)
  moreover have "distinct (concat (map (\<lambda>(p, a). g a) ps))" using Cons by (simp add: x)
  ultimately show ?case by (simp add: x)
qed simp

lemma tick_tasks_set:
  "t \<in> set (tick_tasks now st ps) \<longleftrightarrow>
   (\<exists>p a i r. (p, a) \<in> set ps \<and> tick_decision now (ls_heap st) (ls_arrays st a) = TEnrich i r
              \<and> t = \<lparr>tk_platform = p, tk_array = a, tk_index = i, tk_obj = r\<rparr>)"
  by (auto simp: tick_tasks_def split: tick_action.splits)

lemma tick_tasks_distinct:
  assumes "distinct (concat (map (\<lambda>(p, a). ls_arrays st a) ps))" and "distinct (map snd ps)"
  shows "distinct (map tk_obj (tick_tasks now st ps))"
  using assms
proof (induction ps)
  case (Cons x ps)
  obtain p a where x: "x = (p, a)" by fastforce
  have rest: "r \<in> tk_obj ` set (tick_tasks now st ps) \<Longrightarrow> Some r \<in> set (concat (map (\<lambda>(p, a). ls_arrays st a) ps))"
    for r
  proof -
    assume "r \<in> tk_obj ` set (tick_tasks now st ps)"
    then obtain q b i where qb: "(q, b) \<in> set ps"
      and "tick_decision now (ls_heap st) (ls_arrays st b) = TEnrich i r"
      by (auto simp: tick_tasks_set)
    then have "i < length (ls_arrays st b)" "ls_arrays st b ! i = Some r"
      using tick_decision_TEnrich by blast+
    then have "Some r \<in> set (ls_arrays st b)" by (metis nth_mem)
    with qb show ?thesis by force
  qed
  show ?case
  proof (cases "tick_decision now (ls_heap st) (ls_arrays st a)")
    case (TEnrich i r)
    then have "i < length (ls_arrays st a)" "ls_arrays st a ! i = Some r"
      using tick_decision_TEnrich by blast+
    then have "Some r \<in> set (ls_arrays st a)" by (metis nth_mem)
    then have "r \<notin> tk_obj ` set (tick_tasks now st ps)"
      using Cons.prems(1) rest by (fastforce simp: x)
    with Cons TEnrich show ?thesis by (simp add: x tick_tasks_def)
  qed (use Cons in \<open>simp_all add: x tick_tasks_def\<close>)
qed (simp add: tick_tasks_def)

lemma concat_member_distinct:
  "distinct (concat (map (\<lambda>(p, a). f a) ps)) \<Longrightarrow> (p, a) \<in> set ps \<Longrightarrow> distinct (f a)"
  by (induction ps) auto

lemma in_set_tl_imp: "x \<in> set (tl xs) \<Longrightarrow> x \<in> set xs"
  by (cases xs) auto

lemma map_Some_the: "None \<notin> set xs \<Longrightarrow> map Some (map the xs) = xs"
  by (induction xs) auto

lemma tick_task_objs:
  assumes "live_ok st" and "(p, a) \<in> set (ls_departures st)"
    and "Some r \<in> set (ls_arrays st a)"
  shows "r \<in> tk_obj ` set (tick_tasks now st (ls_departures st)) \<longleftrightarrow>
         (\<exists>i. tick_decision now (ls_heap st) (ls_arrays st a) = TEnrich i r)"
proof
  assume "r \<in> tk_obj ` set (tick_tasks now st (ls_departures st))"
  then obtain q b i where qb: "(q, b) \<in> set (ls_departures st)"
    and d: "tick_decision now (ls_heap st) (ls_arrays st b) = TEnrich i r"
    by (auto simp: tick_tasks_set)
  then have "i < length (ls_arrays st b)" "ls_arrays st b ! i = Some r"
    using tick_decision_TEnrich by blast+
  then have rb: "Some r \<in> set (ls_arrays st b)" by (metis nth_mem)
  have "b = a"
  proof (rule ccontr)
    assume "b \<noteq> a"
    then have "set (ls_arrays st a) \<inter> set (ls_arrays st b) = {}"
      using assms(1,2) qb concat_disjoint [of "ls_arrays st" "ls_departures st"]
      by (auto simp: live_ok_def live_refs_def)
    with assms(3) rb show False by blast
  qed
  with d show "\<exists>i. tick_decision now (ls_heap st) (ls_arrays st a) = TEnrich i r" by blast
next
  assume "\<exists>i. tick_decision now (ls_heap st) (ls_arrays st a) = TEnrich i r"
  with assms(2) show "r \<in> tk_obj ` set (tick_tasks now st (ls_departures st))"
    by (force simp: tick_tasks_set)
qed

subsection \<open>Enrichment settling before the next step\<close>

text \<open>
  C9: when every enrichment a tick starts settles before anything else happens,
  the live board refines the board of PID_Board: starting from a published board
  without holes or shared objects and no pending enrichment, a tick that does not throw
  followed by the settling of its enrichments leaves the board the atomic tick computes,
  again without holes, shared objects or pending enrichments.
\<close>

theorem tick_settle_refines:
  assumes ok: "live_ok st" and nt: "ls_tasks st = []" and t: "tick_live now st = (st1, None)"
  shows "live_board (settle_all env (length (ls_tasks st1)) st1) = fst (tick env now (live_board st))
         \<and> live_ok (settle_all env (length (ls_tasks st1)) st1)
         \<and> ls_tasks (settle_all env (length (ls_tasks st1)) st1) = []"
proof -
  let ?ps = "ls_departures st" and ?h = "ls_heap st"
  let ?D = "\<lambda>a. tick_decision now ?h (ls_arrays st a)"
  let ?T = "tick_tasks now st ?ps"
  have dps: "distinct (map snd ?ps)" and nohole: "None \<notin> set (live_refs st)"
    and dref: "distinct (live_refs st)"
    using ok by (simp_all add: live_ok_def)
  note A = tick_live_go_None [OF t [unfolded tick_live_def] dps]
  have T: "ls_tasks st1 = ?T" using A nt by simp
  have pre: "\<forall>t \<in> set ?T. tk_index t < length (ls_arrays st1 (tk_array t))
                           \<and> ls_arrays st1 (tk_array t) ! tk_index t = Some (tk_obj t)"
  proof
    fix t assume "t \<in> set ?T"
    then obtain p a i r where "(p, a) \<in> set ?ps" and d: "?D a = TEnrich i r"
      and tt: "t = \<lparr>tk_platform = p, tk_array = a, tk_index = i, tk_obj = r\<rparr>"
      by (auto simp: tick_tasks_set)
    moreover have "ls_arrays st1 a = ls_arrays st a" using A d by simp
    ultimately show "tk_index t < length (ls_arrays st1 (tk_array t))
                     \<and> ls_arrays st1 (tk_array t) ! tk_index t = Some (tk_obj t)"
      using tick_decision_TEnrich [OF d] by simp
  qed
  have dobj: "distinct (map tk_obj ?T)"
    using tick_tasks_distinct [of st ?ps now] dref dps by (simp add: live_refs_def)
  have B: "settle_all env (length (ls_tasks st1)) st1 =
             st1\<lparr>ls_heap := (\<lambda>r. if r \<in> tk_obj ` set ?T then fetchDepartureDetails_obj env (?h r) else ?h r),
                 ls_tasks := []\<rparr>"
  proof -
    have hp: "ls_heap st1 = ls_heap st" using A by simp
    show ?thesis using settle_all_tasks [OF T pre dobj, of env] by (simp only: T hp)
  qed
  let ?h2 = "\<lambda>r. if r \<in> tk_obj ` set ?T then fetchDepartureDetails_obj env (?h r) else ?h r"
  have plat: "map (\<lambda>x. ?h2 (the x)) (ls_arrays st1 a)
                = fst (tick_platform env now (map (\<lambda>x. ?h (the x)) (ls_arrays st a)))"
    if pa: "(p, a) \<in> set ?ps" for p a
  proof -
    have nh: "None \<notin> set (ls_arrays st a)" using nohole pa by (force simp: live_refs_def)
    obtain os where arr: "ls_arrays st a = map Some os"
      using map_Some_the [OF nh] by metis
    have dos: "distinct os"
      using concat_member_distinct [of "ls_arrays st" ?ps p a] dref pa arr
      by (simp add: live_refs_def distinct_map)
    have hmap: "map (\<lambda>x. ?h (the x)) (ls_arrays st a) = map ?h os" by (simp add: arr)
    have objs: "r \<in> tk_obj ` set ?T \<longleftrightarrow> (\<exists>i. ?D a = TEnrich i r)" if "r \<in> set os" for r
    proof -
      have "Some r \<in> set (ls_arrays st a)" using that by (simp add: arr)
      then show ?thesis using tick_task_objs [OF ok pa] by blast
    qed
    have a1: "ls_arrays st1 a = (if ?D a = TShift then tl (ls_arrays st a) else ls_arrays st a)"
      using A pa by force
    have tp: "fst (tick_platform env now (map ?h os)) =
                (case ?D a of TShift \<Rightarrow> map ?h (tl os)
                 | TEnrich i r \<Rightarrow> (map ?h os)[i := fetchDepartureDetails_obj env (?h r)]
                 | _ \<Rightarrow> map ?h os)"
      using tick_platform_map [of env now ?h os] by (simp add: arr)
    show ?thesis
    proof (cases "?D a")
      case TKeep
      have "map (\<lambda>x. ?h2 (the x)) (ls_arrays st1 a) = map ?h2 os" using TKeep a1 arr by simp
      also have "\<dots> = map ?h os" using objs TKeep by (auto intro!: map_cong)
      also have "\<dots> = fst (tick_platform env now (map (\<lambda>x. ?h (the x)) (ls_arrays st a)))"
        using TKeep tp hmap by simp
      finally show ?thesis .
    next
      case TShift
      have "map (\<lambda>x. ?h2 (the x)) (ls_arrays st1 a) = map ?h2 (tl os)" using TShift a1 arr by (simp add: map_tl comp_def cong: if_cong)
      also have "\<dots> = map ?h (tl os)"
      proof (rule map_cong)
        fix x assume "x \<in> set (tl os)"
        then have "x \<in> set os" by (rule in_set_tl_imp)
        with objs TShift show "?h2 x = ?h x" by auto
      qed simp
      also have "\<dots> = fst (tick_platform env now (map (\<lambda>x. ?h (the x)) (ls_arrays st a)))"
        using TShift tp hmap by simp
      finally show ?thesis .
    next
      case (TEnrich i r)
      have e: "i < length os \<and> map Some os ! i = Some r"
        using tick_decision_TEnrich [OF TEnrich] by (simp add: arr)
      then have ir: "i < length os" "os ! i = r" using nth_map [of i os Some] by auto
      have "map ?h2 os = map (?h(r := fetchDepartureDetails_obj env (?h r))) os"
        using objs TEnrich by (auto intro!: map_cong)
      also have "\<dots> = (map ?h os)[i := fetchDepartureDetails_obj env (?h r)]"
        using map_update_distinct [OF dos ir(1), of ?h "fetchDepartureDetails_obj env (?h r)"]
        unfolding ir(2) by (rule sym)
      finally show ?thesis using TEnrich a1 hmap tp by (simp add: arr comp_def cong: if_cong)
    next
      case (TFail e)
      then show ?thesis using A pa by auto
    qed
  qed
  have board: "live_board (settle_all env (length (ls_tasks st1)) st1) = fst (tick env now (live_board st))"
    using plat A B by (auto simp: live_board_def tick_fst intro!: map_cong)
  have "live_ok (settle_all env (length (ls_tasks st1)) st1)"
  proof -
    have drop: "\<forall>(p, a) \<in> set ?ps. \<exists>k. ls_arrays st1 a = drop k (ls_arrays st a)"
      using A by (auto simp: drop_Suc intro: exI [of _ 1] exI [of _ 0])
    have "set (live_refs st1) \<subseteq> set (live_refs st)"
    proof
      fix x assume "x \<in> set (live_refs st1)"
      then obtain p a where pa: "(p, a) \<in> set ?ps" and x: "x \<in> set (ls_arrays st1 a)"
        using A by (auto simp: live_refs_def)
      then have "x \<in> set (ls_arrays st a)" using A by (auto split: if_splits dest: in_set_tl_imp)
      with pa show "x \<in> set (live_refs st)" by (force simp: live_refs_def)
    qed
    moreover have "distinct (live_refs st1)"
      using concat_drop_distinct [OF _ drop] dref A by (simp add: live_refs_def)
    ultimately have "live_ok st1" using A dps nohole by (auto simp: live_ok_def)
    then show ?thesis using B by (simp add: live_ok_def live_refs_def)
  qed
  with board B show ?thesis by simp
qed

theorem tick_settle_refines_witness:
  "live_board (settle_all (ex_env (StationNumber 1000))
                 (length (ls_tasks (fst (tick_live 600000 ex_live)))) (fst (tick_live 600000 ex_live)))
     = fst (tick (ex_env (StationNumber 1000)) 600000 (live_board ex_live))"
proof -
  have ok: "live_ok ex_live" by (simp add: live_ok_def live_refs_def ex_live_def)
  have nt: "ls_tasks ex_live = []" by (simp add: ex_live_def)
  have t: "tick_live 600000 ex_live = (fst (tick_live 600000 ex_live), None)"
    by (simp add: tick_live_def tick_array_def tick_decision_def ex_live_def)
  show ?thesis using tick_settle_refines [OF ok nt t] by blast
qed

lemma tick_decision_TEnrich_le: "tick_decision now h arr = TEnrich i r \<Longrightarrow> i \<le> 3"
  by (auto simp: tick_decision_def Let_def split: if_splits option.splits)

lemma tick_array_frame:
  assumes "tick_array now st p a = Inr st'"
  shows "ls_heap st' = ls_heap st \<and> ls_departures st' = ls_departures st
         \<and> (\<forall>b. length (ls_arrays st' b) \<le> length (ls_arrays st b))
         \<and> (\<exists>ns. ls_tasks st' = ls_tasks st @ ns \<and> (\<forall>t \<in> set ns. tk_index t \<le> 3))"
proof -
  note one = tick_array_Inr [OF assms]
  have "\<forall>t \<in> set (tick_tasks now st [(p, a)]). tk_index t \<le> 3"
    using tick_decision_TEnrich_le by (fastforce simp: tick_tasks_set)
  with one show ?thesis by auto
qed

lemma tick_live_go_frame:
  assumes "tick_live_go now ps st = (st', e)"
  shows "ls_heap st' = ls_heap st \<and> ls_departures st' = ls_departures st
         \<and> (\<forall>b. length (ls_arrays st' b) \<le> length (ls_arrays st b))
         \<and> (\<exists>ns. ls_tasks st' = ls_tasks st @ ns \<and> (\<forall>t \<in> set ns. tk_index t \<le> 3))"
  using assms
proof (induction ps arbitrary: st)
  case (Cons pa ps)
  obtain p a where pa: "pa = (p, a)" by fastforce
  show ?case
  proof (cases "tick_array now st p a")
    case (Inl e')
    then show ?thesis using Cons.prems by (simp add: pa)
  next
    case (Inr st1)
    note f1 = tick_array_frame [OF Inr]
    have "tick_live_go now ps st1 = (st', e)" using Cons.prems Inr by (simp add: pa)
    note f2 = Cons.IH [OF this]
    from f1 f2 show ?thesis by (fastforce intro: le_trans)
  qed
qed simp

lemma settle_frame:
  assumes "k < length (ls_tasks st)" and "\<forall>t \<in> set (ls_tasks st). tk_index t \<le> 3"
  shows "ls_departures (settle env k st) = ls_departures st
         \<and> (\<forall>t \<in> set (ls_tasks (settle env k st)). tk_index t \<le> 3)
         \<and> (\<forall>a. length (ls_arrays (settle env k st) a) \<le> max 4 (length (ls_arrays st a)))
         \<and> (\<forall>r. dep_type (ls_heap (settle env k st) r) = dep_type (ls_heap st r)
                \<and> dep_run (ls_heap (settle env k st) r) = dep_run (ls_heap st r)
                \<and> dep_time (ls_heap (settle env k st) r) = dep_time (ls_heap st r)
                \<and> dep_colour (ls_heap (settle env k st) r) = dep_colour (ls_heap st r))"
proof -
  let ?t = "ls_tasks st ! k"
  have i: "tk_index ?t \<le> 3" using assms by simp
  have w: "length (js_write xs (tk_index ?t) v) \<le> max 4 (length xs)" for xs :: "oref option list" and v
    using i by (simp add: js_write_def)
  have tasks: "set (take k (ls_tasks st) @ drop (Suc k) (ls_tasks st)) \<subseteq> set (ls_tasks st)"
    by (auto dest: in_set_takeD in_set_dropD)
  show ?thesis
    using assms(2) tasks w
    by (auto simp: settle_def Let_def split: sum.splits)
qed

lemma live_step_tick: "live_step st (fst (tick_live now st))"
  by (rule live_step.tick [of now st _ "snd (tick_live now st)"]) simp

lemma live_step_frame:
  assumes "live_step st st'" and "\<forall>t \<in> set (ls_tasks st). tk_index t \<le> 3"
  shows "ls_departures st' = ls_departures st
         \<and> (\<forall>t \<in> set (ls_tasks st'). tk_index t \<le> 3)
         \<and> (\<forall>a. length (ls_arrays st' a) \<le> max 4 (length (ls_arrays st a)))
         \<and> (\<forall>r. dep_type (ls_heap st' r) = dep_type (ls_heap st r)
                \<and> dep_run (ls_heap st' r) = dep_run (ls_heap st r)
                \<and> dep_time (ls_heap st' r) = dep_time (ls_heap st r)
                \<and> dep_colour (ls_heap st' r) = dep_colour (ls_heap st r))"
  using assms
proof (induction rule: live_step.induct)
  case (tick now st st' err)
  note f = tick_live_go_frame [OF tick.hyps [unfolded tick_live_def]]
  from f tick.prems show ?case by (fastforce intro: le_trans)
next
  case (settle k st env)
  then show ?case by (rule settle_frame)
qed

lemma e104:
  "fetchDepartureDetails (ex_env (StationNumber 1000)) ((ex_dep ''104'' ''burnley'')\<lparr>dep_time := 660000\<rparr>)
     = Inr ((ex_resolved ''104'' ''burnley'' ''Flinders Street'' [1000, 1120, 1071])\<lparr>dep_time := 660000\<rparr>)"
  by (simp add: ex_eval_full)

lemma ex_dup_state_eq:
  "ex_dup_state =
     ex_live_dup\<lparr>ls_heap := (ls_heap ex_live_dup)(2 := (ex_resolved ''104'' ''burnley'' ''Flinders Street''
                                                        [1000, 1120, 1071])\<lparr>dep_time := 660000\<rparr>),
                 ls_arrays := (\<lambda>_. [])(0 := [Some 1, Some 2, Some 2])\<rparr>"
  using fetchDepartureDetails_obj_Inr [OF e104]
  by (simp add: ex_dup_state_def tick_live_def tick_array_def tick_decision_def ex_live_dup_def settle_def
      Let_def js_write_def e104)

lemma ex_hole_state_eq:
  "ex_hole_state =
     ex_live_hole\<lparr>ls_heap := (ls_heap ex_live_hole)(1 := (ex_resolved ''104'' ''burnley'' ''Flinders Street''
                                                          [1000, 1120, 1071])\<lparr>dep_time := 660000\<rparr>),
                  ls_arrays := (\<lambda>_. [])(0 := [None, Some 1])\<rparr>"
  using fetchDepartureDetails_obj_Inr [OF e104]
  by (simp add: ex_hole_state_def tick_live_def tick_array_def tick_decision_def ex_live_hole_def settle_def
      Let_def js_write_def e104)

lemma ex_dup_trace: "live_step\<^sup>*\<^sup>* ex_live_dup ex_dup_state"
proof -
  let ?s2 = "fst (tick_live 660000 (fst (tick_live 600000 ex_live_dup)))"
  have "0 < length (ls_tasks ?s2)"
    by (simp add: tick_live_def tick_array_def tick_decision_def ex_live_dup_def)
  then have "live_step ?s2 ex_dup_state"
    unfolding ex_dup_state_def by (rule live_step.settle)
  then show ?thesis
    by (meson live_step_tick rtranclp.rtrancl_into_rtrancl rtranclp.rtrancl_refl)
qed

lemma ex_hole_trace: "live_step\<^sup>*\<^sup>* ex_live_hole ex_hole_state"
proof -
  let ?s3 = "fst (tick_live 720000 (fst (tick_live 660000 (fst (tick_live 600000 ex_live_hole)))))"
  have "0 < length (ls_tasks ?s3)"
    by (simp add: tick_live_def tick_array_def tick_decision_def ex_live_hole_def)
  then have "live_step ?s3 ex_hole_state"
    unfolding ex_hole_state_def by (rule live_step.settle)
  then show ?thesis
    by (meson live_step_tick rtranclp.rtrancl_into_rtrancl rtranclp.rtrancl_refl)
qed

lemma js_write_not_distinct:
  assumes "j < length xs" and "xs ! j = Some v" and "j \<noteq> i"
  shows "\<not> distinct (js_write xs i v)"
proof (cases "i < length xs")
  case True
  let ?ys = "xs[i := Some v]"
  have "?ys ! i = Some v" "?ys ! j = Some v" "i < length ?ys" "j < length ?ys"
    using True assms by auto
  then have "\<not> distinct ?ys" using assms(3) by (metis nth_eq_iff_index_eq)
  then show ?thesis using True by (simp add: js_write_def)
next
  case False
  have "Some v \<in> set xs" using assms(1,2) by (metis nth_mem)
  then show ?thesis using False by (simp add: js_write_def)
qed

lemma js_write_loses:
  assumes "distinct xs" and "i < length xs" and "xs ! i \<noteq> Some v"
  shows "xs ! i \<notin> set (js_write xs i v)"
  using assms by (simp add: js_write_def set_update_distinct)

lemma js_write_hd:
  "xs \<noteq> [] \<Longrightarrow> 1 \<le> i \<Longrightarrow> js_write xs i v \<noteq> [] \<and> hd (js_write xs i v) = hd xs"
  by (cases xs; cases i) (auto simp: js_write_def)

lemma settle_Inr:
  assumes "t = ls_tasks st ! k" and "fetchDepartureDetails env (ls_heap st (tk_obj t)) = Inr d"
  shows "ls_arrays (settle env k st) (tk_array t) = js_write (ls_arrays st (tk_array t)) (tk_index t) (tk_obj t)
         \<and> ls_departures (settle env k st) = ls_departures st"
  using assms by (simp add: settle_def Let_def)

lemma tick_decision_hole:
  "arr \<noteq> [] \<Longrightarrow> hd arr = None \<Longrightarrow> tick_decision now h arr = TFail (TypeError ''platform[0].time'')"
  by (simp add: tick_decision_def)

lemma tick_decision_TEnrich_pos: "tick_decision now h arr = TEnrich i r \<Longrightarrow> 1 \<le> i"
  by (auto simp: tick_decision_def Let_def split: if_splits option.splits)

text \<open>A hole at the head of an array, with no pending write at index 0, survives a tick.\<close>

lemma tick_live_go_hole:
  assumes "tick_live_go now ps st = (st', e)"
    and "ls_arrays st a \<noteq> []" and "hd (ls_arrays st a) = None"
    and "\<forall>t \<in> set (ls_tasks st). 1 \<le> tk_index t"
  shows "ls_arrays st' a = ls_arrays st a \<and> ls_departures st' = ls_departures st
         \<and> (\<forall>t \<in> set (ls_tasks st'). 1 \<le> tk_index t) \<and> (a \<in> snd ` set ps \<longrightarrow> e \<noteq> None)"
  using assms
proof (induction ps arbitrary: st)
  case (Cons pb ps)
  obtain p b where pb: "pb = (p, b)" by fastforce
  show ?case
  proof (cases "tick_array now st p b")
    case (Inl e')
    then show ?thesis using Cons.prems(1,4) by (auto simp: pb)
  next
    case (Inr st1)
    note one = tick_array_Inr [OF Inr]
    have ba: "b \<noteq> a"
      using one tick_decision_hole [OF Cons.prems(2,3)] by auto
    have arr: "ls_arrays st1 a = ls_arrays st a" using one ba by simp
    have "\<forall>t \<in> set (ls_tasks st1). 1 \<le> tk_index t"
      using one Cons.prems(4) tick_decision_TEnrich_pos by (auto simp: tick_tasks_set)
    moreover have "tick_live_go now ps st1 = (st', e)" using Cons.prems(1) Inr by (simp add: pb)
    ultimately have "ls_arrays st' a = ls_arrays st1 a \<and> ls_departures st' = ls_departures st1
         \<and> (\<forall>t \<in> set (ls_tasks st'). 1 \<le> tk_index t) \<and> (a \<in> snd ` set ps \<longrightarrow> e \<noteq> None)"
      using Cons.IH Cons.prems(2,3) arr by simp
    then show ?thesis using arr one ba by (simp add: pb)
  qed
qed simp

lemma live_step_hole:
  assumes "live_step st st'"
    and "ls_arrays st a \<noteq> []" and "hd (ls_arrays st a) = None"
    and "\<forall>t \<in> set (ls_tasks st). 1 \<le> tk_index t"
  shows "ls_arrays st' a \<noteq> [] \<and> hd (ls_arrays st' a) = None \<and> ls_departures st' = ls_departures st
         \<and> (\<forall>t \<in> set (ls_tasks st'). 1 \<le> tk_index t)"
  using assms
proof (induction rule: live_step.induct)
  case (tick now st st' err)
  then show ?case using tick_live_go_hole [of now "ls_departures st" st st' err a]
    by (simp add: tick_live_def)
next
  case (settle k st env)
  let ?t = "ls_tasks st ! k"
  have i: "1 \<le> tk_index ?t" using settle by simp
  have tasks: "set (take k (ls_tasks st) @ drop (Suc k) (ls_tasks st)) \<subseteq> set (ls_tasks st)"
    by (auto dest: in_set_takeD in_set_dropD)
  have "ls_arrays (settle env k st) a = ls_arrays st a
        \<or> ls_arrays (settle env k st) a = js_write (ls_arrays st a) (tk_index ?t) (tk_obj ?t)"
    by (auto simp: settle_def Let_def split: sum.splits)
  then show ?case
    using settle.prems tasks js_write_hd [OF settle.prems(1) i]
    by (auto simp: settle_def Let_def split: sum.splits)
qed

subsection \<open>Any interleaving\<close>

text \<open>
  C35: under any interleaving of ticks and settling enrichments, the published
  platform keys stay, every pending enrichment targets an index of at most 3, no array
  grows beyond four entries or its former length, and no departure's type, run, time or
  group ever changes.
\<close>

theorem live_steps_frame:
  assumes "live_step\<^sup>*\<^sup>* st0 st" and "\<forall>t \<in> set (ls_tasks st0). tk_index t \<le> 3"
  shows "ls_departures st = ls_departures st0
         \<and> (\<forall>t \<in> set (ls_tasks st). tk_index t \<le> 3)
         \<and> (\<forall>a. length (ls_arrays st a) \<le> max 4 (length (ls_arrays st0 a)))
         \<and> (\<forall>r. dep_type (ls_heap st r) = dep_type (ls_heap st0 r)
                \<and> dep_run (ls_heap st r) = dep_run (ls_heap st0 r)
                \<and> dep_time (ls_heap st r) = dep_time (ls_heap st0 r)
                \<and> dep_colour (ls_heap st r) = dep_colour (ls_heap st0 r))"
  using assms(1)
proof (induction rule: rtranclp_induct)
  case base
  then show ?case using assms(2) by simp
next
  case (step st st')
  note f = live_step_frame [OF step.hyps(2)] 
  from step.IH f show ?case by (fastforce intro: le_trans)
qed

theorem live_steps_frame_witness:
  "length (ls_arrays ex_hole_state 0) \<le> max 4 (length (ls_arrays ex_live_hole 0))
   \<and> dep_time (ls_heap ex_hole_state 1) = 660000"
proof -
  have "\<forall>t \<in> set (ls_tasks ex_live_hole). tk_index t \<le> 3" by (simp add: ex_live_hole_def)
  note f = live_steps_frame [OF ex_hole_trace this]
  have "dep_time (ls_heap ex_live_hole 1) = 660000" by (simp add: ex_live_hole_def ex_dep_def)
  with f show ?thesis by simp
qed

text \<open>
  C36: the enrichment writes its result back at the index the tick saw
  (line 313), not where the departure is now. Whenever a pending enrichment resolves
  while its departure stands at another position of the same published array (after a
  \<open>shift\<close> has moved it), settling leaves the queues holding the same object twice,
  and, when the stale index is still inside the array, the departure that stood there
  is lost from it. The specification requires each run at most once per platform.
\<close>

theorem settle_stale_index:
  assumes "live_ok st" and "k < length (ls_tasks st)" and "t = ls_tasks st ! k"
    and "(p, tk_array t) \<in> set (ls_departures st)"
    and "fetchDepartureDetails env (ls_heap st (tk_obj t)) = Inr d"
    and "j < length (ls_arrays st (tk_array t))" and "ls_arrays st (tk_array t) ! j = Some (tk_obj t)"
    and "j \<noteq> tk_index t"
  shows "\<not> live_ok (settle env k st)
         \<and> (tk_index t < length (ls_arrays st (tk_array t))
            \<longrightarrow> ls_arrays st (tk_array t) ! tk_index t \<notin> set (ls_arrays (settle env k st) (tk_array t)))"
proof -
  let ?arr = "ls_arrays st (tk_array t)"
  note s = settle_Inr [OF assms(3,5)]
  have nd: "\<not> distinct (ls_arrays (settle env k st) (tk_array t))"
    using js_write_not_distinct [OF assms(6-8)] s by simp
  have "\<not> live_ok (settle env k st)"
  proof
    assume "live_ok (settle env k st)"
    then have "distinct (live_refs (settle env k st))" by (simp add: live_ok_def)
    then show False
      using concat_member_distinct [of "ls_arrays (settle env k st)" "ls_departures st" p "tk_array t"]
        assms(4) s nd by (simp add: live_refs_def)
  qed
  moreover have "?arr ! tk_index t \<notin> set (ls_arrays (settle env k st) (tk_array t))"
    if i: "tk_index t < length ?arr"
  proof -
    have d: "distinct ?arr"
      using assms(1,4) concat_member_distinct [of "ls_arrays st" "ls_departures st" p "tk_array t"]
      by (simp add: live_ok_def live_refs_def)
    then have "?arr ! tk_index t \<noteq> Some (tk_obj t)"
      using assms(6-8) i by (metis nth_eq_iff_index_eq)
    then show ?thesis using js_write_loses [OF d i] s by simp
  qed
  ultimately show ?thesis by blast
qed

theorem settle_stale_index_witness:
  "live_ok ex_live_dup \<and> live_step\<^sup>*\<^sup>* ex_live_dup ex_dup_state \<and> \<not> live_ok ex_dup_state"
proof -
  let ?E = "ex_env (StationNumber 1000)"
  let ?s2 = "fst (tick_live 660000 (fst (tick_live 600000 ex_live_dup)))"
  let ?t = "\<lparr>tk_platform = ''1'', tk_array = 0, tk_index = 2, tk_obj = 2\<rparr>"
  have s2: "?s2 = ex_live_dup\<lparr>ls_arrays := (\<lambda>_. [])(0 := [Some 1, Some 2]), ls_tasks := [?t]\<rparr>"
    by (simp add: tick_live_def tick_array_def tick_decision_def ex_live_dup_def)
  have h1: "live_ok ?s2" unfolding s2 by (simp add: live_ok_def live_refs_def ex_live_dup_def)
  have h2: "0 < length (ls_tasks ?s2)" by (simp add: s2)
  have h3: "?t = ls_tasks ?s2 ! 0" by (simp add: s2)
  have h4: "(''1'', tk_array ?t) \<in> set (ls_departures ?s2)" unfolding s2 by (simp add: ex_live_dup_def)
  have h5: "fetchDepartureDetails ?E (ls_heap ?s2 (tk_obj ?t))
              = Inr ((ex_resolved ''104'' ''burnley'' ''Flinders Street'' [1000, 1120, 1071])\<lparr>dep_time := 660000\<rparr>)"
    using e104 unfolding s2 by (simp add: ex_live_dup_def)
  have h6: "1 < length (ls_arrays ?s2 (tk_array ?t))" by (simp add: s2)
  have h7: "ls_arrays ?s2 (tk_array ?t) ! 1 = Some (tk_obj ?t)" by (simp add: s2)
  have h8: "(1::nat) \<noteq> tk_index ?t" by simp
  have "\<not> live_ok (settle ?E 0 ?s2)"
    using settle_stale_index [OF h1 h2 h3 h4 h5 h6 h7 h8] by blast
  moreover have "live_ok ex_live_dup" by (simp add: live_ok_def live_refs_def ex_live_dup_def)
  ultimately show ?thesis using ex_dup_trace by (simp add: ex_dup_state_def)
qed

text \<open>
  C37: a hole at the head of a published array is permanent: under every
  interleaving of ticks and settling enrichments (none of which writes index 0, since a
  tick enriches at \<open>min(length - 1, 3)\<close> only when two services are queued), the head
  stays a hole, \<open>GET /departures/:plat\<close> answers 500, and every tick throws at
  \<open>platform[0].time\<close> before it completes, so no platform after this one is ever
  advanced again. Such a hole arises when a stale write lands past the end (\<open>settle_stale_index\<close>).
\<close>

theorem hole_at_head_persists:
  assumes "live_step\<^sup>*\<^sup>* st0 st" and "map_of (ls_departures st0) p = Some a"
    and "ls_arrays st0 a \<noteq> []" and "hd (ls_arrays st0 a) = None"
    and "\<forall>t \<in> set (ls_tasks st0). 1 \<le> tk_index t"
  shows "hd (ls_arrays st a) = None \<and> departures_plat_live st p = Http500 \<and> snd (tick_live now st) \<noteq> None"
proof -
  have inv: "ls_arrays st a \<noteq> [] \<and> hd (ls_arrays st a) = None \<and> ls_departures st = ls_departures st0
             \<and> (\<forall>t \<in> set (ls_tasks st). 1 \<le> tk_index t)"
    using assms(1)
  proof (induction rule: rtranclp_induct)
    case base
    then show ?case using assms(3-5) by simp
  next
    case (step st st')
    then show ?case using live_step_hole [of st st' a] by simp
  qed
  have m: "map_of (view st) p = Some (map (map_option (ls_heap st)) (ls_arrays st a))"
    using inv assms(2) by (simp add: view_def map_of_map)
  have "None \<in> set (take 3 (map (map_option (ls_heap st)) (ls_arrays st a)))"
    using inv by (cases "ls_arrays st a") auto
  then have "departures_plat_live st p = Http500"
    using m by (simp add: departures_plat_live_def)
  moreover have "a \<in> snd ` set (ls_departures st)"
    using inv assms(2) by (force dest: map_of_SomeD)
  then have "snd (tick_live now st) \<noteq> None"
    using inv tick_live_go_hole [of now "ls_departures st" st _ _ a] by (cases "tick_live now st") (auto simp: tick_live_def)
  ultimately show ?thesis using inv by blast
qed

theorem hole_at_head_persists_witness:
  "hd (ls_arrays (fst (tick_live 780000 ex_hole_state)) 0) = None
   \<and> departures_plat_live (fst (tick_live 780000 ex_hole_state)) ''1'' = Http500
   \<and> snd (tick_live 840000 (fst (tick_live 780000 ex_hole_state))) \<noteq> None"
proof -
  have h1: "live_step\<^sup>*\<^sup>* ex_hole_state (fst (tick_live 780000 ex_hole_state))"
    using live_step_tick by blast
  have h2: "map_of (ls_departures ex_hole_state) ''1'' = Some 0"
    by (simp add: ex_hole_state_eq ex_live_hole_def)
  have h3: "ls_arrays ex_hole_state 0 \<noteq> []" and h4: "hd (ls_arrays ex_hole_state 0) = None"
    by (simp_all add: ex_hole_state_eq)
  have h5: "\<forall>t \<in> set (ls_tasks ex_hole_state). 1 \<le> tk_index t"
    by (simp add: ex_hole_state_eq ex_live_hole_def)
  show ?thesis using hole_at_head_persists [OF h1 h2 h3 h4 h5, of 840000] by blast
qed

end
