(* ===== verification/PID_Client.thy ===== *)
theory PID_Client
  imports PID_Live
begin

text \<open>
  The display client, src/static/assets/js/pid.js: one browser page per platform that
  holds the services the server sent (\<open>pidData\<close>), renders the first of them with its
  stations and the next two in side panels (\<open>updateInfo\<close>), counts down every second
  and drops a departed service, fetching its replacement from the server
  (\<open>updateClock\<close>), and reacts to the server's push messages (\<open>ws.onmessage\<close>). A
  service is the JSON object the server's read endpoints and push channel send
  (\<open>to_service\<close>); the page's elements are a record of the strings written into them.
  Times are printed in one fixed civil time zone, \<open>tz\<close> milliseconds from UTC.
\<close>

subsection \<open>Services as the client receives them\<close>

record service =
  sv_type :: route_type
  sv_run :: run_ref
  sv_time :: millis
  sv_dest :: "string option"          \<comment> \<open>dropped by \<open>JSON.stringify\<close> when undefined\<close>
  sv_subtitle :: "string option"
  sv_group :: "string option"
  sv_stations :: "stop list option"
  sv_timeText :: "string option"      \<comment> \<open>added by the client\<close>

text \<open>
  The object the server serialises for a departure (src/app.js lines 63--71, repeated
  at 82--90, 102--110 and 332--340): \<open>group\<close> is the departure's colour.
\<close>

definition to_service :: "departure \<Rightarrow> service" where
  "to_service d =
     \<lparr>sv_type = dep_type d, sv_run = dep_run d, sv_time = dep_time d, sv_dest = dep_dest d,
      sv_subtitle = dep_subtitle d, sv_group = dep_colour d, sv_stations = dep_stations d,
      sv_timeText = None\<rparr>"

subsection \<open>Printing a time\<close>

text \<open>
  \<open>n.toString()\<close> for a non-negative integer, \<open>padStart(2, '0')\<close>, and the reading of
  a decimal digit string back, used to state what the printed time says.
\<close>

fun dec_string :: "nat \<Rightarrow> string" where
  "dec_string n =
     (if n < 10 then [char_of (48 + n)] else dec_string (n div 10) @ [char_of (48 + n mod 10)])"

definition pad_start2 :: "string \<Rightarrow> string" where
  "pad_start2 s = replicate (2 - length s) (CHR ''0'') @ s"

definition dec_val :: "string \<Rightarrow> nat" where
  "dec_val s = foldl (\<lambda>a c. 10 * a + (of_char c - 48)) 0 s"

text \<open>\<open>getHours\<close>, \<open>getMinutes\<close> and \<open>getSeconds\<close> of \<open>new Date(t)\<close> in the zone \<open>tz\<close>.\<close>

definition local_hours :: "millis \<Rightarrow> millis \<Rightarrow> nat" where
  "local_hours tz t = nat (((t + tz) div 3600000) mod 24)"

definition local_minutes :: "millis \<Rightarrow> millis \<Rightarrow> nat" where
  "local_minutes tz t = nat (((t + tz) div 60000) mod 60)"

definition local_seconds :: "millis \<Rightarrow> millis \<Rightarrow> nat" where
  "local_seconds tz t = nat (((t + tz) div 1000) mod 60)"

text \<open>\<open>printTime(time, sec)\<close>, lines 5--13: a twelve-hour clock with \<open>am\<close> or \<open>pm\<close>.\<close>

definition printTime :: "millis \<Rightarrow> millis \<Rightarrow> bool \<Rightarrow> string" where
  "printTime tz time sec =
     (let h = local_hours tz time;
          hr0 = h mod 12; hr12 = (if hr0 = 0 then 12 else hr0);
          ampm = (if 12 \<le> h then ''pm'' else ''am'');
          timeStr = dec_string hr12 @ '':'' @ pad_start2 (dec_string (local_minutes tz time));
          timeStr = (if sec then timeStr @ '':'' @ pad_start2 (dec_string (local_seconds tz time))
                     else timeStr)
      in timeStr @ '' '' @ ampm)"

text \<open>\<open>printTime(t, false).replaceAll(' ', '')\<close>, the \<open>timeText\<close> of lines 84, 122 and 140.\<close>

definition time_text :: "millis \<Rightarrow> millis \<Rightarrow> string" where
  "time_text tz t = filter (\<lambda>c. c \<noteq> CHR '' '') (printTime tz t False)"

text \<open>The service with its \<open>timeText\<close> set (lines 84, 122 and 140).\<close>

definition stamp :: "millis \<Rightarrow> service \<Rightarrow> service" where
  "stamp tz s = s\<lparr>sv_timeText := Some (time_text tz (sv_time s))\<rparr>"

text \<open>
  What a reader of the display takes from a printed time: the hour on a 24-hour clock,
  the minute, and the second when shown. Spaces are ignored, so that it reads both
  \<open>printTime\<close> and \<open>timeText\<close>.
\<close>

definition read_time :: "string \<Rightarrow> (nat \<times> nat \<times> nat option) option" where
  "read_time s0 =
     (let s = filter (\<lambda>c. c \<noteq> CHR '' '') s0;
          hs = takeWhile (\<lambda>c. c \<noteq> CHR '':'') s; r = drop (Suc (length hs)) s;
          m = dec_val (take 2 r); r = drop 2 r;
          (sec, r) = (if take 1 r = '':'' then (Some (dec_val (take 2 (drop 1 r))), drop 3 r)
                      else (None, r))
      in if r = ''am'' then Some (dec_val hs mod 12, m, sec)
         else if r = ''pm'' then Some (dec_val hs mod 12 + 12, m, sec)
         else None)"

subsection \<open>The page\<close>

text \<open>
  The elements the client writes: the main panel (\<open>main\<close>'s class, \<open>announcement\<close>,
  \<open>time\<close>, \<open>dest\<close>, \<open>eta\<close>, \<open>subtitle\<close>, \<open>stations\<close>), the clock, the departing
  bar's class, and the two next-service panels. Writing \<open>undefined\<close> into an element
  shows the string \<open>undefined\<close> (\<open>js_text\<close>).
\<close>

record panel =
  pn_class :: string
  pn_time :: string
  pn_dest :: string
  pn_eta :: string
  pn_subtitle :: string

record page =
  pg_main_class :: string
  pg_announcement :: string
  pg_time :: string
  pg_dest :: string
  pg_eta :: string
  pg_subtitle :: string
  pg_stations :: string
  pg_clock :: string
  pg_depart_bar :: string
  pg_ns1 :: panel
  pg_ns2 :: panel

definition js_text :: "string option \<Rightarrow> string" where
  "js_text v = (case v of None \<Rightarrow> ''undefined'' | Some s \<Rightarrow> s)"

text \<open>The filter of lines 16 and 75: services departing within four hours and a minute.\<close>

definition shown :: "millis \<Rightarrow> service \<Rightarrow> bool" where
  "shown now s \<longleftrightarrow> sv_time s - now < (4 * 60 + 1) * 60 * 1000"

subsection \<open>The station columns of \<open>updateInfo\<close>\<close>

abbreviation apos :: char where
  "apos \<equiv> CHR 0x27"

text \<open>The list items of lines 37, 38 and 41.\<close>

definition station_li :: "stop \<Rightarrow> string" where
  "station_li st =
     ''<li class='' @ [apos] @ (if st_skipped st then ''skipped'' else []) @ [apos]
     @ ''><span>'' @ st_name st @ ''</span></li>''"

definition continue_li :: string where
  "continue_li = ''<li class='' @ [apos] @ ''continue'' @ [apos] @ ''><span>Continues to</span></li>''"

definition last_li :: "string \<Rightarrow> string" where
  "last_li name = ''<li><span>'' @ name @ ''</span></li>''"

text \<open>Line 31: seven rows per column, eight for more than 28 stations.\<close>

definition station_rows :: "stop list \<Rightarrow> nat" where
  "station_rows stations = (if 28 < length stations then 8 else 7)"

text \<open>
  The inner loop, lines 34--42: the rows of column \<open>col\<close>. At position \<open>4 * rows - 2\<close>
  of a list that does not fit four columns, the column ends with \<open>Continues to\<close> and the
  last station.
\<close>

function fill_column :: "stop list \<Rightarrow> nat \<Rightarrow> nat \<Rightarrow> nat \<Rightarrow> string \<Rightarrow> string" where
  "fill_column stations rows col row acc =
     (if row < rows \<and> col * rows + row < length stations then
        (let i = col * rows + row in
         if i = 4 * rows - 2 \<and> rows * 4 < length stations
         then acc @ continue_li @ last_li (st_name (stations ! (length stations - 1)))
         else fill_column stations rows col (Suc row) (acc @ station_li (stations ! i)))
      else acc)"
  by pat_completeness auto
termination
  by (relation "measure (\<lambda>(_, rows, _, row, _). rows - row)") auto

text \<open>The outer loop, lines 32--43: at most four columns.\<close>

function build_columns :: "stop list \<Rightarrow> nat \<Rightarrow> nat \<Rightarrow> string list \<Rightarrow> string list" where
  "build_columns stations rows col columns =
     (if real col < real (length stations) / real rows \<and> col < 4
      then build_columns stations rows (Suc col) (columns @ [fill_column stations rows col 0 []])
      else columns)"
  by pat_completeness auto
termination
  by (relation "measure (\<lambda>(_, _, col, _). 4 - col)") auto

definition station_columns :: "stop list \<Rightarrow> string list" where
  "station_columns stations = build_columns stations (station_rows stations) 0 []"

text \<open>Lines 44--48.\<close>

definition stations_html :: "stop list \<Rightarrow> string" where
  "stations_html stations =
     concat (map (\<lambda>col. ''<ul><div class=\"start\"></div>'' @ col @ ''<div class=\"end\"></div></ul>'')
                 (station_columns stations))"

text \<open>
  The layout the columns are meant to show: every station when they fit four columns,
  otherwise the first \<open>4 * rows - 2\<close>, then \<open>Continues to\<close> and the last station; cut
  into columns of \<open>rows\<close> items.
\<close>

definition layout_items :: "stop list \<Rightarrow> nat \<Rightarrow> string list" where
  "layout_items stations rows =
     (if rows * 4 < length stations
      then map station_li (take (4 * rows - 2) stations)
           @ [continue_li, last_li (st_name (last stations))]
      else map station_li stations)"

function chunks :: "nat \<Rightarrow> 'a list \<Rightarrow> 'a list list" where
  "chunks n xs = (if n = 0 \<or> xs = [] then [] else take n xs # chunks n (drop n xs))"
  by pat_completeness auto
termination
  by (relation "measure (\<lambda>(_, xs). length xs)") auto

subsection \<open>\<open>updateInfo\<close>\<close>

text \<open>The loop of lines 51--68: one next-service panel.\<close>

definition ns_panel :: "service list \<Rightarrow> nat \<Rightarrow> panel \<Rightarrow> panel" where
  "ns_panel data i p =
     (if length data \<le> i
      then p\<lparr>pn_class := ''next-service empty'', pn_time := [], pn_dest := ''--'',
             pn_eta := ''-- min'', pn_subtitle := ''--''\<rparr>
      else p\<lparr>pn_class := ''next-service '' @ js_text (sv_group (data ! i)),
             pn_time := js_text (sv_timeText (data ! i)), pn_dest := js_text (sv_dest (data ! i)),
             pn_subtitle := js_text (sv_subtitle (data ! i))\<rparr>)"

text \<open>
  \<open>updateInfo(data)\<close>, lines 15--69, at the time \<open>now\<close> of \<open>Date.now()\<close>. It returns the
  page and the exception it throws, if any: \<open>stations.length\<close> of a first service
  without stations (line 31) throws after the main panel has been written.
\<close>

definition updateInfo :: "millis \<Rightarrow> service list \<Rightarrow> page \<Rightarrow> page \<times> error option" where
  "updateInfo now data0 pg =
     (let data = filter (shown now) data0 in
      if data = [] then
        (pg\<lparr>pg_main_class := ''announcement'',
            pg_announcement := ''No trains departing from this platform''\<rparr>, None)
      else
        (let d = hd data;
             pg = pg\<lparr>pg_main_class := js_text (sv_group d), pg_time := js_text (sv_timeText d),
                     pg_dest := js_text (sv_dest d), pg_subtitle := js_text (sv_subtitle d)\<rparr>
         in case sv_stations d of
              None \<Rightarrow> (pg, Some (TypeError ''stations.length''))
            | Some stations \<Rightarrow>
                (pg\<lparr>pg_stations := stations_html stations,
                    pg_ns1 := ns_panel data 1 (pg_ns1 pg), pg_ns2 := ns_panel data 2 (pg_ns2 pg)\<rparr>,
                 None)))"

subsection \<open>\<open>updateClock\<close>\<close>

text \<open>The client's state: \<open>pidData\<close> and the page.\<close>

record client =
  cl_data :: "service list"
  cl_page :: page

text \<open>A page before the first render: every element empty.\<close>

definition blank_panel :: panel where
  "blank_panel = \<lparr>pn_class = [], pn_time = [], pn_dest = [], pn_eta = [], pn_subtitle = []\<rparr>"

definition blank_page :: page where
  "blank_page =
     \<lparr>pg_main_class = [], pg_announcement = [], pg_time = [], pg_dest = [], pg_eta = [],
      pg_subtitle = [], pg_stations = [], pg_clock = [], pg_depart_bar = [],
      pg_ns1 = blank_panel, pg_ns2 = blank_panel\<rparr>"

text \<open>Line 109: the element of the \<open>i\<close>-th countdown.\<close>

definition set_eta :: "nat \<Rightarrow> string \<Rightarrow> page \<Rightarrow> page" where
  "set_eta i txt pg =
     (if i = 0 then pg\<lparr>pg_eta := txt\<rparr>
      else if i = 1 then pg\<lparr>pg_ns1 := (pg_ns1 pg)\<lparr>pn_eta := txt\<rparr>\<rparr>
      else pg\<lparr>pg_ns2 := (pg_ns2 pg)\<lparr>pn_eta := txt\<rparr>\<rparr>)"

text \<open>
  The loop of lines 76--110 over the first three shown services: the countdown of each,
  the departing bar at 15 seconds past and the announcement at 30; it stops at the first
  service more than a minute past, reporting that one was found (line 78).
\<close>

fun clock_scan :: "millis \<Rightarrow> nat \<Rightarrow> service list \<Rightarrow> page \<Rightarrow> page \<times> bool" where
  "clock_scan now i [] pg = (pg, False)"
| "clock_scan now i (d # ds) pg =
     (let eta = real_of_int (sv_time d - now) / 1000 in
      if eta \<le> -60 then (pg\<lparr>pg_depart_bar := ''inactive''\<rparr>, True)
      else if eta \<le> 0 then
        (let secs = \<lfloor>- eta\<rfloor>;
             pg = (if secs = 15 then pg\<lparr>pg_depart_bar := []\<rparr>
                   else if secs = 30 then pg\<lparr>pg_main_class := ''announcement'',
                                             pg_announcement := ''Stand Clear Train Departing''\<rparr>
                   else pg)
         in clock_scan now (Suc i) ds (set_eta i ''NOW'' pg))
      else clock_scan now (Suc i) ds
             (set_eta i (dec_string (nat \<lceil>eta / 60\<rceil>) @ '' min'') pg))"

text \<open>
  One activation of \<open>updateClock\<close>, lines 71--111, with the request of line 83 answered
  by \<open>after\<close> (the server's \<open>/departures/PLATFORM/after/:run\<close>) before anything else runs.
  On a departed service: \<open>shift\<close>, and with fewer than three left the next service is
  requested after the last one; an empty list makes \<open>pidData[-1].run\<close> throw and a
  rejected request is caught, both logged only. \<open>updateInfo\<close> follows, and then the
  recursive call, which an exception of \<open>updateInfo\<close> skips. The result says whether
  \<open>updateClock\<close> calls itself again.
\<close>

definition clock_step ::
  "millis \<Rightarrow> millis \<Rightarrow> (run_ref \<Rightarrow> service http) \<Rightarrow> client \<Rightarrow> client \<times> bool"
where
  "clock_step tz now after st =
     (let pg = (cl_page st)\<lparr>pg_clock := printTime tz now True\<rparr>;
          data = filter (shown now) (cl_data st);
          (pg, departed) = clock_scan now 0 (take 3 data) pg
      in if \<not> departed then (st\<lparr>cl_page := pg\<rparr>, False)
         else
           (let pidData = tl (cl_data st);
                pidData = (if length pidData < 3 \<and> pidData \<noteq> []
                           then (case after (sv_run (last pidData)) of
                                   Http200 s \<Rightarrow> pidData @ [stamp tz s]
                                 | _ \<Rightarrow> pidData)
                           else pidData);
                (pg, err) = updateInfo now pidData pg
            in (\<lparr>cl_data = pidData, cl_page = pg\<rparr>, err = None)))"

text \<open>
  The chain of activations one \<open>updateClock\<close> starts, with at most \<open>fuel\<close> of them;
  \<open>None\<close> when the fuel runs out.
\<close>

fun updateClock ::
  "nat \<Rightarrow> millis \<Rightarrow> millis \<Rightarrow> (run_ref \<Rightarrow> service http) \<Rightarrow> client \<Rightarrow> client option"
where
  "updateClock 0 tz now after st = None"
| "updateClock (Suc fuel) tz now after st =
     (let (st', again) = clock_step tz now after st
      in if again then updateClock fuel tz now after st' else Some st')"

subsection \<open>Push messages and \<open>fetchData\<close>\<close>

text \<open>
  \<open>fetchData\<close>, lines 115--126, with the answer \<open>resp\<close> of \<open>GET /departures/PLATFORM\<close>:
  a 404 empties the list, another failure keeps it and is rethrown after the
  \<open>finally\<close> block, which stamps every service with its \<open>timeText\<close> and renders. The
  result carries the exception of \<open>updateInfo\<close>, which skips the call of \<open>updateClock\<close>.
\<close>

definition fetchData ::
  "millis \<Rightarrow> millis \<Rightarrow> service list http \<Rightarrow> client \<Rightarrow> client \<times> error option"
where
  "fetchData tz now resp st =
     (let pidData = (case resp of Http200 l \<Rightarrow> l | Http404 \<Rightarrow> [] | Http500 \<Rightarrow> cl_data st);
          pidData = map (stamp tz) pidData;
          (pg, err) = updateInfo now pidData (cl_page st)
      in (\<lparr>cl_data = pidData, cl_page = pg\<rparr>, err))"

text \<open>
  The duplicate test of lines 134--139. \<open>for (let serv in pidData)\<close> binds \<open>serv\<close> to
  the array's keys, the strings \<open>"0"\<close>, \<open>"1"\<close>, ...; \<open>serv.type\<close> and \<open>serv.run\<close> of a
  string are \<open>undefined\<close>, and \<open>undefined == v\<close> holds only for \<open>undefined\<close> and
  \<open>null\<close> (\<open>js_undefined_eq\<close>, with \<open>None\<close> for both). The received service's type and
  run are a number and a string.
\<close>

definition js_undefined_eq :: "'a option \<Rightarrow> bool" where
  "js_undefined_eq v \<longleftrightarrow> v = None"

definition for_in_duplicate :: "service list \<Rightarrow> service \<Rightarrow> bool" where
  "for_in_duplicate pidData servNew =
     list_ex (\<lambda>serv. js_undefined_eq (Some (sv_type servNew)) \<and> js_undefined_eq (Some (sv_run servNew)))
             (map dec_string [0..<length pidData])"

text \<open>\<open>ws.onmessage\<close> for \<open>{command: 'append', data}\<close>, lines 132--141.\<close>

definition on_append :: "millis \<Rightarrow> service \<Rightarrow> client \<Rightarrow> client" where
  "on_append tz servNew st =
     (if for_in_duplicate (cl_data st) servNew then st
      else st\<lparr>cl_data := cl_data st @ [stamp tz servNew]\<rparr>)"

text \<open>What the test is meant to find: a service of the same type and run.\<close>

definition is_duplicate :: "service list \<Rightarrow> service \<Rightarrow> bool" where
  "is_duplicate pidData servNew =
     list_ex (\<lambda>serv. sv_type serv = sv_type servNew \<and> sv_run serv = sv_run servNew) pidData"

subsection \<open>The server's endpoints as the client sees them\<close>

text \<open>
  \<open>GET /departures/:plat\<close> and \<open>GET /departures/:plat/after/:run\<close> of a board, each
  departure serialised by \<open>to_service\<close>.
\<close>

definition http_map :: "('a \<Rightarrow> 'b) \<Rightarrow> 'a http \<Rightarrow> 'b http" where
  "http_map f r = (case r of Http200 x \<Rightarrow> Http200 (f x) | Http404 \<Rightarrow> Http404 | Http500 \<Rightarrow> Http500)"

definition plat_endpoint :: "board \<Rightarrow> platform \<Rightarrow> service list http" where
  "plat_endpoint b p = http_map (map to_service) (departures_plat b p)"

definition after_endpoint :: "board \<Rightarrow> platform \<Rightarrow> run_ref \<Rightarrow> service http" where
  "after_endpoint b p run = http_map to_service (departures_after b p run)"

subsection \<open>The variant of the catch-up loop\<close>

text \<open>
  A service has departed, for \<open>updateClock\<close>, a minute after its time. The weight of a
  list sums the positions (from 1) of its departed services: shifting the list lowers it
  whenever one is departed, and appending a service that is not departed keeps it.
\<close>

definition departed :: "millis \<Rightarrow> service \<Rightarrow> bool" where
  "departed now s \<longleftrightarrow> sv_time s - now \<le> -60000"

fun past_weight :: "millis \<Rightarrow> nat \<Rightarrow> service list \<Rightarrow> nat" where
  "past_weight now k [] = 0"
| "past_weight now k (s # ss) = (if departed now s then Suc k else 0) + past_weight now (Suc k) ss"

subsection \<open>Lemmas: printing and reading a time\<close>

declare dec_string.simps [simp del]

lemma dec_string_small [simp]: "n < 10 \<Longrightarrow> dec_string n = [char_of (48 + n)]"
  by (simp add: dec_string.simps)

lemma dec_string_large: "\<not> n < 10 \<Longrightarrow> dec_string n = dec_string (n div 10) @ [char_of (48 + n mod 10)]"
  by (simp add: dec_string.simps)

lemma dec_val_snoc [simp]: "dec_val (xs @ [c]) = 10 * dec_val xs + (of_char c - 48)"
  by (simp add: dec_val_def)

lemma dec_val_single [simp]: "dec_val [c] = of_char c - 48"
  by (simp add: dec_val_def)

lemma dec_val_Cons_zero [simp]: "dec_val (CHR ''0'' # xs) = dec_val xs"
  by (simp add: dec_val_def)

lemma dec_val_dec_string [simp]: "dec_val (dec_string n) = n"
proof (induction n rule: dec_string.induct)
  case (1 n)
  then show ?case by (cases "n < 10") (simp_all add: dec_string_large of_char_of)
qed

lemma dec_string_digits:
  "c \<in> set (dec_string n) \<Longrightarrow> 48 \<le> (of_char c :: nat) \<and> (of_char c :: nat) \<le> 57"
proof (induction n rule: dec_string.induct)
  case (1 n)
  then show ?case by (cases "n < 10") (auto simp: dec_string_large of_char_of)
qed

lemma dec_string_ne [simp]: "dec_string n \<noteq> []"
  by (cases "n < 10") (simp_all add: dec_string_large)

lemma parseInt_dec_string: "parseInt (dec_string n) = Some (int n)"
proof -
  let ?s = "dec_string n"
  have dig: "\<forall>c \<in> set ?s. 48 \<le> (of_char c :: nat) \<and> (of_char c :: nat) \<le> 57"
    using dec_string_digits by blast
  obtain c r where s: "?s = c # r" using dec_string_ne by (cases ?s) auto
  have c: "48 \<le> (of_char c :: nat) \<and> (of_char c :: nat) \<le> 57" using dig s by simp
  have white: "dropWhile js_white ?s = ?s"
    using s digit_char [of c] c by simp
  have nx: "take 2 ?s \<noteq> ''0x'' \<and> take 2 ?s \<noteq> ''0X''"
  proof -
    have "CHR ''x'' \<notin> set ?s" "CHR ''X'' \<notin> set ?s"
      using dig digit_char by blast+
    then show ?thesis using set_take_subset [of 2 ?s] by auto
  qed
  have sign: "(case ?s of [] \<Rightarrow> (1::int, [])
                | c # r \<Rightarrow> (if c = CHR ''-'' then (-1, r) else if c = CHR ''+'' then (1, r) else (1, ?s)))
              = (1, ?s)"
    using s c digit_char [of c] by simp
  have fold: "foldl (\<lambda>acc d. acc * 10 + d) 0 (map (\<lambda>c. of_char c - 48) ?s) = n"
  proof -
    have "(\<lambda>a x. a * 10 + (of_char x - 48)) = (\<lambda>a (x::char). 10 * a + (of_char x - (48::nat)))"
      by (simp add: mult.commute)
    then show ?thesis
      using dec_val_dec_string [of n] by (simp add: dec_val_def foldl_map)
  qed
  show ?thesis
    using white nx sign digit_run_digits [OF dig] fold
    by (simp add: parseInt_def Let_def)
qed

lemma length_dec_string_2: "n < 100 \<Longrightarrow> length (dec_string n) \<le> 2"
  by (cases "n < 10") (simp_all add: dec_string_large)

lemma dec_string_no_sep [simp]:
  "CHR '' '' \<notin> set (dec_string n)" "CHR '':'' \<notin> set (dec_string n)"
  using dec_string_digits [of "CHR '' ''" n] dec_string_digits [of "CHR '':''" n] by auto

lemma pad_start2_no_sep [simp]:
  "CHR '' '' \<notin> set (pad_start2 (dec_string n))" "CHR '':'' \<notin> set (pad_start2 (dec_string n))"
  by (auto simp: pad_start2_def)

lemma dec_val_replicate_zero [simp]: "dec_val (replicate k (CHR ''0'') @ s) = dec_val s"
  by (induction k) simp_all

lemma pad_start2_dec [simp]:
  "dec_val (pad_start2 s) = dec_val s"
  by (simp add: pad_start2_def)

lemma length_pad_start2_dec: "n < 100 \<Longrightarrow> length (pad_start2 (dec_string n)) = 2"
  using length_dec_string_2 [of n] by (simp add: pad_start2_def)

lemma local_time_bounds [simp]:
  "local_hours tz t < 24" "local_minutes tz t < 60" "local_seconds tz t < 60"
  by (simp_all add: local_hours_def local_minutes_def local_seconds_def nat_less_iff)

lemma takeWhile_dec_string [simp]:
  "takeWhile (\<lambda>c. c \<noteq> CHR '':'') (dec_string n @ CHR '':'' # r) = dec_string n"
  by (rule trans [OF takeWhile_append2]) auto

lemma filter_no_space [simp]:
  "filter (\<lambda>c. c \<noteq> CHR '' '') (dec_string n) = dec_string n"
  "filter (\<lambda>c. c \<noteq> CHR '' '') (pad_start2 (dec_string n)) = pad_start2 (dec_string n)"
  by (auto simp: filter_id_conv)

lemma read_minutes_seconds [simp]:
  assumes "m < 60"
  shows "take 2 (pad_start2 (dec_string m) @ r) = pad_start2 (dec_string m)"
    and "drop 2 (pad_start2 (dec_string m) @ r) = r"
  using length_pad_start2_dec [of m] assms by simp_all

lemma read_time_parts:
  assumes "m < 60" "s < 60" "a = ''am'' \<or> a = ''pm''"
  shows "read_time (dec_string h @ '':'' @ pad_start2 (dec_string m)
                    @ (if sec then '':'' @ pad_start2 (dec_string s) else []) @ '' '' @ a)
         = Some (if a = ''am'' then h mod 12 else h mod 12 + 12, m, if sec then Some s else None)"
proof -
  have "length (pad_start2 (dec_string m)) = 2" "length (pad_start2 (dec_string s)) = 2"
    using assms(1,2) by (simp_all add: length_pad_start2_dec)
  then show ?thesis
    using assms(3) by (cases sec) (auto simp: read_time_def Let_def)
qed

lemma hour12_back:
  assumes "(h::nat) < 24"
  shows "(if h mod 12 = 0 then 12 else h mod 12) mod 12 = h mod 12"
    and "12 \<le> h \<Longrightarrow> h mod 12 + 12 = h" and "\<not> 12 \<le> h \<Longrightarrow> h mod 12 = h"
  using assms by (auto simp: mod_if)

lemma printTime_parts:
  "printTime tz t sec =
     (let h = local_hours tz t in
      dec_string (if h mod 12 = 0 then 12 else h mod 12) @ '':''
      @ pad_start2 (dec_string (local_minutes tz t))
      @ (if sec then '':'' @ pad_start2 (dec_string (local_seconds tz t)) else [])
      @ '' '' @ (if 12 \<le> h then ''pm'' else ''am''))"
  by (simp add: printTime_def Let_def)

text \<open>
  C13: \<open>printTime\<close> (lines 5--13) round-trips: reading the printed twelve-hour
  time back gives the hour of the day, the minute and, when printed, the second of the
  time in the zone, for every time, including midnight and noon.
\<close>

theorem read_time_printTime:
  "read_time (printTime tz t sec) =
     Some (local_hours tz t, local_minutes tz t, if sec then Some (local_seconds tz t) else None)"
proof -
  let ?h = "local_hours tz t"
  have "read_time (printTime tz t sec) =
          Some (if (if 12 \<le> ?h then ''pm'' else ''am'') = ''am''
                then (if ?h mod 12 = 0 then 12 else ?h mod 12) mod 12
                else (if ?h mod 12 = 0 then 12 else ?h mod 12) mod 12 + 12,
                local_minutes tz t, if sec then Some (local_seconds tz t) else None)"
    unfolding printTime_parts Let_def by (rule read_time_parts) simp_all
  then show ?thesis
    using hour12_back [OF local_time_bounds(1) [of tz t]] by simp
qed

subsection \<open>Lemmas: the station columns\<close>

declare fill_column.simps [simp del] build_columns.simps [simp del]

lemma length_layout_items:
  "0 < rows \<Longrightarrow> length (layout_items stations rows) = min (length stations) (4 * rows)"
  by (simp add: layout_items_def) arith

lemma layout_items_nth:
  assumes "i < length stations" and "rows * 4 < length stations \<Longrightarrow> i < 4 * rows - 2"
  shows "layout_items stations rows ! i = station_li (stations ! i)"
  using assms by (auto simp: layout_items_def nth_append)

lemma layout_items_tail:
  assumes "rows * 4 < length stations" and "2 \<le> rows"
  shows "drop (4 * rows - 2) (layout_items stations rows)
           = [continue_li, last_li (st_name (stations ! (length stations - 1)))]"
proof -
  have "stations \<noteq> []" using assms(1) by auto
  then show ?thesis using assms by (simp add: layout_items_def last_conv_nth)
qed

lemma column_of_index:
  assumes "(col::nat) < 4" "row < rows" "col * rows + row = 4 * rows - 2" "2 \<le> rows"
  shows "row = rows - 2"
proof -
  have "col = 0 \<or> col = 1 \<or> col = 2 \<or> col = 3" using assms(1) by auto
  then show ?thesis
    using assms(2-4) by (elim disjE) simp_all
qed

lemma fill_column_items:
  assumes "col < 4" "2 \<le> rows" "row \<le> rows"
    and "rows * 4 < length stations \<Longrightarrow> col * rows + row \<le> 4 * rows - 2"
  shows "fill_column stations rows col row acc =
           acc @ concat (take (rows - row) (drop (col * rows + row) (layout_items stations rows)))"
  using assms
proof (induction stations rows col row acc rule: fill_column.induct)
  case (1 stations rows col row acc)
  let ?i = "col * rows + row"
  let ?items = "layout_items stations rows"
  show ?case
  proof (cases "row < rows \<and> ?i < length stations")
    case go: True
    show ?thesis
    proof (cases "?i = 4 * rows - 2 \<and> rows * 4 < length stations")
      case True
      then have "rows - row = 2"
        using column_of_index [of col row rows] go "1.prems"(1,2) by auto
      then show ?thesis
        using True go "1.prems"(2) layout_items_tail [of rows stations]
        by (simp add: fill_column.simps [of stations rows col row acc])
    next
      case False
      have nth: "?items ! ?i = station_li (stations ! ?i)"
        using False go "1.prems"(4) by (intro layout_items_nth) auto
      have len: "?i < length ?items"
        using go "1.prems"(2) False "1.prems"(4)
        by (cases "rows * 4 < length stations") (auto simp: length_layout_items)
      have "fill_column stations rows col row acc
              = fill_column stations rows col (Suc row) (acc @ station_li (stations ! ?i))"
        by (subst fill_column.simps) (use go False in \<open>simp only: Let_def if_True if_False simp_thms\<close>)
      also have "\<dots> = (acc @ station_li (stations ! ?i))
                       @ concat (take (rows - Suc row) (drop (col * rows + Suc row) ?items))"
      proof (rule "1.IH" [OF go refl False])
        show "rows * 4 < length stations \<Longrightarrow> col * rows + Suc row \<le> 4 * rows - 2"
          using "1.prems"(4) False by fastforce
      qed (use "1.prems" go in auto)
      also have "\<dots> = acc @ concat (take (rows - row) (drop ?i ?items))"
      proof -
        have "drop ?i ?items = station_li (stations ! ?i) # drop (col * rows + Suc row) ?items"
          using len nth by (simp add: Cons_nth_drop_Suc [symmetric])
        moreover have "rows - row = Suc (rows - Suc row)" using go by linarith
        ultimately show ?thesis by simp
      qed
      finally show ?thesis .
    qed
  next
    case False
    then have "rows - row = 0 \<or> length ?items \<le> ?i"
      using "1.prems"(2) by (auto simp: length_layout_items)
    then show ?thesis
      using False by (auto simp: fill_column.simps [of stations rows col row acc])
  qed
qed

declare chunks.simps [simp del]

lemma chunks_Nil [simp]: "chunks n [] = []"
  by (simp add: chunks.simps)

lemma chunks_step: "0 < n \<Longrightarrow> xs \<noteq> [] \<Longrightarrow> chunks n xs = take n xs # chunks n (drop n xs)"
  by (simp add: chunks.simps)

lemma column_test: "0 < rows \<Longrightarrow> (real col < real len / real rows) = (col * rows < len)"
  by (simp add: pos_less_divide_eq flip: of_nat_mult)

lemma build_columns_items:
  assumes "2 \<le> rows"
  shows "build_columns stations rows col columns =
           columns @ map concat (chunks rows (drop (col * rows) (layout_items stations rows)))"
  using assms
proof (induction stations rows col columns rule: build_columns.induct)
  case (1 stations rows col columns)
  let ?items = "layout_items stations rows"
  have rows: "0 < rows" using "1.prems" by simp
  show ?case
  proof (cases "col * rows < length stations \<and> col < 4")
    case True
    have le3: "col * rows \<le> 3 * rows" using True by simp
    have "col * rows \<le> 4 * rows - 2" using le3 "1.prems" by linarith
    then have fill: "fill_column stations rows col 0 [] = concat (take rows (drop (col * rows) ?items))"
      using fill_column_items [of col rows 0 stations "[]"] True "1.prems" by simp
    have "col * rows < 4 * rows" using le3 rows by linarith
    then have "col * rows < min (length stations) (4 * rows)"
      unfolding min_less_iff_conj using True by blast
    then have ne: "drop (col * rows) ?items \<noteq> []"
      by (simp only: length_layout_items [OF rows] drop_eq_Nil not_le)
    have "build_columns stations rows col columns
            = build_columns stations rows (Suc col) (columns @ [fill_column stations rows col 0 []])"
      using True rows by (subst build_columns.simps) (simp add: column_test)
    also have "\<dots> = (columns @ [fill_column stations rows col 0 []])
                     @ map concat (chunks rows (drop (Suc col * rows) ?items))"
      using "1.IH" True rows "1.prems" by (simp add: column_test)
    finally show ?thesis
      using ne rows by (simp add: fill chunks_step add.commute)
  next
    case False
    have "length stations \<le> col * rows \<or> 4 * rows \<le> col * rows"
      using False mult_le_mono1 [of 4 col rows] by auto
    then have "min (length stations) (4 * rows) \<le> col * rows"
      unfolding min_le_iff_disj .
    then have "drop (col * rows) ?items = []"
      by (simp only: length_layout_items [OF rows] drop_eq_Nil)
    moreover have "\<not> (real col < real (length stations) / real rows \<and> col < 4)"
      unfolding column_test [OF rows] using False .
    then have "build_columns stations rows col columns = columns"
      by (subst build_columns.simps) (rule if_not_P)
    ultimately show ?thesis
      by simp
  qed
qed

text \<open>
  C12: the station columns of \<open>updateInfo\<close> (lines 29--43) are the layout cut into
  columns of seven rows (eight above 28 stations): every station, in order, when they fit
  four columns, otherwise the first \<open>4 * rows - 2\<close>, \<open>Continues to\<close> and the last
  station, so that there are never more than four columns.
\<close>

theorem station_columns_layout:
  "station_columns stations =
     map concat (chunks (station_rows stations) (layout_items stations (station_rows stations)))"
  by (simp add: station_columns_def build_columns_items station_rows_def)

subsection \<open>Lemmas: the catch-up loop of \<open>updateClock\<close>\<close>

lemma eta_departed: "(real_of_int (sv_time d - now) / 1000 \<le> -60) = departed now d"
proof -
  have "(real_of_int (sv_time d - now) / 1000 \<le> -60)
          = (real_of_int (sv_time d - now) \<le> real_of_int (-60000))"
    by (simp del: of_int_diff)
  also have "\<dots> = departed now d"
    unfolding departed_def by (rule of_int_le_iff)
  finally show ?thesis .
qed

lemma eta_departed': "(real_of_int (sv_time d - now) \<le> -60000) = departed now d"
  using eta_departed [of d now] by (simp del: of_int_diff)

lemma clock_scan_next:
  "\<not> departed now d \<Longrightarrow> \<exists>pg'. clock_scan now i (d # ds) pg = clock_scan now (Suc i) ds pg'"
  by (auto simp: Let_def eta_departed' simp del: of_int_diff)

lemma clock_scan_found: "snd (clock_scan now i ds pg) \<Longrightarrow> list_ex (departed now) ds"
proof (induction ds arbitrary: i pg)
  case (Cons d ds)
  show ?case
  proof (cases "departed now d")
    case False
    then obtain pg' where "clock_scan now i (d # ds) pg = clock_scan now (Suc i) ds pg'"
      using clock_scan_next by blast
    then show ?thesis
      using Cons by simp
  qed simp
qed simp

lemma list_ex_take_filter: "list_ex P (take k (filter Q xs)) \<Longrightarrow> list_ex P xs"
  by (auto simp: list_ex_iff dest!: in_set_takeD)

lemma past_weight_Suc:
  "past_weight now (Suc k) l = past_weight now k l + length (filter (departed now) l)"
  by (induction l arbitrary: k) auto

lemma past_weight_append_fresh:
  "\<not> departed now s \<Longrightarrow> past_weight now k (l @ [s]) = past_weight now k l"
  by (induction l arbitrary: k) auto

lemma past_weight_tl:
  assumes "list_ex (departed now) l"
  shows "past_weight now 0 (tl l) < past_weight now 0 l"
proof (cases l)
  case (Cons x xs)
  have "0 < length (filter (departed now) l)"
    using assms by (auto simp: list_ex_iff length_pos_if_in_set filter_empty_conv)
  then show ?thesis
    using Cons by (auto simp: past_weight_Suc)
qed (use assms in simp)

lemma stamp_time [simp]: "sv_time (stamp tz s) = sv_time s"
  by (simp add: stamp_def)

lemma clock_step_again:
  assumes "clock_step tz now after st = (st', True)"
  shows "list_ex (departed now) (cl_data st)"
    and "cl_data st' = tl (cl_data st)
         \<or> (\<exists>s. after (sv_run (last (tl (cl_data st)))) = Http200 s
                \<and> cl_data st' = tl (cl_data st) @ [stamp tz s])"
proof -
  obtain pg dep where scan:
    "clock_scan now 0 (take 3 (filter (shown now) (cl_data st)))
       ((cl_page st)\<lparr>pg_clock := printTime tz now True\<rparr>) = (pg, dep)"
    by (metis surj_pair)
  then have "dep"
    using assms by (auto simp: clock_step_def Let_def split: prod.splits if_splits)
  then have "list_ex (departed now) (take 3 (filter (shown now) (cl_data st)))"
    using clock_scan_found scan by (metis snd_conv)
  then show "list_ex (departed now) (cl_data st)"
    by (rule list_ex_take_filter)
  show "cl_data st' = tl (cl_data st)
         \<or> (\<exists>s. after (sv_run (last (tl (cl_data st)))) = Http200 s
                \<and> cl_data st' = tl (cl_data st) @ [stamp tz s])"
    using assms scan
    by (auto simp: clock_step_def Let_def split: prod.splits if_splits http.splits)
qed

lemma clock_step_weight:
  assumes "clock_step tz now after st = (st', True)"
    and "\<forall>r s. after r = Http200 s \<longrightarrow> \<not> departed now s"
  shows "past_weight now 0 (cl_data st') < past_weight now 0 (cl_data st)"
  using clock_step_again [OF assms(1)] past_weight_tl [of now "cl_data st"] assms(2)
  by (auto simp: past_weight_append_fresh departed_def)

lemma updateClock_Some:
  assumes "\<forall>r s. after r = Http200 s \<longrightarrow> \<not> departed now s"
  shows "past_weight now 0 (cl_data st) < n \<Longrightarrow> \<exists>st'. updateClock n tz now after st = Some st'"
proof (induction n arbitrary: st)
  case (Suc n)
  obtain st1 again where step: "clock_step tz now after st = (st1, again)"
    by (metis surj_pair)
  show ?case
  proof (cases again)
    case True
    then have "clock_step tz now after st = (st1, True)"
      using step by simp
    then have "past_weight now 0 (cl_data st1) < n"
      using clock_step_weight [OF _ assms] Suc.prems by fastforce
    then show ?thesis
      using Suc.IH step True by simp
  qed (use step in simp)
qed simp

lemma departed_shown [simp]: "departed now s \<Longrightarrow> shown now s"
  by (simp add: departed_def shown_def)

lemma clock_scan_departed [simp]:
  "departed now d \<Longrightarrow> clock_scan now i (d # ds) pg = (pg\<lparr>pg_depart_bar := ''inactive''\<rparr>, True)"
  by (simp add: eta_departed' del: of_int_diff)

lemma updateInfo_ok:
  "filter (shown now) data = d # ds \<Longrightarrow> sv_stations d \<noteq> None \<Longrightarrow> snd (updateInfo now data pg) = None"
  by (auto simp: updateInfo_def Let_def split: option.split)

lemma clock_step_repeat:
  assumes "departed now s" "sv_stations s \<noteq> None" "after (sv_run s) = Http200 s'" "stamp tz s' = s"
    and "2 \<le> k" "k \<le> 3"
  shows "\<exists>pg'. clock_step tz now after \<lparr>cl_data = replicate k s, cl_page = pg\<rparr>
                = (\<lparr>cl_data = replicate k s, cl_page = pg'\<rparr>, True)"
proof -
  obtain j where k: "k = Suc (Suc j)" and j: "j \<le> 1"
    using assms(5,6) by (cases k; cases "k - 1") auto
  let ?pg1 = "pg\<lparr>pg_clock := printTime tz now True\<rparr>"
  let ?l = "s # replicate j s"
  have filt: "filter (shown now) (replicate k s) = replicate k s"
    using assms(1) by simp
  have scan: "clock_scan now 0 (take 3 (replicate k s)) ?pg1
                = (?pg1\<lparr>pg_depart_bar := ''inactive''\<rparr>, True)"
    using assms(1) k by (simp del: clock_scan.simps(2))
  have tl: "tl (replicate k s) = ?l" and ne: "?l \<noteq> []" and short: "length ?l < 3"
    and last: "last ?l = s"
    using k j by (simp_all add: last_replicate)
  have app: "?l @ [stamp tz s'] = replicate k s"
    using k assms(4) by (simp add: replicate_append_same)
  obtain pg' err where ui:
    "updateInfo now (replicate k s) (?pg1\<lparr>pg_depart_bar := ''inactive''\<rparr>) = (pg', err)"
    by (metis surj_pair)
  have "snd (updateInfo now (replicate k s) (?pg1\<lparr>pg_depart_bar := ''inactive''\<rparr>)) = None"
    using filt k assms(2) by (intro updateInfo_ok [of now "replicate k s" s "replicate (Suc j) s"]) simp_all
  then have "err = None"
    using ui by simp
  then have "clock_step tz now after \<lparr>cl_data = replicate k s, cl_page = pg\<rparr>
               = (\<lparr>cl_data = replicate k s, cl_page = pg'\<rparr>, True)"
    unfolding clock_step_def Let_def client.simps filt scan prod.case if_not_P
    by (simp only: tl ne short last assms(3) http.case app ui not_True_eq_False simp_thms if_True
                   if_False prod.case)
  then show ?thesis by blast
qed

lemma for_in_duplicate_never: "\<not> for_in_duplicate pidData servNew"
  by (simp add: for_in_duplicate_def js_undefined_eq_def list_ex_iff)

subsection \<open>Properties of the display client\<close>

text \<open>
  C10: the catch-up chain of \<open>updateClock\<close> ends: when the server never answers
  the request of line 83 with a departed service, the chain started on a list returns
  within one activation more than the list's weight of departed services.
\<close>

theorem updateClock_terminates:
  assumes "\<forall>r s. after r = Http200 s \<longrightarrow> \<not> departed now s"
  shows "\<exists>st'. updateClock (Suc (past_weight now 0 (cl_data st))) tz now after st = Some st'"
  by (rule updateClock_Some [OF assms]) simp

theorem updateClock_terminates_witness:
  "(\<exists>st'. updateClock (Suc (past_weight 720000 0 [stamp 0 (to_service (ex_dep ''101'' ''cityloop''))]))
                0 720000 (\<lambda>_. Http404)
                \<lparr>cl_data = [stamp 0 (to_service (ex_dep ''101'' ''cityloop''))], cl_page = blank_page\<rparr>
              = Some st')"
  using updateClock_terminates [of "\<lambda>_. Http404" 720000
          "\<lparr>cl_data = [stamp 0 (to_service (ex_dep ''101'' ''cityloop''))], cl_page = blank_page\<rparr>" 0]
  by simp

text \<open>
  C15: a defect: when the server lists a run twice in a row (as a stale
  enrichment index leaves it, PID_Live) and that run has departed, a display holding it
  two or three times shifts one copy, asks for the service after it, receives the other
  copy and starts again: while the server's queue is unchanged the chain of requests of
  \<open>updateClock\<close> never ends, whatever fuel it is given.
\<close>

theorem updateClock_duplicate_loop:
  assumes "departed now s" "sv_stations s \<noteq> None" "after (sv_run s) = Http200 s'" "stamp tz s' = s"
    and "2 \<le> k" "k \<le> 3"
  shows "updateClock n tz now after \<lparr>cl_data = replicate k s, cl_page = pg\<rparr> = None"
proof (induction n arbitrary: pg)
  case (Suc n)
  obtain pg' where "clock_step tz now after \<lparr>cl_data = replicate k s, cl_page = pg\<rparr>
                     = (\<lparr>cl_data = replicate k s, cl_page = pg'\<rparr>, True)"
    using clock_step_repeat [where after = after, OF assms] by blast
  then show ?case
    using Suc.IH by simp
qed simp

theorem updateClock_duplicate_loop_witness:
  "live_step\<^sup>*\<^sup>* ex_live_dup ex_dup_state
   \<and> (\<forall>n. updateClock n 0 720000 (after_endpoint (live_board ex_dup_state) ''1'')
             \<lparr>cl_data = replicate 3 (stamp 0 (to_service ((ex_resolved ''104'' ''burnley'' ''Flinders Street''
                                                    [1000, 1120, 1071])\<lparr>dep_time := 660000\<rparr>))),
              cl_page = blank_page\<rparr> = None)"
proof -
  let ?d = "(ex_resolved ''104'' ''burnley'' ''Flinders Street'' [1000, 1120, 1071])\<lparr>dep_time := 660000\<rparr>"
  have after: "after_endpoint (live_board ex_dup_state) ''1'' (sv_run (stamp 0 (to_service ?d)))
                 = Http200 (to_service ?d)"
    by (simp add: ex_dup_state_eq live_board_def ex_live_dup_def after_endpoint_def http_map_def
        departures_after_def ex_dep_def ex_resolved_def stamp_def to_service_def)
  have "\<forall>n. updateClock n 0 720000 (after_endpoint (live_board ex_dup_state) ''1'')
             \<lparr>cl_data = replicate 3 (stamp 0 (to_service ?d)), cl_page = blank_page\<rparr> = None"
  proof
    fix n
    show "updateClock n 0 720000 (after_endpoint (live_board ex_dup_state) ''1'')
            \<lparr>cl_data = replicate 3 (stamp 0 (to_service ?d)), cl_page = blank_page\<rparr> = None"
      by (rule updateClock_duplicate_loop
                 [where after = "after_endpoint (live_board ex_dup_state) ''1''", OF _ _ after])
         (simp_all add: departed_def stamp_def to_service_def ex_resolved_def ex_dep_def)
  qed
  then show ?thesis
    using ex_dup_trace by simp
qed

text \<open>
  C11: a defect: the duplicate test of the \<open>append\<close> handler (lines 134--139)
  never fires, because \<open>for ... in\<close> iterates the array's keys and a key has no
  \<open>type\<close> or \<open>run\<close>: every pushed service is appended, one the display already holds
  included.
\<close>

theorem on_append_appends_duplicates:
  "cl_data (on_append tz s st) = cl_data st @ [stamp tz s]"
  by (simp add: on_append_def for_in_duplicate_never)

text \<open>
  C14: the error path of \<open>updateInfo\<close>: when the first shown service has no
  stations (an enrichment failed or has not run), line 31 throws after the main panel
  has taken the new service's group, time, destination and subtitle, so the station
  list and both next-service panels still show the previous service's.
\<close>

theorem updateInfo_unenriched:
  assumes "filter (shown now) data = d # ds" and "sv_stations d = None"
  shows "snd (updateInfo now data pg) = Some (TypeError ''stations.length'')
         \<and> pg_dest (fst (updateInfo now data pg)) = js_text (sv_dest d)
         \<and> pg_stations (fst (updateInfo now data pg)) = pg_stations pg
         \<and> pg_ns1 (fst (updateInfo now data pg)) = pg_ns1 pg
         \<and> pg_ns2 (fst (updateInfo now data pg)) = pg_ns2 pg"
  using assms by (simp add: updateInfo_def Let_def)

theorem updateInfo_unenriched_witness:
  "filter (shown 600000) [stamp 0 (to_service (ex_dep ''104'' ''burnley''))]
     = [stamp 0 (to_service (ex_dep ''104'' ''burnley''))]
   \<and> sv_stations (stamp 0 (to_service (ex_dep ''104'' ''burnley''))) = None
   \<and> snd (updateInfo 600000 [stamp 0 (to_service (ex_dep ''104'' ''burnley''))] blank_page)
       = Some (TypeError ''stations.length'')
   \<and> pg_dest (fst (updateInfo 600000 [stamp 0 (to_service (ex_dep ''104'' ''burnley''))] blank_page))
       = ''undefined''
   \<and> pg_stations (fst (updateInfo 600000 [stamp 0 (to_service (ex_dep ''104'' ''burnley''))] blank_page))
       = pg_stations blank_page
   \<and> pg_ns1 (fst (updateInfo 600000 [stamp 0 (to_service (ex_dep ''104'' ''burnley''))] blank_page))
       = pg_ns1 blank_page
   \<and> pg_ns2 (fst (updateInfo 600000 [stamp 0 (to_service (ex_dep ''104'' ''burnley''))] blank_page))
       = pg_ns2 blank_page"
proof -
  let ?s = "stamp 0 (to_service (ex_dep ''104'' ''burnley''))"
  have f: "filter (shown 600000) [?s] = [?s]" and n: "sv_stations ?s = None"
    by (simp_all add: shown_def stamp_def to_service_def ex_dep_def)
  show ?thesis
    using updateInfo_unenriched [OF f n, of blank_page] f n
    by (simp add: js_text_def stamp_def to_service_def ex_dep_def)
qed

end
