(* ===== verification/PID_System.thy ===== *)
theory PID_System
  imports PID_Client
begin

text \<open>
  The server and its displays together: the server's board, the daily refresh it may have
  in flight, and for each connected display (\<open>appWs.getWss().clients\<close>) its platform,
  the push messages on the way to it (\<open>ws.send\<close>, src/app.js lines 51, 292 and
  332--342) and its state (PID_Client). Each handler of either side is one function on
  the whole system, and \<open>sys_step\<close> lets them run in any order: a cron job, the
  settling of the daily refresh, a display connecting, a display handling its next push
  message, or an \<open>updateClock\<close> chain of a display. It also holds the startup step
  that fixes \<open>STATION\<close> (\<open>startup_station\<close>).
\<close>

subsection \<open>Startup: the station\<close>

text \<open>
  Lines 26--37 of \<open>main\<close>: \<open>STATION\<close> is the environment string (or \<open>undefined\<close>).
  When \<open>isNaN(STATION)\<close> (\<open>ToNumber\<close> of the string is \<open>NaN\<close>, always for
  \<open>undefined\<close>) the station search is requested: a rejected request rejects \<open>main\<close>,
  no stop ends the process with \<open>exit(1)\<close>, and otherwise \<open>STATION\<close> becomes the first
  stop's id, a number. A numeric string is kept as the string.
\<close>

record search_stop =
  ss_stop_id :: stop_id
  ss_stop_name :: string

datatype startup = StartFailed error | StartExit | StartWith station_value

definition startup_station :: "string option \<Rightarrow> search_stop list option \<Rightarrow> startup" where
  "startup_station STATION search =
     (if (case STATION of None \<Rightarrow> True | Some s \<Rightarrow> js_string_to_int s = None) then
        (case search of
           None \<Rightarrow> StartFailed FetchFailed
         | Some stops \<Rightarrow> (if stops = [] then StartExit
                         else StartWith (StationNumber (ss_stop_id (hd stops)))))
      else StartWith (StationString (the STATION)))"

subsection \<open>The system state\<close>

datatype push = PushAppend service | PushRefresh

record display =
  dp_plat :: platform                              \<comment> \<open>\<open>ws.pnum\<close>\<close>
  dp_inbox :: "push list"                          \<comment> \<open>sent, not yet handled\<close>
  dp_client :: client

record system =
  sys_env :: resolver_env                          \<comment> \<open>\<open>STATION\<close>, \<open>routeColours\<close>, the API\<close>
  sys_board :: board                               \<comment> \<open>\<open>departures\<close>\<close>
  sys_pending :: "(route_colours \<times> board result) option"  \<comment> \<open>a refresh in flight\<close>
  sys_displays :: "display list"                   \<comment> \<open>the connected sockets, in order\<close>

subsection \<open>The handlers\<close>

text \<open>\<open>client.send(JSON.stringify(m))\<close>: the message joins the display's queue.\<close>

definition send :: "push \<Rightarrow> display \<Rightarrow> display" where
  "send m d = d\<lparr>dp_inbox := dp_inbox d @ [m]\<rparr>"

text \<open>
  A display connecting to \<open>/ws/:plat\<close> (lines 46--52): the socket remembers the
  platform and is sent a \<open>refresh\<close>. The page starts empty.
\<close>

definition new_display :: "platform \<Rightarrow> display" where
  "new_display p = \<lparr>dp_plat = p, dp_inbox = [PushRefresh], dp_client = \<lparr>cl_data = [], cl_page = blank_page\<rparr>\<rparr>"

definition connect :: "platform \<Rightarrow> system \<Rightarrow> system" where
  "connect p st = st\<lparr>sys_displays := sys_displays st @ [new_display p]\<rparr>"

text \<open>
  The page's platform (pid.js line 1): the \<open>num\<close> parameter of the page's URL, or
  \<open>null\<close>, which the template strings of lines 83, 116 and 129 print as \<open>null\<close>. Loading
  the page (lines 113--129) opens the socket \<open>ws/PLATFORM\<close>.
\<close>

definition page_platform :: "(string \<times> string) list \<Rightarrow> platform" where
  "page_platform params = (case map_of params ''num'' of None \<Rightarrow> ''null'' | Some p \<Rightarrow> p)"

definition load_page :: "(string \<times> string) list \<Rightarrow> system \<Rightarrow> system" where
  "load_page params st = connect (page_platform params) st"

text \<open>
  The daily cron job (lines 290--293): \<open>fetchDepartures()\<close> is started and not awaited,
  and \<open>refresh\<close> is sent to every display at once. What the refresh will settle with is
  fixed by the answers it gets (\<open>fetchDepartures\<close> of PID_Board); it is published later,
  by \<open>daily_settle\<close>.
\<close>

definition daily_start ::
  "line_table \<Rightarrow> millis \<Rightarrow> departures_response option \<Rightarrow> system \<Rightarrow> system"
where
  "daily_start metroLines now resp st =
     st\<lparr>sys_pending := Some (fetchDepartures metroLines (sys_env st) now resp),
        sys_displays := map (send PushRefresh) (sys_displays st)\<rparr>"

text \<open>
  The refresh settling: the colour map is kept in any case, the board is replaced only
  on success (line 287).
\<close>

definition daily_settle :: "system \<Rightarrow> system" where
  "daily_settle st =
     (case sys_pending st of
        None \<Rightarrow> st
      | Some (colours, r) \<Rightarrow>
          st\<lparr>sys_env := (sys_env st)\<lparr>env_colours := colours\<rparr>,
             sys_board := (case r of Inl _ \<Rightarrow> sys_board st | Inr b \<Rightarrow> b),
             sys_pending := None\<rparr>)"

text \<open>
  The fan-out of lines 328--343: a display is sent \<open>append\<close> with the service enriched
  on its own platform, when there is one.
\<close>

definition notify :: "(platform \<times> departure) list option \<Rightarrow> display \<Rightarrow> display" where
  "notify ns d =
     (case ns of
        None \<Rightarrow> d
      | Some ns \<Rightarrow> (case client_append ns (dp_plat d) of
                     None \<Rightarrow> d
                   | Some dep \<Rightarrow> send (PushAppend (to_service dep)) d))"

text \<open>
  The minute cron job (lines 295--347) with its enrichments settled (PID_Board's
  \<open>tick\<close>), and its notifications.
\<close>

definition minute :: "millis \<Rightarrow> system \<Rightarrow> system" where
  "minute now st =
     (let (b', ns) = tick (sys_env st) now (sys_board st)
      in st\<lparr>sys_board := b', sys_displays := map (notify ns) (sys_displays st)\<rparr>)"

text \<open>
  A display handling its oldest message (\<open>ws.onmessage\<close>, pid.js lines 130--145): an
  \<open>append\<close> goes to \<open>on_append\<close>, a \<open>refresh\<close> to \<open>fetchData\<close>, whose request the
  server answers from the board \<open>b\<close> it holds at that moment.
\<close>

definition handle :: "millis \<Rightarrow> millis \<Rightarrow> board \<Rightarrow> display \<Rightarrow> display" where
  "handle tz now b d =
     (case dp_inbox d of
        [] \<Rightarrow> d
      | m # ms \<Rightarrow>
          d\<lparr>dp_inbox := ms,
            dp_client := (case m of
                            PushAppend s \<Rightarrow> on_append tz s (dp_client d)
                          | PushRefresh \<Rightarrow>
                              fst (fetchData tz now (plat_endpoint b (dp_plat d)) (dp_client d)))\<rparr>)"

definition deliver :: "millis \<Rightarrow> millis \<Rightarrow> nat \<Rightarrow> system \<Rightarrow> system" where
  "deliver tz now i st =
     st\<lparr>sys_displays := (sys_displays st)[i := handle tz now (sys_board st) (sys_displays st ! i)]\<rparr>"

text \<open>
  Any order of the handlers, at any times, in the zone \<open>tz\<close> with the line table
  \<open>metroLines\<close>. A daily refresh starts only when none is in flight; a display may
  connect at any time; \<open>setInterval(updateClock, 1000)\<close> (pid.js line 114) runs a
  display's catch-up chain.
\<close>

inductive sys_step :: "millis \<Rightarrow> line_table \<Rightarrow> system \<Rightarrow> system \<Rightarrow> bool"
  for tz :: millis and metroLines :: line_table
where
  cron_daily: "sys_pending st = None \<Longrightarrow> sys_step tz metroLines st (daily_start metroLines now resp st)"
| refresh_done: "sys_pending st \<noteq> None \<Longrightarrow> sys_step tz metroLines st (daily_settle st)"
| cron_minute: "sys_step tz metroLines st (minute now st)"
| message: "i < length (sys_displays st) \<Longrightarrow> dp_inbox (sys_displays st ! i) \<noteq> []
            \<Longrightarrow> sys_step tz metroLines st (deliver tz now i st)"
| reconnect: "sys_step tz metroLines st (connect p st)"
| clock: "i < length (sys_displays st)
          \<Longrightarrow> updateClock n tz now (after_endpoint (sys_board st) (dp_plat (sys_displays st ! i)))
                (dp_client (sys_displays st ! i)) = Some c
          \<Longrightarrow> sys_step tz metroLines st
                (st\<lparr>sys_displays := (sys_displays st)[i := (sys_displays st ! i)\<lparr>dp_client := c\<rparr>]\<rparr>)"

text \<open>
  A display's list is well-formed when every service in it carries its \<open>timeText\<close>,
  which \<open>updateInfo\<close> and the next-service panels show.
\<close>

definition client_stamped :: "client \<Rightarrow> bool" where
  "client_stamped c = list_all (\<lambda>s. sv_timeText s \<noteq> None) (cl_data c)"

definition stamped :: "system \<Rightarrow> bool" where
  "stamped st = list_all (\<lambda>d. client_stamped (dp_client d)) (sys_displays st)"

subsection \<open>Lemmas\<close>

lemma startup_station_numeric:
  "js_string_to_int s = Some i \<Longrightarrow> startup_station (Some s) search = StartWith (StationString s)"
  by (simp add: startup_station_def)

lemma startup_station_search:
  "js_string_to_int s = None \<Longrightarrow>
   startup_station (Some s) (Some (st # sts)) = StartWith (StationNumber (ss_stop_id st))"
  by (simp add: startup_station_def)

lemma startup_station_numeric_loose:
  "js_string_to_int s = Some i \<Longrightarrow> startup_station (Some s) search = StartWith v \<Longrightarrow> station_loose_eq i v"
  by (auto simp: startup_station_def)

lemma send_client [simp]: "dp_client (send m d) = dp_client d" "dp_plat (send m d) = dp_plat d"
  by (simp_all add: send_def)

lemma notify_client [simp]: "dp_client (notify ns d) = dp_client d" "dp_plat (notify ns d) = dp_plat d"
  by (simp_all add: notify_def split: option.split)

lemma stamp_timeText [simp]: "sv_timeText (stamp tz s) = Some (time_text tz (sv_time s))"
  by (simp add: stamp_def)

lemma clock_step_stamped:
  assumes "clock_step tz now after c = (c', again)" and "client_stamped c"
  shows "client_stamped c'"
proof -
  have tl: "list_all (\<lambda>s. sv_timeText s \<noteq> None) (tl (cl_data c))"
    using assms(2) by (cases "cl_data c") (simp_all add: client_stamped_def)
  show ?thesis
    using assms(1) tl assms(2)
    by (auto simp: client_stamped_def clock_step_def Let_def split: prod.splits if_splits http.splits)
qed

lemma updateClock_stamped:
  "updateClock n tz now after c = Some c' \<Longrightarrow> client_stamped c \<Longrightarrow> client_stamped c'"
proof (induction n arbitrary: c)
  case (Suc n)
  obtain c1 again where step: "clock_step tz now after c = (c1, again)" by (metis surj_pair)
  then have "client_stamped c1"
    using clock_step_stamped Suc.prems(2) by blast
  then show ?case
    using Suc step by (cases again) auto
qed simp

lemma fetchData_stamped: "client_stamped (fst (fetchData tz now r c))"
  by (simp add: client_stamped_def fetchData_def Let_def list_all_iff split: prod.split)

lemma handle_stamped: "client_stamped (dp_client d) \<Longrightarrow> client_stamped (dp_client (handle tz now b d))"
  using fetchData_stamped [of tz now "plat_endpoint b (dp_plat d)" "dp_client d"]
  by (auto simp: handle_def client_stamped_def on_append_def split: list.split push.split)

lemma list_all_update: "list_all P xs \<Longrightarrow> P x \<Longrightarrow> list_all P (xs[i := x])"
  by (auto simp: list_all_iff dest: set_update_subset_insert [THEN subsetD])

lemma sys_step_stamped: "sys_step tz metroLines st st' \<Longrightarrow> stamped st \<Longrightarrow> stamped st'"
proof (induction rule: sys_step.induct)
  case (message i st now)
  then have "client_stamped (dp_client (sys_displays st ! i))"
    by (simp add: stamped_def list_all_length)
  then show ?case
    using message by (simp add: stamped_def deliver_def list_all_update handle_stamped)
next
  case (clock i st n now c)
  then have "client_stamped (dp_client (sys_displays st ! i))"
    by (simp add: stamped_def list_all_length)
  then show ?case
    using clock updateClock_stamped by (simp add: stamped_def list_all_update)
qed (auto simp: stamped_def daily_start_def daily_settle_def minute_def connect_def new_display_def
                client_stamped_def list_all_iff Let_def split: option.split prod.split)

lemma updateInfo_empty:
  "updateInfo now [] pg = (pg\<lparr>pg_main_class := ''announcement'',
                             pg_announcement := ''No trains departing from this platform''\<rparr>, None)"
  by (simp add: updateInfo_def)

lemma load_page_without_num:
  assumes "map_of params ''num'' = None" and "map_of b ''null'' = None"
  shows "sys_displays (load_page params st) = sys_displays st @ [new_display ''null'']"
    and "dp_inbox (handle tz now b (new_display ''null'')) = []
         \<and> cl_data (dp_client (handle tz now b (new_display ''null''))) = []
         \<and> pg_announcement (cl_page (dp_client (handle tz now b (new_display ''null''))))
             = ''No trains departing from this platform''"
  using assms
  by (simp_all add: load_page_def page_platform_def connect_def handle_def new_display_def fetchData_def
      plat_endpoint_def departures_plat_def http_map_def updateInfo_empty)

lemma tick_platform_result_in:
  assumes "tick_platform env now l = (l', Some (Inr d))"
  shows "d \<in> set l'"
proof -
  let ?k = "min (length l - 1) 3"
  have "1 < length l \<and> l' = l[?k := fetchDepartureDetails_obj env (l ! ?k)]
        \<and> fetchDepartureDetails env (l ! ?k) = Inr d"
    using tick_platform_cases [OF assms] by auto
  moreover have "?k < length l" using calculation by auto
  ultimately show ?thesis
    using fetchDepartureDetails_obj_Inr by (auto intro: set_update_memI)
qed

lemma tick_notification_source:
  assumes "tick env now b = (b', Some ns)" and "(p, d) \<in> set ns" and "distinct (map fst b)"
  shows "\<exists>l'. map_of b' p = Some l' \<and> d \<in> set l'"
proof -
  let ?rs = "map (\<lambda>(p, l). (p, tick_platform env now l)) b"
  let ?started = "concat (map (\<lambda>(p, _, r). case r of None \<Rightarrow> [] | Some x \<Rightarrow> [(p, x)]) ?rs)"
  have "res_map (\<lambda>(p, x). res_bind x (\<lambda>d. Inr (p, d))) ?started = Inr ns"
    using assms(1) by (auto simp: tick_def Let_def split: sum.splits)
  then have "list_all2 (\<lambda>x y. (\<lambda>(p, x). res_bind x (\<lambda>d. Inr (p, d))) x = Inr y) ?started ns"
    by (simp add: res_map_Inr_iff)
  moreover obtain k where k: "k < length ns" and nk: "ns ! k = (p, d)"
    using assms(2) by (meson in_set_conv_nth)
  ultimately have len: "k < length ?started"
    and f: "(\<lambda>(p, x). res_bind x (\<lambda>d. Inr (p, d))) (?started ! k) = Inr (p, d)"
    using list_all2_nthD2 [of _ ?started ns k] list_all2_lengthD by fastforce+
  obtain p0 x where sk: "?started ! k = (p0, x)" by (metis surj_pair)
  have px: "(p0, x) \<in> set ?started"
    using len sk by (metis nth_mem)
  have "res_bind x (\<lambda>d. Inr (p0, d)) = Inr (p, d)"
    using f sk by simp
  then have "x = Inr d" and "p0 = p"
    by (auto simp: res_bind_def split: sum.splits)
  with px have "(p, Inr d) \<in> set ?started" by simp
  then obtain p1 l where q: "(p1, l) \<in> set b"
    and mem: "(p, Inr d) \<in> set (case snd (tick_platform env now l) of None \<Rightarrow> [] | Some x \<Rightarrow> [(p1, x)])"
    by (auto simp: case_prod_beta)
  have "p1 = p" and t: "snd (tick_platform env now l) = Some (Inr d)"
    using mem by (auto split: option.splits)
  with q have l: "(p, l) \<in> set b" by simp
  have "map_of b p = Some l"
    using l assms(3) by (rule map_of_is_SomeI [rotated])
  moreover have "b' = map (\<lambda>(p, l). (p, fst (tick_platform env now l))) b"
    using tick_fst [of env now b] assms(1) by simp
  moreover have "d \<in> set (fst (tick_platform env now l))"
    using t by (intro tick_platform_result_in [of env now l _ d]) (metis prod.collapse)
  ultimately show ?thesis
    by (auto simp: map_of_map case_prod_beta)
qed

lemma minute_inbox:
  assumes "tick (sys_env st) now (sys_board st) = (b', ns)" and "i < length (sys_displays st)"
  shows "sys_board (minute now st) = b'"
    and "sys_displays (minute now st) ! i = notify ns (sys_displays st ! i)"
  using assms by (simp_all add: minute_def)

lemma handle_refresh:
  "dp_inbox d = PushRefresh # ms \<Longrightarrow>
   handle tz now b d =
     d\<lparr>dp_inbox := ms, dp_client := fst (fetchData tz now (plat_endpoint b (dp_plat d)) (dp_client d))\<rparr>"
  by (simp add: handle_def)

lemma fetchData_data:
  "plat_endpoint b p = Http200 l \<Longrightarrow> cl_data (fst (fetchData tz now (plat_endpoint b p) c)) = map (stamp tz) l"
  by (simp add: fetchData_def Let_def split: prod.split)

lemma plat_endpoint_Some:
  "map_of b p = Some l \<Longrightarrow> plat_endpoint b p = Http200 (map to_service (take 3 l))"
  by (simp add: plat_endpoint_def departures_plat_def http_map_def)

text \<open>
  C24: the server runs in CBD mode (\<open>cbdStation\<close>, line 148) exactly when
  \<open>STATION\<close> was not numeric, the station search found it and its first stop is one of
  the five CBD stations. A numeric \<open>STATION\<close> stays the environment string, which the
  strict \<open>includes\<close> of line 146 never finds: configured by its id, a CBD station is
  treated as suburban, and its runs are cut at Flinders Street instead of being shown
  with their distributor's destination.
\<close>

theorem startup_station_cbd:
  assumes "startup_station STATION search = StartWith v"
  shows "cbdStation v \<longleftrightarrow>
           (case STATION of None \<Rightarrow> True | Some s \<Rightarrow> js_string_to_int s = None)
           \<and> (case search of None \<Rightarrow> False | Some stops \<Rightarrow> isCBDStation (ss_stop_id (hd stops)))"
  using assms by (auto simp: startup_station_def split: if_splits option.splits)

theorem startup_station_cbd_witness:
  "\<not> cbdStation (StationString ''1181'') \<and> cbdStation (StationNumber 1181)"
proof -
  let ?found = "Some [\<lparr>ss_stop_id = 1181, ss_stop_name = ''Southern Cross''\<rparr>]"
  have n: "js_string_to_int ''1181'' = Some 1181"
    by (simp add: js_string_to_int_def js_trim_def js_white_def digit_value_def)
  have w: "js_string_to_int ''Southern Cross'' = None"
    by (simp add: js_string_to_int_def js_trim_def js_white_def digit_value_def)
  have h1: "startup_station (Some ''1181'') ?found = StartWith (StationString ''1181'')"
    using n by (simp add: startup_station_def)
  have h2: "startup_station (Some ''Southern Cross'') ?found = StartWith (StationNumber 1181)"
    using w by (simp add: startup_station_def)
  show ?thesis
    using startup_station_cbd [OF h1] startup_station_cbd [OF h2] n w by (simp add: isCBDStation_def)
qed

text \<open>
  C16: a divergence from the specification, which publishes the new board and
  then tells the displays to reload: the daily job sends \<open>refresh\<close> when the refresh
  starts, so a display can reload from the old board, and once the new board is published
  no message is pending for it: the display keeps the old board's first three services.
\<close>

theorem daily_refresh_reload_stale:
  assumes "sys_pending st = None" and "i < length (sys_displays st)"
    and "dp_inbox (sys_displays st ! i) = []"
    and "fetchDepartures metroLines (sys_env st) now resp = (colours, Inr b)"
    and "map_of (sys_board st) (dp_plat (sys_displays st ! i)) = Some l"
  shows "\<exists>st'. (sys_step tz metroLines)\<^sup>*\<^sup>* st st' \<and> sys_board st' = b \<and> sys_pending st' = None
               \<and> dp_inbox (sys_displays st' ! i) = []
               \<and> cl_data (dp_client (sys_displays st' ! i)) = map (stamp tz \<circ> to_service) (take 3 l)"
proof -
  let ?s1 = "daily_start metroLines now resp st"
  let ?s2 = "deliver tz now i ?s1"
  let ?s3 = "daily_settle ?s2"
  have s1: "sys_pending ?s1 = Some (colours, Inr b)" "i < length (sys_displays ?s1)"
    "dp_inbox (sys_displays ?s1 ! i) = [PushRefresh]" "sys_board ?s1 = sys_board st"
    "dp_plat (sys_displays ?s1 ! i) = dp_plat (sys_displays st ! i)"
    using assms(2-4) by (simp_all add: daily_start_def send_def)
  have s2: "sys_pending ?s2 = Some (colours, Inr b)" "dp_inbox (sys_displays ?s2 ! i) = []"
    "cl_data (dp_client (sys_displays ?s2 ! i)) = map (stamp tz \<circ> to_service) (take 3 l)"
    using s1 plat_endpoint_Some [OF assms(5)] fetchData_data
    by (simp_all add: deliver_def handle_refresh)
  have s3: "sys_board ?s3 = b" "sys_pending ?s3 = None" "dp_inbox (sys_displays ?s3 ! i) = []"
    "cl_data (dp_client (sys_displays ?s3 ! i)) = map (stamp tz \<circ> to_service) (take 3 l)"
    using s2 by (simp_all add: daily_settle_def)
  have "(sys_step tz metroLines)\<^sup>*\<^sup>* st ?s3"
  proof -
    have "sys_step tz metroLines st ?s1" using assms(1) by (rule cron_daily)
    moreover have "sys_step tz metroLines ?s1 ?s2" using s1 by (intro message) simp_all
    moreover have "sys_step tz metroLines ?s2 ?s3" using s2 by (intro refresh_done) simp
    ultimately show ?thesis by (meson rtranclp.rtrancl_into_rtrancl rtranclp.rtrancl_refl)
  qed
  then show ?thesis using s3 by blast
qed

theorem daily_refresh_reload_stale_witness:
  "\<exists>st'. (sys_step 0 ex_lines)\<^sup>*\<^sup>*
           \<lparr>sys_env = ex_env (StationNumber 1000), sys_board = [(''1'', [ex_dep ''999'' ''cityloop''])],
            sys_pending = None,
            sys_displays = [\<lparr>dp_plat = ''1'', dp_inbox = [], dp_client = \<lparr>cl_data = [], cl_page = blank_page\<rparr>\<rparr>]\<rparr>
           st'
         \<and> sys_board st' = ex_board \<and> sys_pending st' = None \<and> dp_inbox (sys_displays st' ! 0) = []
         \<and> cl_data (dp_client (sys_displays st' ! 0))
             = map (stamp 0 \<circ> to_service) (take 3 [ex_dep ''999'' ''cityloop''])"
  by (rule daily_refresh_reload_stale [where now = 0 and resp = "Some ex_response"
                                        and colours = "env_colours (ex_env (StationNumber 1000))"])
     (simp_all add: ex_refresh)

text \<open>
  C17: a type invariant of the composed system: in every state reachable from
  displays with well-formed lists, under any interleaving of the server's jobs and the
  displays' handlers, every service a display holds carries its \<open>timeText\<close>.
\<close>

theorem sys_reach_stamped:
  assumes "(sys_step tz metroLines)\<^sup>*\<^sup>* st st'" and "stamped st"
  shows "stamped st'"
  using assms by (induction rule: rtranclp_induct) (auto intro: sys_step_stamped)

theorem sys_reach_stamped_witness:
  "stamped (deliver 0 0 0 (connect ''1''
     \<lparr>sys_env = ex_env (StationNumber 1000), sys_board = ex_board, sys_pending = None,
      sys_displays = []\<rparr>))"
proof -
  let ?s0 = "\<lparr>sys_env = ex_env (StationNumber 1000), sys_board = ex_board, sys_pending = None,
              sys_displays = []\<rparr>"
  have "sys_step 0 ex_lines ?s0 (connect ''1'' ?s0)" by (rule reconnect)
  moreover have "sys_step 0 ex_lines (connect ''1'' ?s0) (deliver 0 0 0 (connect ''1'' ?s0))"
    by (rule message) (simp_all add: connect_def new_display_def)
  ultimately have "(sys_step 0 ex_lines)\<^sup>*\<^sup>* ?s0 (deliver 0 0 0 (connect ''1'' ?s0))"
    by (meson rtranclp.rtrancl_into_rtrancl rtranclp.rtrancl_refl)
  moreover have "stamped ?s0" by (simp add: stamped_def)
  ultimately show ?thesis by (rule sys_reach_stamped)
qed

text \<open>
  C19: opening the display page for a platform (pid.js lines 1 and 113--129)
  connects a display to that platform; the server's \<open>refresh\<close> on connection (line 51)
  is its first message, and once it is handled the display holds the first three services
  of the platform's queue as the server then has it, each with its printed time, and has
  no message left.
\<close>

theorem load_page_shows_platform:
  assumes "map_of params ''num'' = Some p" and "map_of (sys_board st) p = Some l"
  shows "dp_plat (last (sys_displays (deliver tz now (length (sys_displays st)) (load_page params st)))) = p
         \<and> dp_inbox (last (sys_displays (deliver tz now (length (sys_displays st)) (load_page params st)))) = []
         \<and> cl_data (dp_client (last (sys_displays (deliver tz now (length (sys_displays st)) (load_page params st)))))
             = map (stamp tz \<circ> to_service) (take 3 l)"
proof -
  have pl: "page_platform params = p" using assms(1) by (simp add: page_platform_def)
  have ds: "sys_displays (deliver tz now (length (sys_displays st)) (load_page params st))
              = sys_displays st @ [handle tz now (sys_board st) (new_display p)]"
    by (simp add: deliver_def load_page_def connect_def pl)
  have h: "handle tz now (sys_board st) (new_display p)
             = (new_display p)\<lparr>dp_inbox := [],
                 dp_client := fst (fetchData tz now (plat_endpoint (sys_board st) p) (dp_client (new_display p)))\<rparr>"
    by (simp add: handle_refresh new_display_def)
  have "cl_data (fst (fetchData tz now (plat_endpoint (sys_board st) p) (dp_client (new_display p))))
          = map (stamp tz) (map to_service (take 3 l))"
    using fetchData_data [OF plat_endpoint_Some [OF assms(2)]] plat_endpoint_Some [OF assms(2)] by simp
  then show ?thesis
    using ds h by (simp add: new_display_def)
qed

theorem load_page_shows_platform_witness:
  "cl_data (dp_client (last (sys_displays (deliver 0 600000 0 (load_page [(''num'', ''1'')]
      \<lparr>sys_env = ex_env (StationNumber 1000), sys_board = ex_tick_board, sys_pending = None,
       sys_displays = []\<rparr>)))))
   = map (stamp 0 \<circ> to_service) [ex_dep ''101'' ''cityloop'', ex_dep ''104'' ''burnley'']"
proof -
  have h1: "map_of [(''num'', ''1'')] ''num'' = Some ''1''" by simp
  have h2: "map_of (sys_board \<lparr>sys_env = ex_env (StationNumber 1000), sys_board = ex_tick_board,
                               sys_pending = None, sys_displays = []\<rparr>) ''1''
              = Some [ex_dep ''101'' ''cityloop'', ex_dep ''104'' ''burnley'']"
    by (simp add: ex_tick_board_def)
  show ?thesis
    using load_page_shows_platform [OF h1 h2, of 0 600000] by simp
qed

text \<open>
  C18: the per-display fan-out of the minute job (lines 328--343): on a board with
  one queue per platform, every \<open>append\<close> the job sends a display carries a service
  that is in the queue of that display's own platform on the new board.
\<close>

theorem minute_appends_own_platform:
  assumes "board_ok (sys_board st)" and "i < length (sys_displays st)"
    and "PushAppend s \<in> set (dp_inbox (sys_displays (minute now st) ! i))"
    and "PushAppend s \<notin> set (dp_inbox (sys_displays st ! i))"
  shows "\<exists>l. map_of (sys_board (minute now st)) (dp_plat (sys_displays st ! i)) = Some l
             \<and> (\<exists>d. d \<in> set l \<and> s = to_service d)"
proof -
  obtain b' ns where t: "tick (sys_env st) now (sys_board st) = (b', ns)" by (metis surj_pair)
  let ?d = "sys_displays st ! i"
  obtain ns' dep where ns: "ns = Some ns'" and ca: "client_append ns' (dp_plat ?d) = Some dep"
    and s: "s = to_service dep"
    using assms(3,4) minute_inbox [OF t assms(2)]
    by (auto simp: notify_def send_def split: option.splits)
  have "(dp_plat ?d, dep) \<in> set ns'"
    using ca by (auto simp: client_append_def dest: map_of_SomeD)
  then obtain l where "map_of b' (dp_plat ?d) = Some l" and "dep \<in> set l"
    using tick_notification_source [OF t [unfolded ns]] assms(1) by (auto simp: board_ok_def)
  then show ?thesis
    using s minute_inbox [OF t assms(2)] by auto
qed

theorem minute_appends_own_platform_witness:
  "\<exists>l. map_of (sys_board (minute 600000
          \<lparr>sys_env = ex_env (StationNumber 1000),
           sys_board = [(''1'', [ex_dep ''101'' ''cityloop'', (ex_dep ''104'' ''burnley'')\<lparr>dep_time := 660000\<rparr>])],
           sys_pending = None,
           sys_displays = [\<lparr>dp_plat = ''1'', dp_inbox = [], dp_client = \<lparr>cl_data = [], cl_page = blank_page\<rparr>\<rparr>]\<rparr>))
         ''1'' = Some l
       \<and> (\<exists>d. d \<in> set l \<and> to_service ((ex_resolved ''104'' ''burnley'' ''Flinders Street'' [1000, 1120, 1071])
                                          \<lparr>dep_time := 660000\<rparr>) = to_service d)"
proof -
  let ?r = "(ex_resolved ''104'' ''burnley'' ''Flinders Street'' [1000, 1120, 1071])\<lparr>dep_time := 660000\<rparr>"
  let ?st = "\<lparr>sys_env = ex_env (StationNumber 1000),
              sys_board = [(''1'', [ex_dep ''101'' ''cityloop'', (ex_dep ''104'' ''burnley'')\<lparr>dep_time := 660000\<rparr>])],
              sys_pending = None,
              sys_displays = [\<lparr>dp_plat = ''1'', dp_inbox = [], dp_client = \<lparr>cl_data = [], cl_page = blank_page\<rparr>\<rparr>]\<rparr>"
  have ok: "board_ok (sys_board ?st)"
    by (simp add: board_ok_def sorted_by_def ex_dep_def)
  have "tick (ex_env (StationNumber 1000)) 600000 (sys_board ?st)
          = ([(''1'', [ex_dep ''101'' ''cityloop'', ?r])], Some [(''1'', ?r)])"
    using fetchDepartureDetails_obj_Inr [OF e104] e104
    by (simp add: tick_def tick_platform_def ex_dep_def res_bind_def)
  then have "PushAppend (to_service ?r) \<in> set (dp_inbox (sys_displays (minute 600000 ?st) ! 0))"
    by (simp add: minute_def notify_def send_def client_append_def)
  then show ?thesis
    using minute_appends_own_platform [OF ok, where i = 0 and now = 600000 and s = "to_service ?r"] by simp
qed

end
