(* ===== verification/PID_Upstream.thy ===== *)
theory PID_Upstream
  imports PID_System
begin

text \<open>
  Access to the timetable API and the start of the server (src/app.js lines 17--23 and
  the tail of \<open>main\<close>). \<open>generateURL\<close> appends the developer id and an HMAC-SHA1
  signature of the request's path and query; the digest itself is node's crypto library,
  here a parameter \<open>hmac\<close> that yields the lower-case hex digest of a message under a
  key. \<open>server_start\<close> resolves the station (\<open>startup_station\<close>) and awaits the first
  full refresh (line 289) before the cron jobs are scheduled and the port is opened.
\<close>

subsection \<open>Request signing\<close>

text \<open>
  \<open>url.pathname + url.search\<close> of \<open>new URL(query)\<close> for an \<open>https\<close> URL whose base
  has a path: everything from the first \<open>/\<close> after the authority. For the URLs the
  server builds (an \<open>API_BASE\<close> of the form \<open>https://host/path\<close>, paths and queries
  already percent-encoded, no fragment) this is what the URL parser returns.
\<close>

definition url_path_search :: "string \<Rightarrow> string" where
  "url_path_search u = dropWhile (\<lambda>c. c \<noteq> CHR ''/'') (drop (length ''https://'') u)"

text \<open>
  \<open>generateURL(query)\<close>, lines 17--23: \<open>API_ID\<close> may be \<open>undefined\<close>, which string
  concatenation prints as \<open>undefined\<close>.
\<close>

definition generateURL ::
  "string \<Rightarrow> string option \<Rightarrow> (string \<Rightarrow> string \<Rightarrow> string) \<Rightarrow> string \<Rightarrow> string \<Rightarrow> string"
where
  "generateURL API_BASE API_ID hmac API_KEY query =
     (let query = API_BASE @ query @ (if CHR ''?'' \<in> set query then ''&'' else ''?'')
                  @ ''devid='' @ js_text API_ID;
          sig = map js_upper_char (hmac API_KEY (url_path_search query))
      in query @ ''&signature='' @ sig)"

text \<open>
  How the API checks a request (the specification's upstream interface): the last
  parameter is the signature, and it must be the upper-cased digest of the path and query
  before it. The result is the URL that was signed.
\<close>

definition split_signature :: "string \<Rightarrow> (string \<times> string) option" where
  "split_signature u =
     (let r = rev u in
      case dropWhile (\<lambda>c. c \<noteq> CHR ''&'') r of
        [] \<Rightarrow> None
      | _ # unsigned \<Rightarrow> Some (rev unsigned, rev (takeWhile (\<lambda>c. c \<noteq> CHR ''&'') r)))"

definition verify_url :: "(string \<Rightarrow> string \<Rightarrow> string) \<Rightarrow> string \<Rightarrow> string \<Rightarrow> string option" where
  "verify_url hmac key u =
     (case split_signature u of
        None \<Rightarrow> None
      | Some (unsigned, param) \<Rightarrow>
          (if param = ''signature='' @ map js_upper_char (hmac key (url_path_search unsigned))
           then Some unsigned else None))"

subsection \<open>Starting the server\<close>

text \<open>
  \<open>main\<close> up to line 289: the station is resolved, \<open>routeColours\<close> starts empty
  (line 155), and the first refresh is awaited. A rejection of that refresh rejects
  \<open>main\<close> before the cron jobs and the listener are set up, so the server never serves;
  otherwise it serves the refreshed board with no display connected yet.
\<close>

datatype server_init = InitFailed error | InitExit | InitServing system

definition server_start ::
  "line_table \<Rightarrow> pattern_api \<Rightarrow> string option \<Rightarrow> search_stop list option \<Rightarrow> millis
   \<Rightarrow> departures_response option \<Rightarrow> server_init"
where
  "server_start metroLines api STATION search now resp =
     (case startup_station STATION search of
        StartFailed e \<Rightarrow> InitFailed e
      | StartExit \<Rightarrow> InitExit
      | StartWith v \<Rightarrow>
          (let env = \<lparr>env_station = v, env_colours = (\<lambda>_. None), env_api = api\<rparr> in
           case fetchDepartures metroLines env now resp of
             (_, Inl e) \<Rightarrow> InitFailed e
           | (colours, Inr b) \<Rightarrow>
               InitServing \<lparr>sys_env = env\<lparr>env_colours := colours\<rparr>, sys_board = b, sys_pending = None,
                            sys_displays = []\<rparr>))"

subsection \<open>Lemmas\<close>

lemma js_upper_char_amp: "(js_upper_char c = CHR ''&'') = (c = CHR ''&'')"
  by (auto simp: js_upper_char_def split: option.split dest!: map_of_SomeD set_zip_rightD)

lemma split_signature_append:
  "CHR ''&'' \<notin> set s \<Longrightarrow> split_signature (x @ CHR ''&'' # s) = Some (x, s)"
proof -
  assume s: "CHR ''&'' \<notin> set s"
  have "takeWhile (\<lambda>c. c \<noteq> CHR ''&'') (rev s @ CHR ''&'' # rev x) = rev s"
    by (rule trans [OF takeWhile_append2]) (use s in auto)
  moreover have "dropWhile (\<lambda>c. c \<noteq> CHR ''&'') (rev s @ CHR ''&'' # rev x) = CHR ''&'' # rev x"
    by (rule trans [OF dropWhile_append2]) (use s in auto)
  ultimately show ?thesis
    by (simp add: split_signature_def)
qed

lemma upper_no_amp: "CHR ''&'' \<notin> set s \<Longrightarrow> CHR ''&'' \<notin> set (map js_upper_char s)"
proof
  assume s: "CHR ''&'' \<notin> set s" and "CHR ''&'' \<in> set (map js_upper_char s)"
  then obtain x where "x \<in> set s" and "js_upper_char x = CHR ''&''" by auto
  then show False using s by (simp add: js_upper_char_amp)
qed

lemma url_path_search_base:
  assumes "CHR ''/'' \<notin> set host"
  shows "url_path_search (''https://'' @ host @ CHR ''/'' # rest) = CHR ''/'' # rest"
proof -
  have "\<forall>x\<in>set host. x \<noteq> CHR ''/''" using assms by auto
  then show ?thesis by (simp add: url_path_search_def dropWhile_append2)
qed

text \<open>
  C20: the signing of \<open>generateURL\<close> round-trips through the API's check: for any
  digest without \<open>&\<close> (a hex digest), the signature is the last parameter and is the
  digest of exactly the path and query that precede it, developer id included, so the
  check accepts the request and recovers the URL that was signed.
\<close>

theorem generateURL_verifies:
  assumes "\<forall>m. CHR ''&'' \<notin> set (hmac API_KEY m)"
  shows "verify_url hmac API_KEY (generateURL API_BASE API_ID hmac API_KEY query)
           = Some (API_BASE @ query @ (if CHR ''?'' \<in> set query then ''&'' else ''?'')
                   @ ''devid='' @ js_text API_ID)"
proof -
  let ?q = "API_BASE @ query @ (if CHR ''?'' \<in> set query then ''&'' else ''?'') @ ''devid='' @ js_text API_ID"
  let ?sig = "map js_upper_char (hmac API_KEY (url_path_search ?q))"
  have url: "generateURL API_BASE API_ID hmac API_KEY query = ?q @ CHR ''&'' # (''signature='' @ ?sig)"
    by (simp add: generateURL_def Let_def)
  have "CHR ''&'' \<notin> set (''signature='' @ ?sig)"
    using upper_no_amp assms by simp
  then have "split_signature (generateURL API_BASE API_ID hmac API_KEY query) = Some (?q, ''signature='' @ ?sig)"
    unfolding url by (rule split_signature_append)
  then show ?thesis
    by (simp add: verify_url_def)
qed

theorem generateURL_verifies_witness:
  "verify_url (\<lambda>k m. ''3fa9'') ''key''
     (generateURL ''https://timetableapi.ptv.vic.gov.au/v3'' (Some ''1000'') (\<lambda>k m. ''3fa9'') ''key''
        ''/departures/route_type/0/stop/1071?max_results=3'')
   = Some ''https://timetableapi.ptv.vic.gov.au/v3/departures/route_type/0/stop/1071?max_results=3&devid=1000''"
  using generateURL_verifies [of "\<lambda>k m. ''3fa9''" "''key''" "''https://timetableapi.ptv.vic.gov.au/v3''"
          "Some ''1000''" "''/departures/route_type/0/stop/1071?max_results=3''"]
  by (simp add: js_text_def)

lemma server_start_rejected:
  assumes "startup_station STATION search = StartWith v"
    and "snd (fetchDepartures metroLines \<lparr>env_station = v, env_colours = (\<lambda>_. None), env_api = api\<rparr> now resp)
           = Inl e"
  shows "server_start metroLines api STATION search now resp = InitFailed e"
proof -
  obtain c where "fetchDepartures metroLines \<lparr>env_station = v, env_colours = (\<lambda>_. None), env_api = api\<rparr>
                    now resp = (c, Inl e)"
    using assms(2) by (metis prod.collapse)
  then show ?thesis using assms(1) by (simp add: server_start_def)
qed

lemma server_start_serves:
  assumes "startup_station STATION search = StartWith v"
    and "fetchDepartures metroLines \<lparr>env_station = v, env_colours = (\<lambda>_. None), env_api = api\<rparr> now resp
           = (colours, Inr b)"
  shows "\<exists>st. server_start metroLines api STATION search now resp = InitServing st
              \<and> sys_board st = b \<and> sys_pending st = None \<and> stamped st"
  using assms by (simp add: server_start_def stamped_def)

end
