(* ===== verification/Spec2Isabelle.thy ===== *)
theory Spec2Isabelle
  imports PID_Upstream
begin

text \<open>
  \<^bold>\<open>A verification development of the Melbourne Metro platform display server.\<close>

  The program (src/app.js) polls the PTV timetable API for one station and serves
  per-platform departure boards to display clients (src/static/assets/js/pid.js). Its
  parts, leaves first, and the theory that models each:

  \<^item> PID_Prelude: the shared vocabulary. JavaScript values are named by type synonyms
    (\<open>stop_id\<close>, \<open>run_ref\<close>, \<open>millis\<close>, \<open>platform\<close>); a rejected promise or a thrown
    exception is a value of \<open>error\<close> (\<open>FetchFailed\<close> for a failed \<open>axios.get\<close>,
    \<open>TypeError\<close> for a read of a property of \<open>undefined\<close>) and every fallible operation
    returns \<open>error + 'a\<close>; \<open>js_at\<close> is JavaScript's array read, \<open>undefined\<close> out of
    range; \<open>res_map\<close> is \<open>Promise.all\<close> over a list. Generic list lemmas are collected
    in \<open>pid_simps\<close>.
  \<^item> PID_Strings: the string code the server relies on: the regular expressions of
    \<open>fetchPattern\<close> (lines 129--130) and \<open>shortenName\<close> (151--153), \<open>trim\<close>,
    \<open>toUpperCase\<close> of the first character, \<open>parseInt\<close> and the \<open>ToNumber\<close> of a
    numeric string, each as a recursive function on character lists.
  \<^item> PID_Routes: the Route Colour Map (\<open>routeColours\<close>, lines 155 and 245--251), a map
    from route id to service group, updated by a fold over the response's routes.
  \<^item> PID_Pattern: the Pattern Fetcher \<open>fetchPattern\<close> (lines 113--137): one request,
    then a walk over the pattern's departures that starts saving at the home station
    (\<open>pattern_walk\<close>), emitting each served stop followed by the stops it skips.
  \<^item> PID_Classifier: the Pattern Classifier, lines 216--229 of
    \<open>fetchDepartureDetails\<close>: a scan counting the legs of skipped stops
    (\<open>skip_scan\<close>) and the subtitle chosen from the counts.
  \<^item> PID_Resolver: the Destination Resolver \<open>fetchDepartureDetails\<close> (lines
    139--236). The three locations it mutates (\<open>dep.dest\<close>, \<open>dep.stations\<close>,
    \<open>result.run.final_stop_id\<close>) form \<open>details_state\<close>; each block of the source is
    one function on it (\<open>details_start\<close>, \<open>resolve_extension\<close> with
    \<open>apply_distributor\<close> and \<open>splice_from\<close>, \<open>city_loop_correction\<close> with
    \<open>scan_back\<close>, \<open>finish_details\<close>), composed with the result bind in the order of
    the source. An example timetable (\<open>ex_api\<close>) supplies the witnesses.
  \<^item> PID_Board: the Board State Manager and the Query Surface: the full refresh
    \<open>fetchDepartures\<close> (lines 238--288: colour map, bucketing by platform, enrichment
    of the first three of each platform under \<open>Promise.all\<close>), the minute tick (lines
    295--347) and the read endpoints (lines 56--111). The board is an association list
    from platform to queue. Enrichment started by a step settles within that step;
    \<open>fetchDepartureDetails_obj\<close> is the departure object after it settles, rejected
    or not, since the source writes into the board's object before it can throw.
  \<^item> PID_Live: the minute tick as JavaScript runs it: departure objects in a heap, each
    platform an array of references that may have holes (\<open>js_write\<close> past the end), and
    the enrichments a tick starts as pending tasks that remember the index they will write
    (line 313). \<open>tick_live\<close> is one cron callback, aborted by an exception; \<open>settle\<close> is
    one promise settling; \<open>live_step\<close> lets both happen in any order. \<open>live_board\<close>
    reads the heap back as a board of PID_Board.
  \<^item> PID_Client: the display page pid.js. A service is the JSON object the server sends
    (\<open>to_service\<close>); \<open>printTime\<close> prints a time in the zone \<open>tz\<close>; \<open>updateInfo\<close> renders
    the first service, its station columns (\<open>fill_column\<close> and \<open>build_columns\<close>, the two
    loops of lines 32--43) and the next-service panels, and returns the exception it may
    throw; \<open>clock_step\<close> is one activation of \<open>updateClock\<close> and \<open>updateClock\<close> the
    chain of activations its recursive call starts; \<open>fetchData\<close> and \<open>on_append\<close> handle
    the two push messages. The page is a record of the strings written into its elements.
  \<^item> PID_System: the server and its connected displays, each with its platform, its queue
    of push messages and its client state: the daily job (\<open>daily_start\<close>, which sends
    \<open>refresh\<close> to every display at once, and \<open>daily_settle\<close>, which publishes), the
    minute job with its per-platform \<open>append\<close> messages (\<open>minute\<close>, \<open>notify\<close>), a display
    connecting (\<open>connect\<close>, \<open>load_page\<close> with the page's \<open>num\<close> parameter), handling
    its oldest message (\<open>deliver\<close>, \<open>handle\<close>) or running \<open>updateClock\<close>, in any order
    (\<open>sys_step\<close>); and the resolution of \<open>STATION\<close> at startup (\<open>startup_station\<close>,
    lines 26--37), which keeps a numeric station as a string.
  \<^item> PID_Upstream: the request signing \<open>generateURL\<close> (lines 17--23), with the HMAC-SHA1
    digest of node's crypto library as a parameter and the API's signature check as its
    counterpart, and the start of the server (\<open>server_start\<close>: the station, then the first
    refresh awaited at line 289 before the cron jobs and the listener).

  What the lemma groups show:
  \<^item> Strings: \<open>shortenName\<close> equals its single-line description on names without line
    breaks; \<open>parseInt\<close> reads a printed decimal back exactly.
  \<^item> Pattern Fetcher: \<open>fetchPattern\<close> refines a declarative description (drop the
    departures before the home station, emit served and skipped stops); the home station
    itself is the first stop of the list.
  \<^item> Classifier: the loop computes the reference leg count and the reference subtitle;
    the subtitle for each class of stop list.
  \<^item> Resolver: the result on each path (no CBD terminus, distributor extension, City-Loop
    truncation), that a resolved departure has all three display fields and keeps its
    identity, and idempotence; two defects as general theorems: the name read of line
    205 from the unextended list, which rejects whenever the Flinders Street stop lies
    only in the distributor's part, and the dead City-Loop label of line 210 (every
    destination shown is a name the timetable supplied).
  \<^item> Board: the refresh refines its description and yields time-ordered, fresh queues
    enriched exactly in their first three entries; the tick keeps the board's shape and
    enriches the service at \<open>min(length - 1, 3)\<close>; a started enrichment is never
    retried; a rejected one leaves a half-enriched departure on the board and suppresses
    the notifications of every platform in that tick; one rejected enrichment rejects a
    refresh; \<open>after/:run\<close> answers the entry after the first match; a decimal position
    answers its entry or \<open>404\<close> (root theory).
  \<^item> Live: when every enrichment settles before the next step the heap model refines the
    atomic one; under every interleaving the platform keys stay and pending writes target
    index 3 at most; two defects for every state: an enrichment that settles while its
    departure stands elsewhere in the array lists the object twice (and loses the one at
    the stale index), and a hole at the head of an array is never removed by any
    interleaving, so every later tick throws and the platform answers 500.
  \<^item> Client: the station columns are the reference layout cut into columns; printed times
    read back to the time of day; the catch-up chain of \<open>updateClock\<close> terminates when the
    server answers no departed service, and never ends when the server lists a departed run
    twice (the defect of PID_Live, composed); the \<open>append\<close> handler's duplicate test never
    fires; a service without stations makes \<open>updateInfo\<close> throw and leave the previous
    stations on the page.
  \<^item> System: the daily job's \<open>refresh\<close> can be handled before the new board is published,
    after which the display keeps the old board with no message pending; under every
    interleaving every service a display holds carries its \<open>timeText\<close>; every
    \<open>append\<close> of the minute job carries a service of the receiving display's own platform.
    A page opened for a platform shows that platform's first three services once it has
    handled the refresh the server sends on connection.
  \<^item> Startup and Upstream: CBD mode is on exactly when the station was found by search and
    is a CBD station, never for a numeric \<open>STATION\<close>, which stays a string; a URL signed
    by \<open>generateURL\<close> passes the API's check, which recovers the signed URL with its
    developer id; a rejected first refresh stops the server before it serves.

  Loops and fuel: every loop of the server runs over a finite list and is a structural
  recursion, except the backward scan of lines 198--202, a \<open>function\<close> whose termination
  is proved with the measure \<open>idx + 1\<close>. The station-column loops of pid.js are
  \<open>function\<close>s terminating by the measures \<open>rows - row\<close> and \<open>4 - col\<close>. The recursion of
  \<open>updateClock\<close> (line 91) may not end, so \<open>updateClock\<close> takes fuel and returns
  \<open>None\<close> when it runs out; its termination theorem gives the fuel that suffices, one more
  than the sum of the positions of the departed services (\<open>past_weight\<close>), which every
  activation lowers.

  Not modelled: the HMAC-SHA1 digest itself (node's crypto library, a parameter) and the
  URL parser beyond \<open>https\<close> URLs with a path; the upstream API, a parameter of the
  model; module loading and environment reading (lines 1--15), the Express wiring and
  static file serving (lines 40--44, 350--355); console output; disconnecting sockets;
  the time that passes within one activation of \<open>updateClock\<close>: a request it makes is
  answered before any other handler runs, and \<open>Date.now()\<close> is one value per
  activation. In PID_System the colour map is published with the board when a daily
  refresh settles, not when its first response arrives. Dates are integers of milliseconds: \<open>new Date\<close> of an
  invalid string (\<open>NaN\<close>) is not represented.
\<close>

section \<open>Properties across components\<close>

text \<open>
  C31: \<open>GET /departures/:plat/:idx\<close> with a position written in decimal
  answers the entry at that position of the platform's queue, and \<open>404\<close> past its end:
  \<open>parseInt\<close> reads the printed position back exactly, and the length test of line 99
  comes before the read.
\<close>

theorem departures_index_decimal:
  assumes "map_of b p = Some l"
  shows "departures_index b p (dec_string n) = (if n < length l then Http200 (l ! n) else Http404)"
  using assms by (simp add: departures_index_def parseInt_dec_string)

theorem departures_index_decimal_witness:
  "departures_index ex_tick_board ''1'' ''1'' = Http200 (ex_dep ''104'' ''burnley'')
   \<and> departures_index ex_tick_board ''1'' ''2'' = Http404"
proof -
  have m: "map_of ex_tick_board ''1'' = Some [ex_dep ''101'' ''cityloop'', ex_dep ''104'' ''burnley'']"
    by (simp add: ex_tick_board_def)
  have c: "char_of (49::nat) = CHR ''1''" "char_of (50::nat) = CHR ''2''"
    by code_simp+
  show ?thesis
    using departures_index_decimal [OF m, of 1] departures_index_decimal [OF m, of 2] c
    by simp
qed

end
